(* ===== verification/Prelude.thy ===== *)
theory Prelude
  imports Complex_Main "HOL-Library.Word"
begin

unbundle bit_operations_syntax

text \<open>
  Shared vocabulary of the development: bytes, the exceptions of the Python
  program as values, the result type of fallible code, the little-endian
  integer codec of \<^verbatim>\<open>int.to_bytes\<close>, \<^verbatim>\<open>int.from_bytes\<close> and \<^verbatim>\<open>struct.pack("<H")\<close>,
  Python string helpers, and the generic lemmas on lists, integers and words
  that the component theories use.
\<close>

section \<open>Names for the types of the program\<close>

type_synonym byte = "8 word"
type_synonym bytes = "byte list"

text \<open>Python floats that hold exact decimal settings (seconds, degrees) are rationals.\<close>

type_synonym seconds = rat

named_theorems codec_simps \<open>little-endian codec\<close>
named_theorems raises_intros \<open>which exceptions a computation raises\<close>

section \<open>Exceptions as values\<close>

text \<open>
  One constructor per exception class the program raises or catches.  The class
  hierarchy of Python is in the \<^verbatim>\<open>is_\<dots>\<close> tests below: \<^verbatim>\<open>DeviceError\<close> is a
  \<^verbatim>\<open>ProtocolError\<close>, \<^verbatim>\<open>TimeoutError\<close> is an \<^verbatim>\<open>OSError\<close>, a \<^verbatim>\<open>UnicodeDecodeError\<close> is a
  \<^verbatim>\<open>ValueError\<close>, and \<^verbatim>\<open>CancelledError\<close> and \<^verbatim>\<open>KeyboardInterrupt\<close> are
  \<^verbatim>\<open>BaseException\<close>s that are not \<^verbatim>\<open>Exception\<close>s.
\<close>

datatype error =
    ValueError string
  | UnicodeDecodeError
  | ProtocolError string
  | DeviceError string
  | TimeoutError string
  | OSError string
  | RuntimeError string
  | SubprocessError string
  | EOFError string
  | KeyError
  | IndexError
  | AssertionError
  | StopIteration
  | CancelledError
  | KeyboardInterrupt

type_synonym 'a result = "error + 'a"

fun is_ProtocolError :: "error \<Rightarrow> bool" where
  "is_ProtocolError (ProtocolError m) = True"
| "is_ProtocolError (DeviceError m) = True"
| "is_ProtocolError _ = False"

fun is_DeviceError :: "error \<Rightarrow> bool" where
  "is_DeviceError (DeviceError m) = True"
| "is_DeviceError _ = False"

fun is_ValueError :: "error \<Rightarrow> bool" where
  "is_ValueError (ValueError m) = True"
| "is_ValueError UnicodeDecodeError = True"
| "is_ValueError _ = False"

fun is_TimeoutError :: "error \<Rightarrow> bool" where
  "is_TimeoutError (TimeoutError m) = True"
| "is_TimeoutError _ = False"

fun is_OSError :: "error \<Rightarrow> bool" where
  "is_OSError (OSError m) = True"
| "is_OSError (TimeoutError m) = True"
| "is_OSError _ = False"

text \<open>\<^verbatim>\<open>except Exception\<close> catches everything but cancellation and the interrupt.\<close>

fun is_Exception :: "error \<Rightarrow> bool" where
  "is_Exception CancelledError = False"
| "is_Exception KeyboardInterrupt = False"
| "is_Exception _ = True"

lemma DeviceError_is_ProtocolError: "is_DeviceError e \<Longrightarrow> is_ProtocolError e"
  by (cases e) simp_all

text \<open>\<^verbatim>\<open>str(exc)\<close> for the exceptions that carry a message.\<close>

fun message :: "error \<Rightarrow> string" where
  "message (ValueError m) = m"
| "message (ProtocolError m) = m"
| "message (DeviceError m) = m"
| "message (TimeoutError m) = m"
| "message (OSError m) = m"
| "message (EOFError m) = m"
| "message _ = []"

subsection \<open>Sequencing of fallible code\<close>

definition try_bind :: "'a result \<Rightarrow> ('a \<Rightarrow> 'b result) \<Rightarrow> 'b result" where
  "try_bind r f = (case r of Inl e \<Rightarrow> Inl e | Inr x \<Rightarrow> f x)"

lemma try_bind_simps [simp]:
  "try_bind (Inl e) f = Inl e"
  "try_bind (Inr x) f = f x"
  by (simp_all add: try_bind_def)

lemma try_bind_eq_Inr:
  "try_bind r f = Inr y \<longleftrightarrow> (\<exists>x. r = Inr x \<and> f x = Inr y)"
  by (cases r) auto

lemma try_bind_eq_Inl:
  "try_bind r f = Inl e \<longleftrightarrow> r = Inl e \<or> (\<exists>x. r = Inr x \<and> f x = Inl e)"
  by (cases r) auto

text \<open>The exceptions fallible code can raise, bounded by a predicate.\<close>

definition raises_only :: "(error \<Rightarrow> bool) \<Rightarrow> 'a result \<Rightarrow> bool" where
  "raises_only P r \<longleftrightarrow> (\<forall>e. r = Inl e \<longrightarrow> P e)"

lemma raises_onlyD: "raises_only P r \<Longrightarrow> r = Inl e \<Longrightarrow> P e"
  by (simp add: raises_only_def)

lemma raises_onlyI: "(\<And>e. r = Inl e \<Longrightarrow> P e) \<Longrightarrow> raises_only P r"
  by (simp add: raises_only_def)

lemma raises_only_Inr [raises_intros]: "raises_only P (Inr x)"
  by (simp add: raises_only_def)

lemma raises_only_Inl [raises_intros]: "P e \<Longrightarrow> raises_only P (Inl e)"
  by (simp add: raises_only_def)

lemma raises_only_bind [raises_intros]:
  "raises_only P r \<Longrightarrow> (\<And>x. raises_only P (f x)) \<Longrightarrow> raises_only P (try_bind r f)"
  by (cases r) (simp_all add: raises_only_def)

lemma raises_only_if [raises_intros]:
  "raises_only P r \<Longrightarrow> raises_only P s \<Longrightarrow> raises_only P (if c then r else s)"
  by simp

lemma raises_only_let [raises_intros]:
  "(\<And>x. raises_only P (f x)) \<Longrightarrow> raises_only P (let x = t in f x)"
  by simp

text \<open>\<^verbatim>\<open>if not c: raise e\<close>\<close>

definition require :: "bool \<Rightarrow> error \<Rightarrow> unit result" where
  "require c e = (if c then Inr () else Inl e)"

lemma require_eq [simp]:
  "require c e = Inr u \<longleftrightarrow> c"
  "require c e = Inl e' \<longleftrightarrow> \<not> c \<and> e' = e"
  "require True e = Inr ()"
  "require False e = Inl e"
  by (auto simp: require_def)

section \<open>Little-endian integers\<close>

text \<open>
  \<^verbatim>\<open>n.to_bytes(2, "little")\<close> and \<^verbatim>\<open>pack("<H", n)\<close>.  Both raise for
  \<open>n\<close> outside \<open>0..65535\<close>; every caller of the program stays inside that range,
  which the theorems about the callers show.
\<close>

definition to_bytes2 :: "int \<Rightarrow> bytes" where
  "to_bytes2 n = [word_of_int n, word_of_int (n div 256)]"

text \<open>\<^verbatim>\<open>int.from_bytes(data, "little")\<close>\<close>

fun from_bytes :: "bytes \<Rightarrow> int" where
  "from_bytes [] = 0"
| "from_bytes (b # bs) = uint b + 256 * from_bytes bs"

text \<open>\<^verbatim>\<open>unpack_from("<H", data, offset)[0]\<close>, for an offset inside the data.\<close>

definition unpack_H :: "bytes \<Rightarrow> nat \<Rightarrow> int" where
  "unpack_H data offset = uint (data ! offset) + 256 * uint (data ! (offset + 1))"

lemma uint_byte_bounds [simp]: "0 \<le> uint (b :: byte)" "uint (b :: byte) < 256"
  using uint_lt2p [of b] by simp_all

lemma length_to_bytes2 [simp]: "length (to_bytes2 n) = 2"
  by (simp add: to_bytes2_def)

lemma from_to_bytes2 [codec_simps, simp]:
  assumes "0 \<le> n" "n < 65536"
  shows "from_bytes (to_bytes2 n) = n"
proof -
  have "n div 256 < 256" "0 \<le> n div 256" using assms by auto
  then show ?thesis
    by (simp add: to_bytes2_def uint_word_of_int)
qed

lemma from_bytes_bounds: "0 \<le> from_bytes bs \<and> from_bytes bs < 256 ^ length bs"
proof (induction bs)
  case (Cons b bs)
  have "uint b + 256 * from_bytes bs < 256 + 256 * from_bytes bs" by simp
  also have "\<dots> \<le> 256 * 256 ^ length bs" using Cons.IH by simp
  finally show ?case using Cons.IH by simp
qed simp

lemma from_bytes_nonneg [simp]: "0 \<le> from_bytes bs"
  using from_bytes_bounds by simp

lemma from_bytes2_less: "length bs = 2 \<Longrightarrow> from_bytes bs < 65536"
  using from_bytes_bounds [of bs] by simp

lemma to_from_bytes2 [codec_simps]:
  assumes "length bs = 2"
  shows "to_bytes2 (from_bytes bs) = bs"
proof -
  obtain a b where bs: "bs = [a, b]"
    using assms by (auto simp: numeral_2_eq_2 length_Suc_conv)
  have zero: "(256 :: byte) = 0" by (rule word_uint_eqI) simp
  have high: "(uint a + 256 * uint b) div 256 = uint b" by simp
  have "word_of_int (uint a + 256 * uint b) = a" by (simp add: zero)
  then show ?thesis using high by (simp add: bs to_bytes2_def)
qed

lemma from_bytes_inj2:
  assumes "length xs = 2" "length ys = 2" "from_bytes xs = from_bytes ys"
  shows "xs = ys"
  using assms to_from_bytes2 by metis

lemma unpack_H_bounds: "0 \<le> unpack_H d k" "unpack_H d k < 65536"
proof -
  have "uint (d ! k) < 256" "uint (d ! (k + 1)) < 256" by simp_all
  then show "unpack_H d k < 65536" unfolding unpack_H_def by linarith
qed (simp add: unpack_H_def)

lemma unpack_H_to_bytes2:
  assumes "0 \<le> n" "n < 65536" "length pre = k"
  shows "unpack_H (pre @ to_bytes2 n @ post) k = n"
proof -
  have "(pre @ to_bytes2 n @ post) ! k = to_bytes2 n ! 0"
    and "(pre @ to_bytes2 n @ post) ! (k + 1) = to_bytes2 n ! 1"
    using assms(3) by (simp_all add: nth_append)
  then show ?thesis
    using from_to_bytes2 [OF assms(1,2)] by (simp add: unpack_H_def to_bytes2_def)
qed

section \<open>Strings\<close>

text \<open>\<^verbatim>\<open>str.isspace\<close> on the ASCII range, as \<^verbatim>\<open>str.strip()\<close> uses it.\<close>

definition is_space :: "char \<Rightarrow> bool" where
  "is_space c \<longleftrightarrow> (let n = (of_char c :: nat) in n = 32 \<or> 9 \<le> n \<and> n \<le> 13 \<or> 28 \<le> n \<and> n \<le> 31)"

definition strip :: "string \<Rightarrow> string" where
  "strip s = rev (dropWhile is_space (rev (dropWhile is_space s)))"

text \<open>\<^verbatim>\<open>data.decode("ascii")\<close>\<close>

definition decode_ascii :: "bytes \<Rightarrow> string result" where
  "decode_ascii data =
     (if list_all (\<lambda>b. uint b < 128) data
      then Inr (map (\<lambda>b. char_of (nat (uint b))) data)
      else Inl UnicodeDecodeError)"

text \<open>\<^verbatim>\<open>text.encode("ascii")\<close>, for text whose characters are all ASCII.\<close>

definition encode_ascii :: "string \<Rightarrow> bytes" where
  "encode_ascii s = map (\<lambda>c. word_of_nat (of_char c)) s"

text \<open>\<^verbatim>\<open>str(n)\<close> of a non-negative integer, and \<^verbatim>\<open>data.hex()\<close>.\<close>

definition digit_char :: "nat \<Rightarrow> char" where
  "digit_char n = ''0123456789abcdef'' ! n"

fun show_nat :: "nat \<Rightarrow> string" where
  "show_nat n = (if n < 10 then [digit_char n] else show_nat (n div 10) @ [digit_char (n mod 10)])"

declare show_nat.simps [simp del]

definition hex :: "bytes \<Rightarrow> string" where
  "hex data = concat (map (\<lambda>b. [digit_char (unat b div 16), digit_char (unat b mod 16)]) data)"

text \<open>
  \<^verbatim>\<open>bytes.fromhex\<close>: pairs of hexadecimal digits, with ASCII white space allowed between
  the pairs; anything else is a \<^verbatim>\<open>ValueError\<close>.
\<close>

definition hex_value :: "char \<Rightarrow> nat option" where
  "hex_value c = (let n = (of_char c :: nat) in
     if 48 \<le> n \<and> n \<le> 57 then Some (n - 48)
     else if 97 \<le> n \<and> n \<le> 102 then Some (n - 87)
     else if 65 \<le> n \<and> n \<le> 70 then Some (n - 55) else None)"

definition hex_space :: "char \<Rightarrow> bool" where
  "hex_space c \<longleftrightarrow> (let n = (of_char c :: nat) in n = 32 \<or> 9 \<le> n \<and> n \<le> 13)"

fun fromhex :: "string \<Rightarrow> bytes result" where
  "fromhex [] = Inr []"
| "fromhex [c] =
     (if hex_space c then Inr []
      else Inl (ValueError ''non-hexadecimal number found in fromhex() arg''))"
| "fromhex (c # d # s) =
     (if hex_space c then fromhex (d # s)
      else case (hex_value c, hex_value d) of
        (Some hi, Some lo) \<Rightarrow> try_bind (fromhex s) (\<lambda>bs. Inr (word_of_nat (16 * hi + lo) # bs))
      | _ \<Rightarrow> Inl (ValueError ''non-hexadecimal number found in fromhex() arg''))"

text \<open>Python's \<^verbatim>\<open>round\<close>: to the nearest integer, ties to the even one.\<close>

definition py_round :: "rat \<Rightarrow> int" where
  "py_round x =
     (let f = \<lfloor>x\<rfloor>; d = x - of_int f
      in if d < 1 / 2 then f else if 1 / 2 < d then f + 1 else if even f then f else f + 1)"

lemma py_round_of_int [simp]: "py_round (of_int n) = n"
  by (simp add: py_round_def)

definition isprefix :: "'a list \<Rightarrow> 'a list \<Rightarrow> bool" where
  "isprefix p s \<longleftrightarrow> take (length p) s = p"

lemma isprefix_iff: "isprefix p s \<longleftrightarrow> (\<exists>r. s = p @ r)"
  by (metis append_eq_conv_conj append_take_drop_id isprefix_def)

lemma length_encode_ascii [simp]: "length (encode_ascii s) = length s"
  by (simp add: encode_ascii_def)

lemma decode_encode_ascii:
  "list_all (\<lambda>c. of_char c < (128 :: nat)) t \<Longrightarrow> decode_ascii (encode_ascii t) = Inr t"
proof -
  assume t: "list_all (\<lambda>c. of_char c < (128 :: nat)) t"
  have byte: "uint (word_of_nat n :: byte) = int n" if "n < 128" for n
    using that by (simp add: unsigned_of_nat take_bit_nat_eq_self flip: of_nat_take_bit)
  then have "unat (word_of_nat n :: byte) = n" if "n < 128" for n
    using that byte by (metis nat_int unat_eq_nat_uint)
  with byte have "list_all (\<lambda>b. uint b < 128) (encode_ascii t) \<and> map (\<lambda>b. char_of (nat (uint b))) (encode_ascii t) = t"
    using t by (induction t) (simp_all add: encode_ascii_def)
  then show ?thesis by (simp add: decode_ascii_def)
qed

lemma hex_value_digit_char: "n < 16 \<Longrightarrow> hex_value (digit_char n) = Some n"
proof -
  assume "n < 16"
  then have "n \<in> set [0..<16]" by simp
  moreover have "list_all (\<lambda>k. hex_value (digit_char k) = Some k) [0..<16]"
    by (simp add: upt_conv_Cons hex_value_def digit_char_def)
  ultimately show ?thesis by (simp only: list_all_iff)
qed

lemma hex_value_not_space: "hex_value c = Some n \<Longrightarrow> \<not> hex_space c"
  by (auto simp: hex_value_def hex_space_def Let_def)

lemma digit_char_not_space: "n < 16 \<Longrightarrow> \<not> hex_space (digit_char n)"
  by (rule hex_value_not_space [OF hex_value_digit_char])

lemma fromhex_hex: "fromhex (hex data) = Inr data"
proof (induction data)
  case (Cons b data)
  have "unat b < 256" using unsigned_less [of b] by simp
  then have "unat b div 16 < 16" "unat b mod 16 < 16" by auto
  then have "fromhex (hex (b # data)) = Inr (word_of_nat (16 * (unat b div 16) + unat b mod 16) # data)"
    using Cons.IH by (simp add: hex_def hex_value_digit_char digit_char_not_space)
  then show ?case by simp
qed (simp add: hex_def)

section \<open>Lists\<close>

lemma take_append_le [simp]: "n \<le> length xs \<Longrightarrow> take n (xs @ ys) = take n xs"
  by simp

lemma drop_append_le: "n \<le> length xs \<Longrightarrow> drop n (xs @ ys) = drop n xs @ ys"
  by simp

lemma hd_append_ne: "xs \<noteq> [] \<Longrightarrow> hd (xs @ ys) = hd xs"
  by simp

text \<open>\<^verbatim>\<open>data[i:j]\<close> for \<open>0 \<le> i \<le> j\<close>.\<close>

definition slice :: "nat \<Rightarrow> nat \<Rightarrow> 'a list \<Rightarrow> 'a list" where
  "slice i j xs = take (j - i) (drop i xs)"

lemma length_slice: "j \<le> length xs \<Longrightarrow> length (slice i j xs) = j - i"
  by (simp add: slice_def)

lemma slice_append: "j \<le> length xs \<Longrightarrow> slice i j (xs @ ys) = slice i j xs"
  by (simp add: slice_def)

end
