(* ===== verification/Crc.thy ===== *)
theory Crc
  imports Prelude
begin

text \<open>
  The checksum of \<^verbatim>\<open>protocol/crc.py\<close>.  \<open>crc16\<close> is the Python loop on
  unbounded integers; \<open>crc_reg\<close> is the 16-bit shift register it implements.
  The theory proves the two equal, that the checksum fits the two trailing bytes
  of a telegram, that it is linear, and that no change of a single byte keeps it.
\<close>

section \<open>The Python loop\<close>

definition crc16_step :: "int \<Rightarrow> int \<Rightarrow> int \<Rightarrow> int" where
  "crc16_step result previous current =
     (let shifted = (push_bit 1 result XOR (if result AND 0x8000 \<noteq> 0 then 0x8005 else 0)) AND 0xFFFF
      in shifted XOR (push_bit 8 previous OR current))"

fun crc16_loop :: "int \<Rightarrow> int \<Rightarrow> bytes \<Rightarrow> int" where
  "crc16_loop result previous [] = result"
| "crc16_loop result previous (current # data) =
     crc16_loop (crc16_step result previous (uint current)) (uint current) data"

definition crc16 :: "bytes \<Rightarrow> int" where
  "crc16 data = crc16_loop 0 0 data"

section \<open>The shift register\<close>

definition shl :: "16 word \<Rightarrow> 16 word" where
  "shl r = push_bit 1 r XOR (if bit r 15 then 0x8005 else 0)"

definition pair_word :: "byte \<Rightarrow> byte \<Rightarrow> 16 word" where
  "pair_word p c = push_bit 8 (ucast p) OR ucast c"

fun crc_reg :: "16 word \<Rightarrow> byte \<Rightarrow> bytes \<Rightarrow> 16 word" where
  "crc_reg r p [] = r"
| "crc_reg r p (c # cs) = crc_reg (shl r XOR pair_word p c) c cs"

lemma and_0xFFFF: "(x :: int) AND 0xFFFF = take_bit 16 x"
  by (simp add: take_bit_eq_mask mask_numeral)

lemma and_0x8000: "uint (r :: 16 word) AND 0x8000 \<noteq> 0 \<longleftrightarrow> bit r 15"
  using and_exp_eq_0_iff_not_bit [of "uint r" 15] by (simp add: bit_uint_iff)

lemma uint_shl:
  "uint (shl r) =
     (push_bit 1 (uint r) XOR (if uint r AND 0x8000 \<noteq> 0 then 0x8005 else 0)) AND 0xFFFF"
proof -
  have "uint (push_bit 1 r) = take_bit 16 (push_bit 1 (uint r))"
    by (simp only: unsigned_push_bit_eq) simp
  then show ?thesis
    unfolding and_0x8000 by (auto simp: and_0xFFFF shl_def unsigned_xor_eq take_bit_xor)
qed

lemma uint_pair_word: "uint (pair_word p c) = push_bit 8 (uint p) OR uint c"
proof -
  have "push_bit 8 (uint p) < 2 ^ 16" by (simp add: push_bit_eq_mult)
  then have "take_bit 16 (push_bit 8 (uint p)) = push_bit 8 (uint p)"
    by (simp add: take_bit_int_eq_self push_bit_eq_mult)
  moreover have "take_bit 16 (uint p) = uint p" "take_bit 16 (uint c) = uint c"
    by (simp_all add: take_bit_int_eq_self order_less_le_trans [OF uint_byte_bounds(2)])
  ultimately show ?thesis
    by (simp add: pair_word_def unsigned_or_eq unsigned_push_bit_eq unsigned_ucast_eq)
qed

lemma crc16_step_reg:
  "crc16_step (uint r) (uint p) (uint c) = uint (shl r XOR pair_word p c)"
  by (simp add: crc16_step_def uint_shl uint_pair_word unsigned_xor_eq)

lemma crc16_loop_reg: "crc16_loop (uint r) (uint p) data = uint (crc_reg r p data)"
  by (induction data arbitrary: r p) (simp_all add: crc16_step_reg)

lemma crc16_reg: "crc16 data = uint (crc_reg 0 0 data)"
  using crc16_loop_reg [of 0 0 data] by (simp add: crc16_def)

lemma crc16_bounds [simp]: "0 \<le> crc16 data" "crc16 data < 65536"
  using uint_lt2p [of "crc_reg 0 0 data"] by (simp_all add: crc16_reg)

section \<open>Linearity\<close>

lemma bit_0x8005: "bit (0x8005 :: 16 word) n \<longleftrightarrow> n = 0 \<or> n = 2 \<or> n = 15"
proof -
  have "(0x8005 :: 16 word) = push_bit 15 1 OR push_bit 2 1 OR 1"
    by simp
  then show ?thesis
    by (simp only: bit_or_iff bit_push_bit_iff bit_1_iff) auto
qed

lemma bit_shl:
  "bit (shl r) n \<longleftrightarrow> ((0 < n \<and> n < 16 \<and> bit r (n - 1)) \<noteq> (bit r 15 \<and> (n = 0 \<or> n = 2 \<or> n = 15)))"
proof -
  have "bit (shl r) n \<longleftrightarrow> bit (push_bit 1 r) n \<noteq> (bit r 15 \<and> bit (0x8005 :: 16 word) n)"
    unfolding shl_def bit_xor_iff by simp
  also have "bit (push_bit 1 r) n \<longleftrightarrow> 0 < n \<and> n < 16 \<and> bit r (n - 1)"
    unfolding bit_push_bit_iff by auto
  finally show ?thesis unfolding bit_0x8005 .
qed

lemma shl_xor: "shl (a XOR b) = shl a XOR shl b"
  by (rule bit_word_eqI) (auto simp: bit_shl bit_xor_iff)

lemma shl_eq_0_iff: "shl a = 0 \<longleftrightarrow> a = 0"
proof
  assume z: "shl a = 0"
  then have top: "\<not> bit a 15" using bit_shl [of a 0] by simp
  show "a = 0"
  proof (rule bit_word_eqI)
    fix n assume n: "n < LENGTH(16)"
    show "bit a n \<longleftrightarrow> bit (0 :: 16 word) n"
    proof (cases "n = 15")
      case False
      then show ?thesis using z n top bit_shl [of a "Suc n"] by simp
    qed (use top in simp)
  qed
qed (simp add: shl_def)

lemma bit_pair_word:
  "bit (pair_word p c) n \<longleftrightarrow> n < 16 \<and> (if n < 8 then bit c n else bit p (n - 8))"
proof -
  have "n \<ge> 8 \<Longrightarrow> \<not> bit c n" by (auto dest: bit_imp_le_length)
  moreover have "n - 8 < 8 \<or> \<not> bit p (n - 8)" by (auto dest: bit_imp_le_length)
  ultimately show ?thesis
    by (auto simp: pair_word_def bit_or_iff bit_push_bit_iff bit_ucast_iff dest: bit_imp_le_length)
qed

lemma pair_word_xor: "pair_word (p XOR q) (c XOR d) = pair_word p c XOR pair_word q d"
  by (rule bit_word_eqI) (simp add: bit_pair_word bit_xor_iff)

lemma crc_reg_xor:
  "length cs = length ds \<Longrightarrow>
   crc_reg (r XOR s) (p XOR q) (map2 (XOR) cs ds) = crc_reg r p cs XOR crc_reg s q ds"
proof (induction cs ds arbitrary: r s p q rule: list_induct2)
  case (Cons c cs d ds)
  have "shl (r XOR s) XOR pair_word (p XOR q) (c XOR d) =
        (shl r XOR pair_word p c) XOR (shl s XOR pair_word q d)"
    by (simp add: shl_xor pair_word_xor ac_simps)
  then show ?case using Cons.IH by simp
qed simp

lemma crc_reg_zero: "crc_reg 0 0 (replicate n 0) = 0"
proof (induction n)
  case (Suc n)
  have "shl 0 XOR pair_word 0 0 = 0" by (simp add: shl_def pair_word_def)
  with Suc show ?case by simp
qed simp

section \<open>Every single-byte change is detected\<close>

lemma xor_twice [simp]: "(a XOR b) XOR b = (a :: 'a :: len word)"
  by (simp add: xor.assoc)

lemma xor_cancel_right [simp]: "a XOR c = b XOR c \<longleftrightarrow> a = (b :: 'a :: len word)"
  by (metis xor_twice)

lemma xor_cancel_left [simp]: "c XOR a = c XOR b \<longleftrightarrow> a = (b :: 'a :: len word)"
  using xor_cancel_right [of a c b] by (simp only: xor.commute)

lemma word_xor_eq_0_iff: "(a :: 'a :: len word) XOR b = 0 \<longleftrightarrow> a = b"
  using xor_cancel_right [of a b b] by (simp only: xor_self_eq)

lemma crc_reg_inj: "crc_reg r p cs = crc_reg s p cs \<longleftrightarrow> r = s"
proof (induction cs arbitrary: r s p)
  case (Cons c cs)
  have "shl r = shl s \<longleftrightarrow> r = s"
    using shl_xor [of r s] shl_eq_0_iff [of "r XOR s"] by (simp add: word_xor_eq_0_iff)
  then show ?case using Cons.IH by simp
qed simp

lemma pair_word_inj: "pair_word p a = pair_word p b \<longleftrightarrow> a = b"
proof
  assume eq: "pair_word p a = pair_word p b"
  show "a = b"
  proof (rule bit_word_eqI)
    fix n assume "n < LENGTH(8)"
    then show "bit a n \<longleftrightarrow> bit b n"
      using eq bit_pair_word [of p a n] bit_pair_word [of p b n] by simp
  qed
qed simp

text \<open>A changed byte enters the register twice, shifted differently; the two never cancel.\<close>

lemma byte_never_cancels:
  assumes "d \<noteq> 0"
  shows "shl (pair_word 0 d) XOR pair_word d 0 \<noteq> 0"
proof
  assume "shl (pair_word 0 d) XOR pair_word d 0 = 0"
  then have eq: "bit (shl (pair_word 0 d)) n \<longleftrightarrow> bit (pair_word d 0) n" for n
    by (simp add: word_xor_eq_0_iff)
  have top: "\<not> bit (pair_word 0 d) 15" by (simp add: bit_pair_word)
  have low: "\<not> bit d n" if "n < 7" for n
    using eq [of "Suc n"] that top by (simp add: bit_shl bit_pair_word)
  have high: "\<not> bit d 7" using eq [of 15] low top by (simp add: bit_shl bit_pair_word)
  have "d = 0"
  proof (rule bit_word_eqI)
    fix n assume "n < LENGTH(8)"
    then have "n < 7 \<or> n = 7" by auto
    then show "bit d n \<longleftrightarrow> bit (0 :: byte) n" using low high by auto
  qed
  with assms show False by simp
qed

lemma crc_reg_append: "crc_reg r p (xs @ y # ys) = crc_reg (crc_reg r p (xs @ [y])) y ys"
  by (induction xs arbitrary: r p) simp_all

lemma crc_reg_changed_byte:
  assumes "a \<noteq> b"
  shows "crc_reg r p (a # ys) \<noteq> crc_reg r p (b # ys)"
proof (cases ys)
  case Nil
  then show ?thesis using assms by (simp add: pair_word_inj)
next
  case (Cons y ys')
  let ?a = "shl r XOR pair_word p a" and ?b = "shl r XOR pair_word p b"
  have "pair_word p a XOR pair_word p b = pair_word 0 (a XOR b)"
    using pair_word_xor [of p p a b] by simp
  moreover have "pair_word a y XOR pair_word b y = pair_word (a XOR b) 0"
    using pair_word_xor [of a b y y] by simp
  moreover have "shl ?a XOR shl ?b = shl (pair_word p a XOR pair_word p b)"
    by (simp add: shl_xor ac_simps xor_self_eq)
  moreover have "(shl ?a XOR pair_word a y) XOR (shl ?b XOR pair_word b y) =
      (shl ?a XOR shl ?b) XOR (pair_word a y XOR pair_word b y)"
    by (simp add: ac_simps)
  moreover have "a XOR b \<noteq> 0" using assms by (simp add: word_xor_eq_0_iff)
  ultimately have "(shl ?a XOR pair_word a y) XOR (shl ?b XOR pair_word b y) \<noteq> 0"
    using byte_never_cancels [of "a XOR b"] by simp
  then have "shl ?a XOR pair_word a y \<noteq> shl ?b XOR pair_word b y"
    by (simp add: word_xor_eq_0_iff)
  then show ?thesis by (simp add: Cons crc_reg_inj)
qed

lemma crc_reg_prefix_changed:
  assumes "a \<noteq> b"
  shows "crc_reg r p (xs @ a # ys) \<noteq> crc_reg r p (xs @ b # ys)"
  by (induction xs arbitrary: r p) (use assms crc_reg_changed_byte in simp_all)

lemma crc16_changed_byte: "a \<noteq> b \<Longrightarrow> crc16 (xs @ a # ys) \<noteq> crc16 (xs @ b # ys)"
  by (metis crc16_reg crc_reg_prefix_changed word_uint_eqI)

section \<open>The checksum interface\<close>

text \<open>
  What framing needs of a checksum: it fits two bytes and tells apart any two
  messages that differ in one byte.  The client lemmas say that a sealed message
  is recognised and that a sealed message with one byte changed, in the message
  or in the trailer, is not.
\<close>

locale checksum =
  fixes sum :: "bytes \<Rightarrow> int"
  assumes sum_nonneg: "0 \<le> sum m"
    and sum_less: "sum m < 65536"
    and sum_detects: "a \<noteq> b \<Longrightarrow> sum (xs @ a # ys) \<noteq> sum (xs @ b # ys)"
begin

lemma sealed_recognised: "from_bytes (to_bytes2 (sum m)) = sum m"
  by (simp add: sum_nonneg sum_less)

lemma trailer_unique:
  assumes "length t = 2" "from_bytes t = sum m"
  shows "t = to_bytes2 (sum m)"
  using assms to_from_bytes2 by metis

lemma corruption_rejected:
  assumes raw: "xs @ a # ys = m @ t" and bad: "xs @ b # ys = m' @ t'"
    and len: "length t = 2" "length t' = 2"
    and ok: "from_bytes t = sum m" and ne: "a \<noteq> b"
  shows "from_bytes t' \<noteq> sum m'"
proof -
  have same: "length m' = length m"
    using arg_cong [OF raw, of length] arg_cong [OF bad, of length] len by simp
  show ?thesis
  proof (cases "length xs < length m")
    case True
    then obtain zs where m: "m = xs @ a # zs" and ys: "ys = zs @ t"
      using raw by (auto simp: append_eq_append_conv2 Cons_eq_append_conv append_eq_Cons_conv)
    have "m' = xs @ b # zs" "t' = t"
      using bad ys same m by (auto simp: append_eq_append_conv2 Cons_eq_append_conv append_eq_Cons_conv)
    then show ?thesis using ok sum_detects [OF ne, of xs zs] m by simp
  next
    case False
    then obtain zs where xs: "xs = m @ zs" and t: "t = zs @ a # ys"
      using raw by (auto simp: append_eq_append_conv2 Cons_eq_append_conv append_eq_Cons_conv)
    have "m' = m" "t' = zs @ b # ys"
      using bad xs same by (auto simp: append_eq_append_conv)
    then show ?thesis using ok from_bytes_inj2 [OF len] t ne by auto
  qed
qed

end

interpretation crc: checksum crc16
  by unfold_locales (simp_all add: crc16_changed_byte)

section \<open>Properties\<close>



end
