(* ===== verification/Stream_Parser.thy ===== *)
theory Stream_Parser
  imports Prelude
begin

text \<open>
  The contract of an incremental parser: a state that accepts more input
  (\<open>push\<close>), a single parsing step, and the loop that runs steps until none is
  possible.  The laws are that a step uses up input and that input arriving later
  never changes a step that is already possible.  The consequences, proved here
  once, are what every reader of a byte stream relies on: cutting the stream into
  chunks changes neither the outputs nor the final state, the loop ends in a state
  with no step left, and whatever every step keeps, the loop keeps.
\<close>

locale stream_parser =
  fixes step :: "'s \<Rightarrow> ('s \<times> 'e list \<times> 'c list) option"
    and run :: "'s \<Rightarrow> 's \<times> 'e list \<times> 'c list"
    and push :: "'s \<Rightarrow> 'b list \<Rightarrow> 's"
    and pending :: "'s \<Rightarrow> nat"
  assumes step_shrinks: "step s = Some (t, es, cs) \<Longrightarrow> pending t < pending s"
    and step_push: "step s = Some (t, es, cs) \<Longrightarrow> step (push s d) = Some (push t d, es, cs)"
    and push_push: "push (push s a) b = push s (a @ b)"
    and push_nil: "push s [] = s"
    and run_eq: "run s = (case step s of None \<Rightarrow> (s, [], [])
      | Some (t, es, cs) \<Rightarrow> (case run t of (u, es', cs') \<Rightarrow> (u, es @ es', cs @ cs')))"
begin

lemma run_None: "step s = None \<Longrightarrow> run s = (s, [], [])"
  by (subst run_eq) simp

lemma run_Some:
  "step s = Some (t, es, cs) \<Longrightarrow> run t = (u, es', cs') \<Longrightarrow> run s = (u, es @ es', cs @ cs')"
  by (subst run_eq) simp

lemma run_induct [consumes 1, case_names stop step]:
  assumes "run s = (u, es, cs)"
    and "\<And>s. step s = None \<Longrightarrow> P s s [] []"
    and "\<And>s t es cs u es' cs'. step s = Some (t, es, cs) \<Longrightarrow> run t = (u, es', cs') \<Longrightarrow>
      P t u es' cs' \<Longrightarrow> P s u (es @ es') (cs @ cs')"
  shows "P s u es cs"
  using assms(1)
proof (induction "pending s" arbitrary: s u es cs rule: less_induct)
  case less
  show ?case
  proof (cases "step s")
    case None
    then show ?thesis using less.prems assms(2) by (simp add: run_None)
  next
    case (Some x)
    obtain t es1 cs1 where x: "step s = Some (t, es1, cs1)" using Some by (cases x) auto
    obtain v es2 cs2 where r: "run t = (v, es2, cs2)" by (cases "run t") auto
    have "P t v es2 cs2" using less.hyps [OF step_shrinks [OF x]] r by simp
    then show ?thesis
      using assms(3) [OF x r] run_Some [OF x r] less.prems by simp
  qed
qed

lemma run_stops: "run s = (u, es, cs) \<Longrightarrow> step u = None"
  by (induction rule: run_induct) auto

lemma run_push:
  assumes "run s = (t, es, cs)" "run (push t d) = (u, es', cs')"
  shows "run (push s d) = (u, es @ es', cs @ cs')"
  using assms
proof (induction rule: run_induct)
  case (step s v es1 cs1 t es2 cs2)
  then have "run (push v d) = (u, es2 @ es', cs2 @ cs')" by simp
  from run_Some [OF step_push [OF step.hyps(1)] this] show ?case by simp
qed simp

text \<open>Feeding \<open>a\<close> and then \<open>b\<close> is feeding \<open>a @ b\<close>.\<close>

lemma feed_append:
  assumes "run (push s a) = (t, es, cs)" "run (push t b) = (u, es', cs')"
  shows "run (push s (a @ b)) = (u, es @ es', cs @ cs')"
  using run_push [OF assms] by (simp add: push_push)

lemma run_invariant:
  assumes "run s = (u, es, cs)" "I s"
    and "\<And>s t es cs. I s \<Longrightarrow> step s = Some (t, es, cs) \<Longrightarrow> I t"
  shows "I u"
  using assms(1,2) by (induction rule: run_induct) (auto intro: assms(3))

lemma run_outputs:
  assumes "run s = (u, es, cs)"
    and "\<And>s t es cs. step s = Some (t, es, cs) \<Longrightarrow> list_all E es \<and> list_all C cs"
  shows "list_all E es \<and> list_all C cs"
  using assms(1) by (induction rule: run_induct) (auto dest: assms(2))

end

end
