(* ===== verification/Framing.thy ===== *)
theory Framing
  imports Crc Stream_Parser
begin

text \<open>
  Telegram framing, \<^verbatim>\<open>protocol/framing.py\<close>: the encoder, and the incremental
  framer that finds acknowledgements and telegrams in a byte stream.  The state
  of a \<^verbatim>\<open>Framer\<close> is the record \<open>Framer\<close>; one turn of its \<^verbatim>\<open>while\<close> loop is
  \<open>feed_step\<close>, the loop is \<open>feed_loop\<close>.  The observer callback only receives
  candidates, so \<open>feed\<close> returns the candidates it is called with, in order.
\<close>

named_theorems framer_defs \<open>definitions of the framer\<close>

section \<open>Data\<close>

definition STX :: byte where
  "STX = 0x02"

definition MAX_PAYLOAD :: int where
  "MAX_PAYLOAD = 808"

datatype Control = ACK | NAK

fun control_byte :: "Control \<Rightarrow> byte" where
  "control_byte ACK = 0x06"
| "control_byte NAK = 0x15"

record Frame =
  frame_address :: int
  frame_payload :: bytes
  frame_raw :: bytes

text \<open>\<^verbatim>\<open>Frame.command\<close> is \<^verbatim>\<open>payload[0]\<close>.\<close>

definition frame_command :: "Frame \<Rightarrow> int result" where
  "frame_command f = (case frame_payload f of [] \<Rightarrow> Inl IndexError | b # _ \<Rightarrow> Inr (uint b))"

record FrameStats =
  stat_frames :: nat
  stat_crc_errors :: nat
  stat_invalid_lengths :: nat
  stat_noise_bytes :: nat
  stat_truncated_frames :: nat

definition zero_stats :: FrameStats where
  "zero_stats = \<lparr>stat_frames = 0, stat_crc_errors = 0, stat_invalid_lengths = 0,
     stat_noise_bytes = 0, stat_truncated_frames = 0\<rparr>"

record FrameCandidate =
  cand_offset :: nat
  cand_raw :: bytes
  crc_expected :: int
  crc_received :: int

definition crc_valid :: "FrameCandidate \<Rightarrow> bool" where
  "crc_valid c \<longleftrightarrow> crc_expected c = crc_received c"

datatype event = EvFrame Frame | EvControl Control

section \<open>Encoding\<close>

definition encode :: "bytes \<Rightarrow> int \<Rightarrow> bytes result" where
  "encode payload address =
     (if \<not> (0 \<le> address \<and> address \<le> 255) \<or>
         \<not> (1 \<le> int (length payload) \<and> int (length payload) \<le> MAX_PAYLOAD)
      then Inl (ValueError ''Invalid address or payload length'')
      else let message = [STX, word_of_int address] @ to_bytes2 (int (length payload)) @ payload
           in Inr (message @ to_bytes2 (crc16 message)))"

section \<open>The framer\<close>

record Framer =
  buffer :: bytes
  stats :: FrameStats
  offset :: nat

definition new_framer :: Framer where
  "new_framer = \<lparr>buffer = [], stats = zero_stats, offset = 0\<rparr>"

definition discard :: "nat \<Rightarrow> Framer \<Rightarrow> Framer" where
  "discard count f = f\<lparr>buffer := drop count (buffer f), offset := offset f + count\<rparr>"

definition count_noise :: "Framer \<Rightarrow> Framer" where
  "count_noise f = f\<lparr>stats := (stats f)\<lparr>stat_noise_bytes := stat_noise_bytes (stats f) + 1\<rparr>\<rparr>"

definition count_invalid_length :: "Framer \<Rightarrow> Framer" where
  "count_invalid_length f =
     f\<lparr>stats := (stats f)\<lparr>stat_invalid_lengths := stat_invalid_lengths (stats f) + 1\<rparr>\<rparr>"

definition count_crc_error :: "Framer \<Rightarrow> Framer" where
  "count_crc_error f =
     f\<lparr>stats := (stats f)\<lparr>stat_crc_errors := stat_crc_errors (stats f) + 1\<rparr>\<rparr>"

definition count_frame :: "Framer \<Rightarrow> Framer" where
  "count_frame f = f\<lparr>stats := (stats f)\<lparr>stat_frames := stat_frames (stats f) + 1\<rparr>\<rparr>"

definition count_truncated :: "Framer \<Rightarrow> Framer" where
  "count_truncated f =
     f\<lparr>stats := (stats f)\<lparr>stat_truncated_frames := stat_truncated_frames (stats f) + 1\<rparr>\<rparr>"

text \<open>The candidate telegram at the head of the buffer, \<open>total_len\<close> bytes long.\<close>

definition candidate_at :: "nat \<Rightarrow> nat \<Rightarrow> bytes \<Rightarrow> FrameCandidate" where
  "candidate_at off total_len buf =
     (let raw = take total_len buf
      in \<lparr>cand_offset = off, cand_raw = raw,
          crc_expected = crc16 (take (length raw - 2) raw),
          crc_received = from_bytes (drop (length raw - 2) raw)\<rparr>)"

text \<open>\<^verbatim>\<open>Frame(raw[1], raw[4:-2], raw)\<close>\<close>

definition frame_of_raw :: "bytes \<Rightarrow> Frame" where
  "frame_of_raw raw =
     \<lparr>frame_address = uint (raw ! 1), frame_payload = slice 4 (length raw - 2) raw,
      frame_raw = raw\<rparr>"

text \<open>
  One turn of the loop of \<^verbatim>\<open>Framer.feed\<close>: \<open>None\<close> when the loop ends (empty
  buffer, or \<^verbatim>\<open>break\<close> on an incomplete telegram), otherwise the next state, the
  events appended and the candidates shown to the observer.
\<close>

definition feed_step :: "Framer \<Rightarrow> (Framer \<times> event list \<times> FrameCandidate list) option" where
  "feed_step f =
     (case buffer f of
        [] \<Rightarrow> None
      | first # _ \<Rightarrow>
          if first = control_byte ACK then Some (discard 1 f, [EvControl ACK], [])
          else if first = control_byte NAK then Some (discard 1 f, [EvControl NAK], [])
          else if first \<noteq> STX then Some (discard 1 (count_noise f), [], [])
          else if length (buffer f) < 4 then None
          else let len = from_bytes (slice 2 4 (buffer f)) in
            if \<not> (1 \<le> len \<and> len \<le> MAX_PAYLOAD)
            then Some (discard 1 (count_invalid_length f), [], [])
            else let total_len = nat (len + 6) in
              if length (buffer f) < total_len then None
              else let candidate = candidate_at (offset f) total_len (buffer f) in
                if \<not> crc_valid candidate
                then Some (discard 1 (count_crc_error f), [], [candidate])
                else Some (discard total_len (count_frame f),
                           [EvFrame (frame_of_raw (cand_raw candidate))], [candidate]))"

lemmas counter_defs = count_noise_def count_invalid_length_def count_crc_error_def
  count_frame_def count_truncated_def

lemma discard_sel [simp]:
  "buffer (discard n f) = drop n (buffer f)"
  "stats (discard n f) = stats f"
  "offset (discard n f) = offset f + n"
  by (simp_all add: discard_def)

lemma counters_keep [simp]:
  "buffer (count_noise f) = buffer f" "offset (count_noise f) = offset f"
  "buffer (count_invalid_length f) = buffer f" "offset (count_invalid_length f) = offset f"
  "buffer (count_crc_error f) = buffer f" "offset (count_crc_error f) = offset f"
  "buffer (count_frame f) = buffer f" "offset (count_frame f) = offset f"
  "buffer (count_truncated f) = buffer f" "offset (count_truncated f) = offset f"
  by (simp_all add: counter_defs)

lemma feed_step_shrinks:
  "feed_step f = Some (g, es, cs) \<Longrightarrow> length (buffer g) < length (buffer f)"
  by (auto simp: feed_step_def Let_def split: list.splits if_splits)

function feed_loop :: "Framer \<Rightarrow> Framer \<times> event list \<times> FrameCandidate list" where
  "feed_loop f =
     (case feed_step f of
        None \<Rightarrow> (f, [], [])
      | Some (g, es, cs) \<Rightarrow>
          (case feed_loop g of (h, es', cs') \<Rightarrow> (h, es @ es', cs @ cs')))"
  by pat_completeness auto
termination
  by (relation "measure (\<lambda>f. length (buffer f))") (auto dest: feed_step_shrinks)

declare feed_loop.simps [simp del]

definition extend :: "Framer \<Rightarrow> bytes \<Rightarrow> Framer" where
  "extend f data = f\<lparr>buffer := buffer f @ data\<rparr>"

definition feed :: "Framer \<Rightarrow> bytes \<Rightarrow> Framer \<times> event list \<times> FrameCandidate list" where
  "feed f data = feed_loop (extend f data)"

definition expire :: "Framer \<Rightarrow> Framer \<times> event list \<times> FrameCandidate list" where
  "expire f =
     (if buffer f = [] then (f, [], [])
      else feed (discard 1 (count_truncated f)) [])"

definition reset :: "Framer \<Rightarrow> Framer" where
  "reset f = f\<lparr>buffer := [], offset := 0\<rparr>"


section \<open>The framer as a stream parser\<close>

abbreviation len_field :: "bytes \<Rightarrow> int" where
  "len_field buf \<equiv> from_bytes (slice 2 4 buf)"

lemma STX_not_control [simp]: "STX \<noteq> control_byte c"
  by (cases c) (simp_all add: STX_def)

lemma control_byte_inj [simp]: "control_byte c = control_byte d \<longleftrightarrow> c = d"
  by (cases c; cases d) simp_all

lemma feed_step_Nil: "buffer f = [] \<Longrightarrow> feed_step f = None"
  by (simp add: feed_step_def)

lemma feed_step_control:
  "buffer f = control_byte c # bs \<Longrightarrow> feed_step f = Some (discard 1 f, [EvControl c], [])"
  by (cases c) (simp_all add: feed_step_def)

lemma feed_step_noise:
  "buffer f = b # bs \<Longrightarrow> \<forall>c. b \<noteq> control_byte c \<Longrightarrow> b \<noteq> STX \<Longrightarrow>
   feed_step f = Some (discard 1 (count_noise f), [], [])"
  by (simp add: feed_step_def del: control_byte.simps)

lemma feed_step_short:
  "buffer f = STX # bs \<Longrightarrow> length (buffer f) < 4 \<Longrightarrow> feed_step f = None"
  by (simp add: feed_step_def del: control_byte.simps)

lemma feed_step_bad_length:
  "buffer f = STX # bs \<Longrightarrow> 4 \<le> length (buffer f) \<Longrightarrow>
   \<not> (1 \<le> len_field (buffer f) \<and> len_field (buffer f) \<le> MAX_PAYLOAD) \<Longrightarrow>
   feed_step f = Some (discard 1 (count_invalid_length f), [], [])"
  by (simp add: feed_step_def del: control_byte.simps)

lemma feed_step_partial:
  "buffer f = STX # bs \<Longrightarrow> 4 \<le> length (buffer f) \<Longrightarrow>
   1 \<le> len_field (buffer f) \<Longrightarrow> len_field (buffer f) \<le> MAX_PAYLOAD \<Longrightarrow>
   int (length (buffer f)) < len_field (buffer f) + 6 \<Longrightarrow> feed_step f = None"
  by (simp add: feed_step_def Let_def zless_nat_eq_int_zless del: control_byte.simps)

lemma feed_step_candidate:
  assumes "buffer f = STX # bs" "4 \<le> length (buffer f)"
    and "1 \<le> len_field (buffer f)" "len_field (buffer f) \<le> MAX_PAYLOAD"
    and "len_field (buffer f) + 6 \<le> int (length (buffer f))"
    and "total_len = nat (len_field (buffer f) + 6)" "c = candidate_at (offset f) total_len (buffer f)"
  shows "feed_step f =
    (if crc_valid c
     then Some (discard total_len (count_frame f), [EvFrame (frame_of_raw (cand_raw c))], [c])
     else Some (discard 1 (count_crc_error f), [], [c]))"
  using assms by (simp add: feed_step_def Let_def not_less nat_le_iff del: control_byte.simps)

lemma feed_step_cases [case_names empty control noise short bad_length partial candidate]:
  obtains "buffer f = []"
  | c bs where "buffer f = control_byte c # bs"
  | b bs where "buffer f = b # bs" "\<forall>c. b \<noteq> control_byte c" "b \<noteq> STX"
  | bs where "buffer f = STX # bs" "length (buffer f) < 4"
  | bs where "buffer f = STX # bs" "4 \<le> length (buffer f)"
      "\<not> (1 \<le> len_field (buffer f) \<and> len_field (buffer f) \<le> MAX_PAYLOAD)"
  | bs where "buffer f = STX # bs" "4 \<le> length (buffer f)" "1 \<le> len_field (buffer f)"
      "len_field (buffer f) \<le> MAX_PAYLOAD" "int (length (buffer f)) < len_field (buffer f) + 6"
  | bs where "buffer f = STX # bs" "4 \<le> length (buffer f)" "1 \<le> len_field (buffer f)"
      "len_field (buffer f) \<le> MAX_PAYLOAD" "len_field (buffer f) + 6 \<le> int (length (buffer f))"
  by (cases "buffer f") (simp, metis not_less)

lemma extend_sel [simp]:
  "buffer (extend f d) = buffer f @ d" "offset (extend f d) = offset f"
  "stats (extend f d) = stats f"
  by (simp_all add: extend_def)

lemma extend_discard:
  "n \<le> length (buffer f) \<Longrightarrow> discard n (extend f d) = extend (discard n f) d"
  by (simp add: discard_def extend_def)

lemma extend_counters [simp]:
  "count_noise (extend f d) = extend (count_noise f) d"
  "count_invalid_length (extend f d) = extend (count_invalid_length f) d"
  "count_crc_error (extend f d) = extend (count_crc_error f) d"
  "count_frame (extend f d) = extend (count_frame f) d"
  by (simp_all add: counter_defs extend_def)

lemma candidate_at_append:
  "n \<le> length buf \<Longrightarrow> candidate_at off n (buf @ d) = candidate_at off n buf"
  by (simp add: candidate_at_def)

lemma feed_step_extend:
  assumes step: "feed_step f = Some (g, es, cs)"
  shows "feed_step (extend f d) = Some (extend g d, es, cs)"
proof (cases f rule: feed_step_cases)
  case (control c bs)
  then show ?thesis
    using step feed_step_control [of "extend f d" c "bs @ d"]
    by (simp add: feed_step_control extend_discard)
next
  case (noise b bs)
  then show ?thesis
    using step feed_step_noise [of "extend f d" b "bs @ d"]
    by (simp add: feed_step_noise extend_discard)
next
  case (bad_length bs)
  have "len_field (buffer f @ d) = len_field (buffer f)" using bad_length(2) by (simp only: slice_append)
  then show ?thesis
    using step bad_length feed_step_bad_length [of "extend f d" "bs @ d"]
    by (simp add: feed_step_bad_length extend_discard)
next
  case (candidate bs)
  let ?n = "nat (len_field (buffer f) + 6)"
  have "len_field (buffer f @ d) = len_field (buffer f)" using candidate(2) by (simp only: slice_append)
  moreover have le: "?n \<le> length (buffer f)" using candidate by simp
  moreover have "candidate_at (offset f) ?n (buffer f @ d) = candidate_at (offset f) ?n (buffer f)"
    using le by (rule candidate_at_append)
  ultimately show ?thesis
    using step candidate feed_step_candidate [OF candidate refl refl]
      feed_step_candidate [of "extend f d" "bs @ d" ?n]
    by (auto simp: extend_discard split: if_splits)
qed (use step in \<open>simp_all add: feed_step_Nil feed_step_short feed_step_partial\<close>)

interpretation framer: stream_parser feed_step feed_loop extend "\<lambda>f. length (buffer f)"
proof unfold_locales
  show "length (buffer g) < length (buffer f)" if "feed_step f = Some (g, es, cs)" for f g es cs
    using that by (rule feed_step_shrinks)
  show "feed_step (extend f d) = Some (extend g d, es, cs)"
    if "feed_step f = Some (g, es, cs)" for f g es cs d
    using that by (rule feed_step_extend)
  show "extend (extend f a) b = extend f (a @ b)" for f a b
    by (simp add: extend_def)
  show "extend f [] = f" for f
    by (simp add: extend_def)
qed (rule feed_loop.simps)

section \<open>Telegrams\<close>

text \<open>The parts of a telegram: start byte, address, length, payload, checksum.\<close>

lemma telegram_parts:
  assumes "raw = STX # a # l @ p @ t" "length l = 2" "length t = 2"
  shows "length raw = length p + 6" "slice 2 4 raw = l" "slice 4 (length raw - 2) raw = p"
    "take (length raw - 2) raw = STX # a # l @ p" "drop (length raw - 2) raw = t" "raw ! 1 = a"
  using assms by (simp_all add: slice_def numeral_2_eq_2 drop_Cons' take_Cons')

lemma telegram_split:
  assumes "raw = STX # bs" "6 \<le> length raw"
  obtains a l p t where "raw = STX # a # l @ p @ t" "length l = 2" "length t = 2"
proof -
  obtain a cs where bs: "bs = a # cs" using assms by (cases bs) auto
  let ?n = "length cs - 4"
  have "cs = take 2 cs @ take ?n (drop 2 cs) @ drop ?n (drop 2 cs)"
    by (simp only: append_take_drop_id)
  moreover have "length (take 2 cs) = 2" "length (drop ?n (drop 2 cs)) = 2"
    using assms bs by auto
  ultimately show ?thesis using that assms(1) bs by metis
qed

definition well_sized :: "bytes \<Rightarrow> int \<Rightarrow> bool" where
  "well_sized payload address \<longleftrightarrow> 0 \<le> address \<and> address \<le> 255 \<and>
     1 \<le> int (length payload) \<and> int (length payload) \<le> MAX_PAYLOAD"

lemma encode_eq_Inr:
  "encode p a = Inr raw \<longleftrightarrow> well_sized p a \<and>
     raw = (let m = STX # word_of_int a # to_bytes2 (int (length p)) @ p in m @ to_bytes2 (crc16 m))"
  by (auto simp: encode_def well_sized_def Let_def)

lemma encode_Inr_iff: "(\<exists>raw. encode p a = Inr raw) \<longleftrightarrow> well_sized p a"
  by (simp add: encode_eq_Inr)

lemma encode_parts:
  assumes "encode p a = Inr raw"
  defines "l \<equiv> to_bytes2 (int (length p))"
  defines "m \<equiv> STX # word_of_int a # l @ p"
  shows "raw = STX # word_of_int a # l @ p @ to_bytes2 (crc16 m)"
  using assms by (simp add: encode_eq_Inr Let_def)

lemma encode_length: "encode p a = Inr raw \<Longrightarrow> length raw = length p + 6"
  by (auto simp: encode_eq_Inr Let_def)

lemma frame_of_encode:
  assumes "encode p a = Inr raw"
  shows "frame_of_raw raw = \<lparr>frame_address = a, frame_payload = p, frame_raw = raw\<rparr>"
proof -
  have "uint (word_of_int a :: byte) = a"
    using assms by (auto simp: encode_eq_Inr well_sized_def uint_word_of_int)
  then show ?thesis
    using telegram_parts [OF encode_parts [OF assms]] by (simp add: frame_of_raw_def)
qed

lemma encode_len_field:
  assumes "encode p a = Inr raw"
  shows "len_field (raw @ rest) = int (length p)"
proof -
  have "int (length p) < 65536" using assms by (auto simp: encode_eq_Inr well_sized_def MAX_PAYLOAD_def)
  then have "len_field raw = int (length p)"
    using telegram_parts(2) [OF encode_parts [OF assms]] by simp
  moreover have "4 \<le> length raw" using encode_length [OF assms] by simp
  ultimately show ?thesis by (simp only: slice_append)
qed

lemma encode_candidate_valid:
  assumes "encode p a = Inr raw"
  shows "crc_valid (candidate_at off (length raw) (raw @ rest))"
  using telegram_parts(4,5) [OF encode_parts [OF assms]]
  by (simp add: candidate_at_def Let_def crc_valid_def crc.sealed_recognised)

text \<open>Conversely, bytes that pass the checks of the framer are an encoded telegram.\<close>

lemma checked_bytes_encode:
  assumes "raw = STX # bs" "1 \<le> len_field raw" "len_field raw \<le> MAX_PAYLOAD"
    and "int (length raw) = len_field raw + 6"
    and "from_bytes (drop (length raw - 2) raw) = crc16 (take (length raw - 2) raw)"
  shows "encode (slice 4 (length raw - 2) raw) (uint (raw ! 1)) = Inr raw"
proof -
  have "6 \<le> length raw" using assms by linarith
  then obtain a l p t where sh: "raw = STX # a # l @ p @ t" "length l = 2" "length t = 2"
    using telegram_split assms(1) by blast
  note parts = telegram_parts [OF sh]
  have "from_bytes l = int (length p)" using assms(4) parts(1,2) by simp
  then have "l = to_bytes2 (int (length p))" using to_from_bytes2 [OF sh(2)] by simp
  moreover have "t = to_bytes2 (crc16 (STX # a # l @ p))"
    using assms(5) parts(4,5) crc.trailer_unique [OF sh(3)] by simp
  moreover have "uint a \<le> 255" using uint_byte_bounds(2) [of a] by linarith
  then have "well_sized p (uint a)"
    using assms(2,3,4) parts(1) by (simp add: well_sized_def)
  ultimately show ?thesis
    using parts(3,6) sh(1) by (simp add: encode_eq_Inr Let_def)
qed

lemma feed_step_telegram:
  assumes "encode p a = Inr raw" "buffer f = raw @ rest"
  shows "\<exists>c. crc_valid c \<and> feed_step f =
    Some (discard (length raw) (count_frame f),
          [EvFrame \<lparr>frame_address = a, frame_payload = p, frame_raw = raw\<rparr>], [c])"
proof -
  let ?c = "candidate_at (offset f) (length raw) (buffer f)"
  have len: "len_field (buffer f) = int (length p)" using encode_len_field [OF assms(1)] assms(2) by simp
  have ws: "well_sized p a" using assms(1) by (simp add: encode_eq_Inr)
  have hd: "buffer f = STX # tl (buffer f)"
    using assms(2) encode_parts [OF assms(1)] by simp
  have size: "length raw = length p + 6" using assms(1) by (rule encode_length)
  have ok: "crc_valid ?c" using encode_candidate_valid [OF assms(1)] assms(2) by simp
  have "feed_step f =
    (if crc_valid ?c
     then Some (discard (length raw) (count_frame f), [EvFrame (frame_of_raw (cand_raw ?c))], [?c])
     else Some (discard 1 (count_crc_error f), [], [?c]))"
    using hd
  proof (rule feed_step_candidate)
    show "4 \<le> length (buffer f)" "1 \<le> len_field (buffer f)" "len_field (buffer f) \<le> MAX_PAYLOAD"
      "len_field (buffer f) + 6 \<le> int (length (buffer f))"
      "length raw = nat (len_field (buffer f) + 6)"
      using ws assms(2) size len by (simp_all add: well_sized_def)
  qed (rule refl)
  moreover have "cand_raw ?c = raw" using assms(2) by (simp add: candidate_at_def Let_def)
  ultimately show ?thesis using ok frame_of_encode [OF assms(1)] by auto
qed

section \<open>What a stream means\<close>

text \<open>
  The specification of the framer: \<open>parses rest bs es\<close> holds when the bytes \<open>bs\<close>,
  followed by the unread \<open>rest\<close>, are a sequence of acknowledgement bytes, complete
  telegrams and skipped bytes, and \<open>es\<close> lists the acknowledgements and telegrams in
  their order.  A byte is skipped only when it is neither an acknowledgement nor the
  first byte of a telegram.
\<close>

inductive parses :: "bytes \<Rightarrow> bytes \<Rightarrow> event list \<Rightarrow> bool" where
  parses_nil: "parses rest [] []"
| parses_control: "parses rest bs es \<Longrightarrow> parses rest (control_byte c # bs) (EvControl c # es)"
| parses_telegram: "encode p a = Inr raw \<Longrightarrow> parses rest bs es \<Longrightarrow>
    parses rest (raw @ bs)
      (EvFrame \<lparr>frame_address = a, frame_payload = p, frame_raw = raw\<rparr> # es)"
| parses_skip: "\<forall>c. b \<noteq> control_byte c \<Longrightarrow>
    \<forall>p a raw. encode p a = Inr raw \<longrightarrow> \<not> isprefix raw (b # bs @ rest) \<Longrightarrow>
    parses rest bs es \<Longrightarrow> parses rest (b # bs) es"

lemma crc_valid_candidate:
  "crc_valid (candidate_at off n buf) \<longleftrightarrow>
     from_bytes (drop (length (take n buf) - 2) (take n buf)) =
     crc16 (take (length (take n buf) - 2) (take n buf))"
  unfolding candidate_at_def Let_def crc_valid_def
  by (auto simp del: take_take length_take)

text \<open>A byte skipped by a step starts no telegram.\<close>

lemma telegram_prefix_step:
  assumes "encode p a = Inr raw" "isprefix raw (buffer f)"
  shows "\<exists>g c. feed_step f =
    Some (g, [EvFrame \<lparr>frame_address = a, frame_payload = p, frame_raw = raw\<rparr>], [c])"
  using assms feed_step_telegram by (metis isprefix_iff)

lemma feed_step_segment:
  assumes step: "feed_step f = Some (g, es, cs)"
  shows "(\<exists>c. es = [EvControl c] \<and> buffer f = control_byte c # buffer g) \<or>
    (\<exists>p a raw. encode p a = Inr raw \<and> buffer f = raw @ buffer g \<and>
       es = [EvFrame \<lparr>frame_address = a, frame_payload = p, frame_raw = raw\<rparr>]) \<or>
    (\<exists>b. es = [] \<and> (\<forall>c. b \<noteq> control_byte c) \<and> buffer f = b # buffer g)"
proof (cases f rule: feed_step_cases)
  case (control c bs)
  then show ?thesis using step by (auto simp: feed_step_control)
next
  case (noise b bs)
  then show ?thesis using step by (auto simp: feed_step_noise)
next
  case (bad_length bs)
  then show ?thesis using step by (auto simp: feed_step_bad_length)
next
  case (candidate bs)
  let ?n = "nat (len_field (buffer f) + 6)"
  let ?raw = "take ?n (buffer f)"
  have le: "?n \<le> length (buffer f)" using candidate by simp
  have step': "feed_step f = (if crc_valid (candidate_at (offset f) ?n (buffer f))
     then Some (discard ?n (count_frame f), [EvFrame (frame_of_raw ?raw)],
                [candidate_at (offset f) ?n (buffer f)])
     else Some (discard 1 (count_crc_error f), [], [candidate_at (offset f) ?n (buffer f)]))"
    using feed_step_candidate [OF candidate refl refl] by (simp add: candidate_at_def Let_def)
  show ?thesis
  proof (cases "crc_valid (candidate_at (offset f) ?n (buffer f))")
    case True
    have "4 \<le> ?n" using candidate by linarith
    then have "len_field ?raw = len_field (buffer f)" by (simp add: slice_def drop_take)
    moreover have "length ?raw = ?n" using le by simp
    moreover have "?raw = STX # tl ?raw" using candidate(1) \<open>4 \<le> ?n\<close>
      by (metis list.collapse list.sel(1) hd_take take_eq_Nil not_less_eq_eq list.discI
          not_numeral_le_zero zero_less_iff_neq_zero)
    moreover have "from_bytes (drop (length ?raw - 2) ?raw) = crc16 (take (length ?raw - 2) ?raw)"
      using True by (simp only: crc_valid_candidate)
    ultimately have "encode (slice 4 (length ?raw - 2) ?raw) (uint (?raw ! 1)) = Inr ?raw"
      using candidate by (intro checked_bytes_encode) simp_all
    moreover have "buffer f = ?raw @ buffer g" using step step' True by auto
    ultimately show ?thesis using step step' True by (auto simp: frame_of_raw_def)
  next
    case False
    then show ?thesis using step step' candidate(1) by auto
  qed
qed (use step in \<open>simp_all add: feed_step_Nil feed_step_short feed_step_partial\<close>)

lemma feed_loop_parses:
  assumes "feed_loop f = (g, es, cs)"
  shows "\<exists>consumed. buffer f = consumed @ buffer g \<and> parses (buffer g) consumed es"
  using assms
proof (induction rule: framer.run_induct)
  case (stop f)
  then show ?case by (auto intro: parses.intros)
next
  case (step f h es cs g es' cs')
  then obtain bs where bs: "buffer h = bs @ buffer g" "parses (buffer g) bs es'" by blast
  from feed_step_segment [OF step.hyps(1)] show ?case
  proof (elim disjE exE conjE)
    fix b assume skip: "es = []" "\<forall>c. b \<noteq> control_byte c" "buffer f = b # buffer h"
    have "\<not> isprefix raw (b # bs @ buffer g)" if "encode p a = Inr raw" for p a raw
      using telegram_prefix_step [OF that, of f] step.hyps(1) skip bs by auto
    then have "parses (buffer g) (b # bs) es'" using skip bs by (auto intro: parses.intros)
    then show ?thesis using skip bs by auto
  qed (use bs in \<open>auto intro: parses.intros\<close>)
qed

section \<open>Wire traffic comes back as it was sent\<close>

text \<open>What a peer puts on the wire: acknowledgements and telegrams.\<close>

fun wire_of :: "event \<Rightarrow> bytes" where
  "wire_of (EvControl c) = [control_byte c]"
| "wire_of (EvFrame f) = frame_raw f"

definition genuine :: "event \<Rightarrow> bool" where
  "genuine e = (case e of EvControl c \<Rightarrow> True
     | EvFrame f \<Rightarrow> encode (frame_payload f) (frame_address f) = Inr (frame_raw f))"

lemma genuine_simps [simp]:
  "genuine (EvControl c)"
  "genuine (EvFrame f) \<longleftrightarrow> encode (frame_payload f) (frame_address f) = Inr (frame_raw f)"
  by (simp_all add: genuine_def)

lemma parses_genuine: "parses rest bs es \<Longrightarrow> list_all genuine es"
  by (induction rule: parses.induct) simp_all

lemma feed_genuine: "feed f d = (g, es, cs) \<Longrightarrow> list_all genuine es"
  unfolding feed_def by (blast dest: feed_loop_parses parses_genuine)

lemma expire_genuine: "expire f = (g, es, cs) \<Longrightarrow> list_all genuine es"
  by (auto simp: expire_def dest: feed_genuine split: if_splits)

lemma feed_step_genuine:
  assumes "genuine e" "buffer f = wire_of e @ rest"
  shows "\<exists>g cs. feed_step f = Some (g, [e], cs) \<and> buffer g = rest"
proof (cases e)
  case (EvFrame x)
  then have x: "\<lparr>frame_address = frame_address x, frame_payload = frame_payload x,
      frame_raw = frame_raw x\<rparr> = x" by simp
  from feed_step_telegram [of "frame_payload x" "frame_address x" "frame_raw x" f rest]
  obtain c where "feed_step f =
      Some (discard (length (frame_raw x)) (count_frame f), [EvFrame x], [c])"
    using assms EvFrame x by auto
  then show ?thesis using assms EvFrame by auto
qed (use assms in \<open>auto simp: feed_step_control\<close>)

lemma feed_loop_wire:
  assumes "list_all genuine es" "buffer f = concat (map wire_of es)"
  shows "\<exists>g cs. feed_loop f = (g, es, cs) \<and> buffer g = []"
  using assms
proof (induction es arbitrary: f)
  case Nil
  then show ?case by (simp add: framer.run_None feed_step_Nil)
next
  case (Cons e es)
  obtain g cs where g: "feed_step f = Some (g, [e], cs)" "buffer g = concat (map wire_of es)"
    using feed_step_genuine [of e f] Cons.prems by auto
  obtain h cs' where "feed_loop g = (h, es, cs')" "buffer h = []"
    using Cons.IH [of g] Cons.prems g by auto
  then show ?case using framer.run_Some [OF g(1)] by auto
qed

section \<open>Bookkeeping\<close>

definition dropped_bytes :: "FrameStats \<Rightarrow> nat" where
  "dropped_bytes s = stat_noise_bytes s + stat_invalid_lengths s + stat_crc_errors s"

definition event_size :: "event \<Rightarrow> nat" where
  "event_size e = length (wire_of e)"

fun is_frame :: "event \<Rightarrow> bool" where
  "is_frame (EvFrame f) = True"
| "is_frame (EvControl c) = False"

lemma feed_step_account:
  assumes step: "feed_step f = Some (g, es, cs)"
  shows "offset g + length (buffer g) = offset f + length (buffer f) \<and>
    offset g + dropped_bytes (stats f) =
      offset f + dropped_bytes (stats g) + sum_list (map event_size es) \<and>
    stat_frames (stats g) = stat_frames (stats f) + length (filter is_frame es) \<and>
    stat_truncated_frames (stats g) = stat_truncated_frames (stats f) \<and>
    length (filter crc_valid cs) = length (filter is_frame es) \<and>
    map cand_raw (filter crc_valid cs) = map wire_of (filter is_frame es)"
proof (cases f rule: feed_step_cases)
  case (control c bs)
  then show ?thesis using step by (auto simp: feed_step_control event_size_def)
next
  case (noise b bs)
  then show ?thesis using step by (auto simp: feed_step_noise counter_defs dropped_bytes_def)
next
  case (bad_length bs)
  then show ?thesis using step by (auto simp: feed_step_bad_length counter_defs dropped_bytes_def)
next
  case (candidate bs)
  note step' = feed_step_candidate [OF candidate refl refl]
  have le: "nat (len_field (buffer f) + 6) \<le> length (buffer f)" using candidate by simp
  then have "length (cand_raw (candidate_at off (nat (len_field (buffer f) + 6)) (buffer f))) =
      nat (len_field (buffer f) + 6)" for off
    by (simp add: candidate_at_def Let_def)
  moreover have "0 < length (buffer f)" using candidate(1) by simp
  ultimately show ?thesis using step le unfolding step'
    by (auto simp: counter_defs dropped_bytes_def event_size_def frame_of_raw_def
        split: if_splits)
qed (use step in \<open>simp_all add: feed_step_Nil feed_step_short feed_step_partial\<close>)

lemma feed_loop_account:
  assumes "feed_loop f = (g, es, cs)"
  shows "offset g + length (buffer g) = offset f + length (buffer f) \<and>
    offset g + dropped_bytes (stats f) =
      offset f + dropped_bytes (stats g) + sum_list (map event_size es) \<and>
    stat_frames (stats g) = stat_frames (stats f) + length (filter is_frame es) \<and>
    stat_truncated_frames (stats g) = stat_truncated_frames (stats f) \<and>
    map cand_raw (filter crc_valid cs) = map wire_of (filter is_frame es)"
  using assms by (induction rule: framer.run_induct) (auto dest!: feed_step_account)

text \<open>A framer at rest holds nothing, or the beginning of one telegram.\<close>

lemma feed_step_None_buffer:
  assumes "feed_step f = None"
  shows "buffer f = [] \<or> (hd (buffer f) = STX \<and> length (buffer f) < 814)"
proof (cases f rule: feed_step_cases)
  case (candidate bs)
  then show ?thesis using assms feed_step_candidate [OF candidate refl refl] by (auto split: if_splits)
next
  case (partial bs)
  then show ?thesis by (auto simp: MAX_PAYLOAD_def)
qed (use assms in \<open>auto simp: feed_step_control feed_step_noise feed_step_bad_length\<close>)

section \<open>Feeding in chunks\<close>

text \<open>The reader calls \<open>feed\<close> once per chunk the transport delivers.\<close>

fun feed_chunks :: "Framer \<Rightarrow> bytes list \<Rightarrow> Framer \<times> event list \<times> FrameCandidate list" where
  "feed_chunks f [] = (f, [], [])"
| "feed_chunks f (c # chunks) =
     (case feed f c of (g, es, cs) \<Rightarrow>
        (case feed_chunks g chunks of (h, es', cs') \<Rightarrow> (h, es @ es', cs @ cs')))"

lemma feed_split:
  "feed f a = (g, es, cs) \<Longrightarrow> feed g b = (h, es', cs') \<Longrightarrow> feed f (a @ b) = (h, es @ es', cs @ cs')"
  unfolding feed_def by (rule framer.feed_append)

lemma feed_rest: "feed f d = (g, es, cs) \<Longrightarrow> feed g [] = (g, [], [])"
  unfolding feed_def by (simp add: framer.push_nil framer.run_stops framer.run_None)

lemma feed_chunks_concat:
  "feed f a = (g, es, cs) \<Longrightarrow> feed_chunks g chunks = (h, es', cs') \<Longrightarrow>
   feed f (a @ concat chunks) = (h, es @ es', cs @ cs')"
proof (induction chunks arbitrary: f a g h es cs es' cs')
  case Nil
  then show ?case by simp
next
  case (Cons c chunks)
  obtain g1 e1 c1 where f1: "feed g c = (g1, e1, c1)" by (cases "feed g c") auto
  obtain h1 e2 c2 where f2: "feed_chunks g1 chunks = (h1, e2, c2)" by (cases "feed_chunks g1 chunks") auto
  have "feed f (a @ c) = (g1, es @ e1, cs @ c1)" using feed_split [OF Cons.prems(1) f1] .
  from Cons.IH [OF this f2] show ?case using Cons.prems(2) f1 f2 by simp
qed

lemma feed_chunks_wire:
  assumes "buffer f = []" "list_all genuine es"
    and "concat (c # chunks) = concat (map wire_of es)"
  shows "\<exists>g cs. feed_chunks f (c # chunks) = (g, es, cs) \<and> buffer g = []"
proof -
  obtain g es1 cs1 where f1: "feed f c = (g, es1, cs1)" by (cases "feed f c") auto
  obtain h es2 cs2 where f2: "feed_chunks g chunks = (h, es2, cs2)" by (cases "feed_chunks g chunks") auto
  have "feed f (concat (map wire_of es)) = (h, es1 @ es2, cs1 @ cs2)"
    using feed_chunks_concat [OF f1 f2] assms(3) by simp
  moreover obtain k cs where "feed f (concat (map wire_of es)) = (k, es, cs)" "buffer k = []"
    using feed_loop_wire [OF assms(2), of "extend f (concat (map wire_of es))"] assms(1)
    by (auto simp: feed_def)
  ultimately show ?thesis using f1 f2 by simp
qed

lemma encode_inj:
  assumes "encode p a = Inr raw" "encode q b = Inr raw"
  shows "p = q \<and> a = b"
  using frame_of_encode [OF assms(1)] frame_of_encode [OF assms(2)] by simp

lemma encode_sealed:
  assumes "encode p a = Inr raw"
  obtains m t where "raw = m @ t" "length t = 2" "from_bytes t = crc16 m"
proof -
  let ?m = "STX # word_of_int a # to_bytes2 (int (length p)) @ p"
  have "raw = ?m @ to_bytes2 (crc16 ?m)" using encode_parts [OF assms] by simp
  then show ?thesis by (rule that) (simp_all add: crc.sealed_recognised)
qed

lemma changed_telegram_not_encoded:
  assumes "encode p a = Inr (xs @ x # ys)" "x \<noteq> y"
  shows "encode q b \<noteq> Inr (xs @ y # ys)"
proof
  assume "encode q b = Inr (xs @ y # ys)"
  then obtain m' t' where "xs @ y # ys = m' @ t'" "length t' = 2" "from_bytes t' = crc16 m'"
    by (rule encode_sealed)
  moreover obtain m t where "xs @ x # ys = m @ t" "length t = 2" "from_bytes t = crc16 m"
    using assms(1) by (rule encode_sealed)
  ultimately show False using crc.corruption_rejected assms(2) by metis
qed

lemma expire_shrinks:
  assumes "buffer f \<noteq> []" "expire f = (g, es, cs)"
  shows "length (buffer g) < length (buffer f)"
proof -
  have "feed_loop (extend (discard 1 (count_truncated f)) []) = (g, es, cs)"
    using assms by (simp add: expire_def feed_def)
  from feed_loop_parses [OF this] obtain bs where "drop 1 (buffer f) = bs @ buffer g" by auto
  then have "length (buffer f) - 1 = length bs + length (buffer g)"
    by (metis length_append length_drop)
  then show ?thesis using assms(1) by (cases "buffer f") auto
qed

section \<open>Properties\<close>

text \<open>
  C36: however the transport cuts the byte stream into chunks, the framer emits the
  same events, shows the observer the same candidates and ends in the same state,
  from any starting state.
\<close>

theorem framer_fragmentation:
  "feed_chunks f (c # chunks) = feed f (concat (c # chunks))"
proof -
  obtain g es cs where f1: "feed f c = (g, es, cs)" by (cases "feed f c") auto
  obtain h es' cs' where f2: "feed_chunks g chunks = (h, es', cs')" by (cases "feed_chunks g chunks") auto
  show ?thesis using feed_chunks_concat [OF f1 f2] f1 f2 by simp
qed

text \<open>
  C37: a framer with an empty buffer that receives acknowledgements and encoded
  telegrams, in any order and cut into any chunks, emits exactly those events in
  that order and keeps nothing back.
\<close>

theorem framer_roundtrip:
  assumes "buffer f = []" "list_all genuine es"
    and "concat (c # chunks) = concat (map wire_of es)"
  shows "\<exists>g cs. feed_chunks f (c # chunks) = (g, es, cs) \<and> buffer g = []"
  using assms by (rule feed_chunks_wire)

theorem framer_roundtrip_witness:
  "\<exists>g cs. feed_chunks new_framer [[0x06, 0x02], [0x81, 0x03, 0x00, 0xa0, 0x00, 0x10, 0x36], [0x1a]] =
     (g, [EvControl ACK, EvFrame \<lparr>frame_address = 0x81, frame_payload = [0xa0, 0x00, 0x10],
        frame_raw = [0x02, 0x81, 0x03, 0x00, 0xa0, 0x00, 0x10, 0x36, 0x1a]\<rparr>], cs) \<and> buffer g = []"
  by (rule framer_roundtrip)
    (simp_all add: new_framer_def encode_def STX_def MAX_PAYLOAD_def crc16_def crc16_step_def
      to_bytes2_def)


text \<open>
  C38: a telegram with any one byte replaced, start byte, address, length, payload or
  checksum, is not a telegram, and no framer in any state ever emits it.
\<close>

theorem framer_rejects_changed_telegram:
  assumes "encode p a = Inr (xs @ x # ys)" "x \<noteq> y"
  shows "encode q b \<noteq> Inr (xs @ y # ys) \<and>
    (case feed f d of (g, es, cs) \<Rightarrow>
       list_all (\<lambda>ev. case ev of EvFrame fr \<Rightarrow> frame_raw fr \<noteq> xs @ y # ys | _ \<Rightarrow> True) es)"
  using changed_telegram_not_encoded [OF assms] feed_genuine
  by (fastforce simp: list_all_iff split: event.splits prod.splits)

theorem framer_rejects_changed_telegram_witness:
  "encode [0x31] 0 \<noteq> Inr ([0x02, 0x00, 0x01, 0x00] @ 0x32 # [0x15, 0x12]) \<and>
   (case feed new_framer [0x02, 0x00, 0x01, 0x00, 0x32, 0x15, 0x12] of (g, es, cs) \<Rightarrow>
      list_all (\<lambda>ev. case ev of
          EvFrame fr \<Rightarrow> frame_raw fr \<noteq> [0x02, 0x00, 0x01, 0x00] @ 0x32 # [0x15, 0x12] | _ \<Rightarrow> True) es)"
  by (rule framer_rejects_changed_telegram [where p = "[0x31]" and a = 0 and x = "0x31"])
    (simp_all add: encode_def STX_def MAX_PAYLOAD_def crc16_def crc16_step_def to_bytes2_def)

text \<open>
  Every byte is accounted for.  The stream offset and the held bytes add up to
  the bytes received; the offset advances by the bytes of the events plus the bytes
  counted as noise, bad lengths or checksum errors; the frame counter counts the
  telegrams emitted; and the candidates with a valid checksum that the observer sees
  are the emitted telegrams, one by one.
\<close>

theorem framer_accounting:
  "case feed f d of (g, es, cs) \<Rightarrow>
     offset g + length (buffer g) = offset f + length (buffer f) + length d \<and>
     offset g + dropped_bytes (stats f) =
       offset f + dropped_bytes (stats g) + sum_list (map event_size es) \<and>
     stat_frames (stats g) = stat_frames (stats f) + length (filter is_frame es) \<and>
     map cand_raw (filter crc_valid cs) = map wire_of (filter is_frame es)"
proof -
  obtain g es cs where r: "feed_loop (extend f d) = (g, es, cs)" by (cases "feed_loop (extend f d)") auto
  then show ?thesis using feed_loop_account [OF r] by (simp add: feed_def)
qed

text \<open>
  Memory stays bounded.  After any \<open>feed\<close> or \<open>expire\<close> the framer holds nothing
  or the beginning of one telegram of at most 814 bytes, and \<open>expire\<close> on a non-empty
  buffer always makes progress.
\<close>

theorem framer_bounded:
  "(case feed f d of (g, es, cs) \<Rightarrow>
      buffer g = [] \<or> (hd (buffer g) = STX \<and> length (buffer g) < 814)) \<and>
   (case expire f of (g, es, cs) \<Rightarrow>
      if buffer f = [] then g = f
      else length (buffer g) < length (buffer f) \<and> length (buffer g) < 814)"
proof -
  have rest: "buffer g = [] \<or> (hd (buffer g) = STX \<and> length (buffer g) < 814)"
    if "feed f d = (g, es, cs)" for f d g es cs
    using that framer.run_stops [of "extend f d"] feed_step_None_buffer by (simp add: feed_def)
  obtain g es cs where e: "expire f = (g, es, cs)" by (cases "expire f") auto
  have "if buffer f = [] then g = f
      else length (buffer g) < length (buffer f) \<and> length (buffer g) < 814"
    using e rest expire_shrinks [OF _ e] by (force simp: expire_def)
  moreover obtain h es' cs' where "feed f d = (h, es', cs')" by (cases "feed f d") auto
  ultimately show ?thesis using rest [of f d h es' cs'] e by simp
qed

end
