(* ===== verification/Commands.thy ===== *)
theory Commands
  imports Framing
begin

text \<open>
  The requests of \<^verbatim>\<open>protocol/commands.py\<close>: the command table, the geometry check,
  and the telegram of a command.  The theory shows which commands mutate the
  scanner, that those are never repeated, and that every command that can be built
  has a telegram for every scanner address.
\<close>

section \<open>Modes and baud codes\<close>

datatype Mode = INSTALLATION | CONTINUOUS | ON_REQUEST

fun mode_value :: "Mode \<Rightarrow> byte" where
  "mode_value INSTALLATION = 0x00"
| "mode_value CONTINUOUS = 0x24"
| "mode_value ON_REQUEST = 0x25"

fun mode_name :: "Mode \<Rightarrow> string" where
  "mode_name INSTALLATION = ''INSTALLATION''"
| "mode_name CONTINUOUS = ''CONTINUOUS''"
| "mode_name ON_REQUEST = ''ON_REQUEST''"

text \<open>Dictionaries in insertion order, as association lists.\<close>

definition BAUD_CODES :: "(int \<times> byte) list" where
  "BAUD_CODES = [(9600, 0x42), (19200, 0x41), (38400, 0x40), (500000, 0x48)]"

definition STATUS_BAUD_CODES :: "(int \<times> int) list" where
  "STATUS_BAUD_CODES = [(0x8067, 9600), (0x8033, 19200), (0x8019, 38400), (0x8001, 500000)]"

section \<open>Commands\<close>

record Command =
  cmd_name :: string
  cmd_payload :: bytes
  cmd_response_id :: int
  cmd_timeout :: seconds
  cmd_attempts :: nat
  cmd_mutates :: bool

text \<open>The constructor with its default arguments.\<close>

definition plain_command :: "string \<Rightarrow> bytes \<Rightarrow> int \<Rightarrow> Command" where
  "plain_command name payload response_id =
     \<lparr>cmd_name = name, cmd_payload = payload, cmd_response_id = response_id,
      cmd_timeout = 3, cmd_attempts = 3, cmd_mutates = False\<rparr>"

definition telegram :: "Command \<Rightarrow> int \<Rightarrow> bytes result" where
  "telegram cmd address =
     (if \<not> (0 \<le> address \<and> address \<le> 0x7F)
      then Inl (ValueError ''Scanner address must be 0..127'')
      else encode (cmd_payload cmd) address)"

definition status_request :: Command where
  "status_request = plain_command ''status'' [0x31] 0xB1"

definition type_request :: Command where
  "type_request = plain_command ''device type'' [0x3a] 0xBA"

definition configuration_request :: Command where
  "configuration_request = plain_command ''read configuration'' [0x74] 0xF4"

text \<open>
  \<^verbatim>\<open>c.isascii() and (c.isalnum() or c == "_")\<close>.  A Python string may hold
  characters above 255; like the other non-ASCII characters they fail the test.
\<close>

definition password_char :: "char \<Rightarrow> bool" where
  "password_char c \<longleftrightarrow> (let n = (of_char c :: nat) in
     n < 128 \<and> (48 \<le> n \<and> n \<le> 57 \<or> 65 \<le> n \<and> n \<le> 90 \<or> 97 \<le> n \<and> n \<le> 122 \<or> n = 95))"

definition operating_mode :: "Mode \<Rightarrow> string \<Rightarrow> Command result" where
  "operating_mode mode password =
     (if mode = INSTALLATION \<and> (length password \<noteq> 8 \<or> \<not> list_all password_char password)
      then Inl (ValueError ''Installation password must contain 8 ASCII letters/digits/underscores'')
      else let parameter = mode_value mode #
             (if mode = INSTALLATION then encode_ascii password else [])
           in Inr \<lparr>cmd_name = ''mode '' @ mode_name mode, cmd_payload = 0x20 # parameter,
                cmd_response_id = 0xA0, cmd_timeout = 3, cmd_attempts = 1, cmd_mutates = True\<rparr>)"

definition baud_rate :: "int \<Rightarrow> Command result" where
  "baud_rate baud =
     (case map_of BAUD_CODES baud of
        None \<Rightarrow> Inl (ValueError ''Unsupported LMS2xx baud rate'')
      | Some code \<Rightarrow> Inr \<lparr>cmd_name = ''baud rate'', cmd_payload = [0x20, code],
          cmd_response_id = 0xA0, cmd_timeout = 3, cmd_attempts = 1, cmd_mutates = True\<rparr>)"

definition validate_geometry :: "int \<Rightarrow> rat \<Rightarrow> unit result" where
  "validate_geometry angle resolution =
     (if angle \<notin> {100, 180} \<or> resolution \<notin> {1 / 4, 1 / 2, 1}
      then Inl (ValueError ''Expected 100/180 degrees and 0.25/0.5/1 degree resolution'')
      else if resolution = 1 / 4 \<and> angle \<noteq> 100
      then Inl (ValueError ''Standard 0.25 degree scans require a 100 degree field of view'')
      else Inr ())"

definition variant :: "int \<Rightarrow> rat \<Rightarrow> Command result" where
  "variant angle resolution =
     try_bind (validate_geometry angle resolution) (\<lambda>_.
       Inr \<lparr>cmd_name = ''scan variant'',
            cmd_payload = 0x3b # to_bytes2 angle @ to_bytes2 (py_round (resolution * 100)),
            cmd_response_id = 0xBB, cmd_timeout = 3, cmd_attempts = 1, cmd_mutates = True\<rparr>)"

definition write_configuration :: "bytes \<Rightarrow> Command result" where
  "write_configuration data =
     (if length data \<notin> {32, 34}
      then Inl (ValueError ''Only documented 32-byte legacy / 34-byte configuration supported'')
      else Inr \<lparr>cmd_name = ''write configuration'', cmd_payload = 0x77 # data,
        cmd_response_id = 0xF7, cmd_timeout = 8, cmd_attempts = 1, cmd_mutates = True\<rparr>)"

lemmas command_defs = plain_command_def status_request_def type_request_def
  configuration_request_def operating_mode_def baud_rate_def variant_def write_configuration_def

section \<open>The commands that exist\<close>

text \<open>Every command of the program comes from one of these constructors.\<close>

inductive scanner_command :: "Command \<Rightarrow> bool" where
  "scanner_command status_request"
| "scanner_command type_request"
| "scanner_command configuration_request"
| "operating_mode mode password = Inr cmd \<Longrightarrow> scanner_command cmd"
| "baud_rate baud = Inr cmd \<Longrightarrow> scanner_command cmd"
| "variant angle resolution = Inr cmd \<Longrightarrow> scanner_command cmd"
| "write_configuration data = Inr cmd \<Longrightarrow> scanner_command cmd"

lemma geometry_cases:
  "validate_geometry angle resolution = Inr () \<longleftrightarrow>
     (angle, resolution) \<in> {(100, 1 / 4), (100, 1 / 2), (100, 1), (180, 1 / 2), (180, 1)}"
  by (auto simp: validate_geometry_def)

lemma geometryE [consumes 1, case_names quarter half_narrow full_narrow half full]:
  assumes "validate_geometry angle resolution = Inr ()"
  obtains "angle = 100" "resolution = 1 / 4" | "angle = 100" "resolution = 1 / 2"
    | "angle = 100" "resolution = 1" | "angle = 180" "resolution = 1 / 2"
    | "angle = 180" "resolution = 1"
  using assms unfolding geometry_cases by blast

lemma py_round_values [simp]:
  "py_round 25 = 25" "py_round 50 = 50" "py_round 100 = 100" "py_round 180 = 180"
  "py_round 200 = 200" "py_round 360 = 360" "py_round 400 = 400"
  using py_round_of_int [of 25] py_round_of_int [of 50] py_round_of_int [of 100]
    py_round_of_int [of 180] py_round_of_int [of 200] py_round_of_int [of 360]
    py_round_of_int [of 400] by simp_all

text \<open>Shape of a command: identifier byte, reply identifier, retries, size.\<close>

definition read_request :: "Command \<Rightarrow> bool" where
  "read_request cmd \<longleftrightarrow> cmd \<in> {status_request, type_request, configuration_request}"

definition command_shape :: "Command \<Rightarrow> bool" where
  "command_shape cmd \<longleftrightarrow> (case cmd_payload cmd of [] \<Rightarrow> False | b # rest \<Rightarrow>
     length rest \<le> 34 \<and> cmd_response_id cmd = uint b OR 0x80 \<and>
     (if cmd_mutates cmd then cmd_attempts cmd = 1 \<and> b \<in> {0x20, 0x3b, 0x77}
      else cmd_attempts cmd = 3 \<and> read_request cmd))"

lemma read_request_not_mutating: "read_request cmd \<Longrightarrow> \<not> cmd_mutates cmd"
  by (auto simp: read_request_def command_defs)

lemma shape_operating_mode: "operating_mode mode password = Inr cmd \<Longrightarrow> command_shape cmd"
  by (cases mode) (auto simp: operating_mode_def command_shape_def Let_def split: if_splits)

lemma shape_baud_rate: "baud_rate baud = Inr cmd \<Longrightarrow> command_shape cmd"
  by (auto simp: baud_rate_def command_shape_def split: option.splits)

lemma shape_variant: "variant angle resolution = Inr cmd \<Longrightarrow> command_shape cmd"
  by (auto simp: variant_def try_bind_eq_Inr command_shape_def)

lemma shape_write_configuration: "write_configuration data = Inr cmd \<Longrightarrow> command_shape cmd"
  by (auto simp: write_configuration_def command_shape_def split: if_splits)

lemma shape_read_request: "read_request cmd \<Longrightarrow> command_shape cmd"
  unfolding command_shape_def
  by (auto simp: read_request_def status_request_def type_request_def configuration_request_def
      plain_command_def)

lemma scanner_command_shape:
  assumes "scanner_command cmd"
  shows "command_shape cmd"
  using assms
  by (cases rule: scanner_command.cases)
    (auto intro: shape_operating_mode shape_baud_rate shape_variant shape_write_configuration
      shape_read_request simp: read_request_def)

lemma command_shapeE:
  assumes "command_shape cmd"
  obtains b rest where "cmd_payload cmd = b # rest" "length rest \<le> 34"
    "cmd_response_id cmd = uint b OR 0x80"
    "cmd_mutates cmd \<longrightarrow> cmd_attempts cmd = 1 \<and> b \<in> {0x20, 0x3b, 0x77}"
    "\<not> cmd_mutates cmd \<longrightarrow> cmd_attempts cmd = 3 \<and> read_request cmd"
  using assms by (auto simp: command_shape_def split: list.splits if_splits)

lemma telegram_Inr:
  assumes "1 \<le> length (cmd_payload cmd)" "length (cmd_payload cmd) \<le> 35"
    and "0 \<le> address" "address \<le> 127"
  shows "\<exists>raw. telegram cmd address = Inr raw"
  using assms encode_Inr_iff [of "cmd_payload cmd" address]
  by (simp add: telegram_def well_sized_def MAX_PAYLOAD_def)

section \<open>Properties\<close>

text \<open>
  Every command the program can build has a telegram for every scanner address
  0..127, expects the reply identifier \<open>command OR 80h\<close>, and is either one of the
  three read-only requests, tried at most three times, or a mutating command, sent
  once and never repeated.
\<close>

theorem commands_well_formed:
  assumes "scanner_command cmd" "0 \<le> address" "address \<le> 127"
  shows "\<exists>raw b rest. telegram cmd address = Inr raw \<and> cmd_payload cmd = b # rest \<and>
    frame_of_raw raw = \<lparr>frame_address = address, frame_payload = b # rest, frame_raw = raw\<rparr> \<and>
    cmd_response_id cmd = uint b OR 0x80 \<and>
    (if cmd \<in> {status_request, type_request, configuration_request}
     then \<not> cmd_mutates cmd \<and> cmd_attempts cmd = 3
     else cmd_mutates cmd \<and> cmd_attempts cmd = 1 \<and> b \<in> {0x20, 0x3b, 0x77})"
proof -
  obtain b rest where sh: "cmd_payload cmd = b # rest" "length rest \<le> 34"
    "cmd_response_id cmd = uint b OR 0x80"
    "cmd_mutates cmd \<longrightarrow> cmd_attempts cmd = 1 \<and> b \<in> {0x20, 0x3b, 0x77}"
    "\<not> cmd_mutates cmd \<longrightarrow> cmd_attempts cmd = 3 \<and> read_request cmd"
    using scanner_command_shape [OF assms(1)] by (rule command_shapeE)
  obtain raw where raw: "telegram cmd address = Inr raw"
    using telegram_Inr [of cmd address] sh(1,2) assms by auto
  then have "encode (b # rest) address = Inr raw"
    using assms sh(1) by (simp add: telegram_def)
  then have "frame_of_raw raw = \<lparr>frame_address = address, frame_payload = b # rest, frame_raw = raw\<rparr>"
    by (rule frame_of_encode)
  moreover have "if cmd \<in> {status_request, type_request, configuration_request}
     then \<not> cmd_mutates cmd \<and> cmd_attempts cmd = 3
     else cmd_mutates cmd \<and> cmd_attempts cmd = 1 \<and> b \<in> {0x20, 0x3b, 0x77}"
    using sh(4,5) read_request_not_mutating [of cmd] unfolding read_request_def by presburger
  ultimately show ?thesis using raw sh(1,3) by blast
qed

theorem commands_well_formed_witness:
  "\<exists>raw b rest. telegram status_request 0 = Inr raw \<and> cmd_payload status_request = b # rest \<and>
    frame_of_raw raw = \<lparr>frame_address = 0, frame_payload = b # rest, frame_raw = raw\<rparr> \<and>
    cmd_response_id status_request = uint b OR 0x80 \<and>
    (if status_request \<in> {status_request, type_request, configuration_request}
     then \<not> cmd_mutates status_request \<and> cmd_attempts status_request = 3
     else cmd_mutates status_request \<and> cmd_attempts status_request = 1 \<and> b \<in> {0x20, 0x3b, 0x77})"
  by (rule commands_well_formed) (simp_all add: scanner_command.intros)

end
