(* ===== verification/Responses.thy ===== *)
theory Responses
  imports Commands
begin

text \<open>
  Strict decoding of replies, \<^verbatim>\<open>protocol/responses.py\<close>: the status byte, the
  reply envelope, the confirmation of a mutating command, the configuration block
  and the B1 status block.  The theory shows when each decoder accepts, that it
  raises nothing but the documented exceptions, and that updating a configuration
  changes exactly the three documented bytes.
\<close>

section \<open>The status byte\<close>

record StatusByte =
  status_raw :: int
  severity :: string
  status_source :: string
  restart_high :: bool
  implausible :: bool
  pollution :: bool

definition SEVERITIES :: "(int \<times> string) list" where
  "SEVERITIES = [(0, ''ok''), (1, ''info''), (2, ''warning''), (3, ''error''), (4, ''fatal'')]"

definition SOURCES :: "(int \<times> string) list" where
  "SOURCES = [(2, ''LMS type 6''), (3, ''special device'')]"

definition status_decode :: "int \<Rightarrow> StatusByte result" where
  "status_decode raw =
     (case map_of SEVERITIES (raw AND 7) of
        None \<Rightarrow> Inl (ProtocolError ''Reserved scanner status severity'')
      | Some sev \<Rightarrow>
          Inr \<lparr>status_raw = raw, severity = sev,
               status_source = (case map_of SOURCES (drop_bit 3 raw AND 3) of
                  None \<Rightarrow> ''reserved'' | Some s \<Rightarrow> s),
               restart_high = raw AND 0x20 \<noteq> 0, implausible = raw AND 0x40 \<noteq> 0,
               pollution = raw AND 0x80 \<noteq> 0\<rparr>)"

section \<open>The reply envelope\<close>

record Response =
  resp_command :: int
  resp_data :: bytes
  resp_status :: StatusByte
  resp_frame :: Frame

definition expected_addresses :: "int \<Rightarrow> int set" where
  "expected_addresses address = (if address = 0 then {0x80, 0x81} else {address OR 0x80})"

definition response :: "Frame \<Rightarrow> int \<Rightarrow> Response result" where
  "response frame address =
     (if frame_address frame \<notin> expected_addresses address
      then Inl (ProtocolError ''Unexpected response address'')
      else if length (frame_payload frame) < 2
      then Inl (ProtocolError ''Invalid response payload'')
      else try_bind (frame_command frame) (\<lambda>command.
        if command < 0x80
        then Inl (ProtocolError ''Invalid response payload'')
        else try_bind (status_decode (uint (last (frame_payload frame)))) (\<lambda>status.
          if command = 0x92
          then Inl (DeviceError
                 ''Scanner rejected the command or its operating-state sequence (92h)'')
          else Inr \<lparr>resp_command = command,
                    resp_data = slice 1 (length (frame_payload frame) - 1) (frame_payload frame),
                    resp_status = status, resp_frame = frame\<rparr>)))"

definition require_healthy :: "Response \<Rightarrow> unit result" where
  "require_healthy reply =
     (if severity (resp_status reply) \<in> {''error'', ''fatal''}
      then Inl (DeviceError (''Scanner reports '' @ severity (resp_status reply)))
      else Inr ())"

definition confirm :: "Response \<Rightarrow> bytes \<Rightarrow> unit result" where
  "confirm reply request_payload =
     try_bind (if resp_command reply \<in> {0xA0, 0xBB, 0xF7} then require_healthy reply else Inr ()) (\<lambda>_.
       if resp_command reply = 0xA0
       then (if resp_data reply \<noteq> [0x00]
             then Inl (DeviceError
                    ''Operating mode/baud change rejected (password or device fault)'')
             else Inr ())
       else if resp_command reply = 0xBB
       then (if length (resp_data reply) \<noteq> 5 \<or> hd (resp_data reply) \<noteq> 1 \<or>
                tl (resp_data reply) \<noteq> tl request_payload
             then Inl (DeviceError ''Variant change failed or readback differs'')
             else Inr ())
       else if resp_command reply = 0xF7
       then (if length (resp_data reply) \<noteq> length request_payload
             then Inl (DeviceError ''Configuration was not accepted'')
             else (case resp_data reply of
                 [] \<Rightarrow> Inl IndexError
               | d # ds \<Rightarrow>
                   if d \<noteq> 1 then Inl (DeviceError ''Configuration was not accepted'')
                   else if ds \<noteq> tl request_payload
                   then Inl (DeviceError ''Configuration confirmation differs from requested data'')
                   else Inr ()))
       else Inr ())"

section \<open>The configuration block\<close>

record Configuration =
  conf_raw :: bytes

text \<open>The constructor with its \<^verbatim>\<open>__post_init__\<close> check.\<close>

definition make_configuration :: "bytes \<Rightarrow> Configuration result" where
  "make_configuration raw =
     (if length raw \<notin> {32, 34}
      then Inl (ProtocolError (''Unsupported configuration length '' @ show_nat (length raw)))
      else Inr \<lparr>conf_raw = raw\<rparr>)"

definition conf_mode :: "Configuration \<Rightarrow> int" where
  "conf_mode c = uint (conf_raw c ! 5)"

definition conf_unit :: "Configuration \<Rightarrow> string result" where
  "conf_unit c =
     (if conf_raw c ! 6 \<notin> {0, 1} then Inl (ProtocolError ''Reserved measurement unit'')
      else Inr (if conf_raw c ! 6 \<noteq> 0 then ''mm'' else ''cm''))"

definition conf_indices :: "Configuration \<Rightarrow> bool" where
  "conf_indices c \<longleftrightarrow> conf_raw c ! 4 AND 2 \<noteq> 0"

definition updated :: "Configuration \<Rightarrow> string \<Rightarrow> bool \<Rightarrow> Configuration result" where
  "updated c unit indices =
     (if unit \<notin> {''mm'', ''cm''} then Inl (ValueError ''Expected mm or cm'')
      else let data = conf_raw c;
               data = data[4 := (if indices then data ! 4 OR 2 else data ! 4 AND NOT 2)];
               data = data[5 := 2];
               data = data[6 := (if unit = ''mm'' then 1 else 0)]
           in make_configuration data)"

definition well_formed_configuration :: "Configuration \<Rightarrow> bool" where
  "well_formed_configuration c \<longleftrightarrow> length (conf_raw c) \<in> {32, 34}"

section \<open>The B1 status block\<close>

record DeviceStatus =
  firmware :: string
  operating_mode_code :: int
  device_error :: int
  dev_angle :: int
  dev_resolution :: rat
  dev_baud :: int
  dev_unit :: string
  measuring_mode :: int
  permanent_baud :: bool
  dev_address :: int
  raw_hex :: string

text \<open>
  \<^verbatim>\<open>except (ValueError, KeyError)\<close> turns the failures of the three steps inside
  the \<^verbatim>\<open>try\<close> into one \<^verbatim>\<open>ProtocolError\<close>.
\<close>

definition status_layout_error :: error where
  "status_layout_error =
     ProtocolError ''Unsupported status layout or configuration; preserve raw B1 for review''"

definition decode_status :: "Response \<Rightarrow> DeviceStatus result" where
  "decode_status reply =
     (if resp_command reply \<noteq> 0xB1 then Inl (ProtocolError ''Expected B1 status'')
      else let data = resp_data reply in
      if length data \<notin> {146, 152}
      then Inl (ProtocolError ''Unsupported status length; expected 146 or 152 data bytes'')
      else let shift = (if length data = 152 then 6 else 0);
               angle = unpack_H data (100 + shift);
               resolution = unpack_H data (102 + shift)
      in (case validate_geometry angle (of_int resolution / 100) of
            Inl e \<Rightarrow> Inl status_layout_error
          | Inr _ \<Rightarrow>
      (case decode_ascii (take 7 data) of
            Inl e \<Rightarrow> Inl status_layout_error
          | Inr text \<Rightarrow>
      (case map_of STATUS_BAUD_CODES (unpack_H data (109 + shift)) of
            None \<Rightarrow> Inl status_layout_error
          | Some baud \<Rightarrow>
      if data ! (115 + shift) \<notin> {0, 1}
      then Inl (ProtocolError ''Unsupported status measurement unit'')
      else Inr \<lparr>firmware = strip text, operating_mode_code = uint (data ! 7),
        device_error = uint (data ! 8), dev_angle = angle,
        dev_resolution = of_int resolution / 100, dev_baud = baud,
        dev_unit = (if data ! (115 + shift) \<noteq> 0 then ''mm'' else ''cm''),
        measuring_mode = uint (data ! (95 + shift)),
        permanent_baud = data ! (112 + shift) \<noteq> 0,
        dev_address = uint (data ! (113 + shift)), raw_hex = hex data\<rparr>))))"

section \<open>Lemmas\<close>

lemma and_7_mod: "(n :: int) AND 7 = n mod 8"
  using take_bit_eq_mask [of 3 n] by (simp add: take_bit_eq_mod mask_eq_exp_minus_1)

lemma severity_lookup:
  "map_of SEVERITIES k \<noteq> None \<longleftrightarrow> k \<in> {0, 1, 2, 3, 4}"
  by (simp add: SEVERITIES_def)

lemma status_decode_Inr:
  "(\<exists>st. status_decode n = Inr st) \<longleftrightarrow> n mod 8 \<le> 4"
proof -
  have "0 \<le> n mod 8" by simp
  then have "n mod 8 \<in> {0, 1, 2, 3, 4} \<longleftrightarrow> n mod 8 \<le> 4" by auto
  then show ?thesis
    using severity_lookup [of "n mod 8"]
    by (cases "map_of SEVERITIES (n mod 8)") (auto simp: status_decode_def and_7_mod)
qed

lemma status_decode_raw: "status_decode n = Inr st \<Longrightarrow> status_raw st = n"
  by (auto simp: status_decode_def split: option.splits)

lemma status_decode_error: "status_decode n = Inl e \<Longrightarrow> is_ProtocolError e \<and> \<not> is_DeviceError e"
  by (auto simp: status_decode_def split: option.splits)

lemma payload_split:
  assumes "2 \<le> length p"
  shows "p = hd p # slice 1 (length p - 1) p @ [last p]"
proof -
  obtain b q where p: "p = b # q" "q \<noteq> []"
    using assms by (auto simp: numeral_2_eq_2 Suc_le_length_iff)
  then have "q = butlast q @ [last q]" by simp
  then show ?thesis using p by (simp add: slice_def butlast_conv_take)
qed

lemma response_cases:
  assumes "2 \<le> length (frame_payload f)"
  shows "response f a =
    (if frame_address f \<notin> expected_addresses a
     then Inl (ProtocolError ''Unexpected response address'')
     else if uint (hd (frame_payload f)) < 0x80
     then Inl (ProtocolError ''Invalid response payload'')
     else try_bind (status_decode (uint (last (frame_payload f)))) (\<lambda>status.
       if uint (hd (frame_payload f)) = 0x92
       then Inl (DeviceError ''Scanner rejected the command or its operating-state sequence (92h)'')
       else Inr \<lparr>resp_command = uint (hd (frame_payload f)),
          resp_data = slice 1 (length (frame_payload f) - 1) (frame_payload f),
          resp_status = status, resp_frame = f\<rparr>))"
proof -
  have "frame_payload f \<noteq> []" using assms by auto
  then have "frame_command f = Inr (uint (hd (frame_payload f)))"
    by (simp add: frame_command_def split: list.splits)
  then show ?thesis using assms by (simp add: response_def)
qed

lemma response_error: "response f a = Inl e \<Longrightarrow> is_ProtocolError e"
proof (cases "2 \<le> length (frame_payload f)")
  case True
  then show "response f a = Inl e \<Longrightarrow> is_ProtocolError e"
    by (auto simp: response_cases try_bind_eq_Inl dest: status_decode_error split: if_splits)
qed (auto simp: response_def split: if_splits)

lemma response_InrD:
  assumes "response f a = Inr r"
  shows "2 \<le> length (frame_payload f)" "frame_address f \<in> expected_addresses a"
    "resp_command r = uint (hd (frame_payload f))" "0x80 \<le> resp_command r" "resp_command r \<noteq> 0x92"
    "frame_payload f = word_of_int (resp_command r) # resp_data r @ [word_of_int (status_raw (resp_status r))]"
    "status_decode (uint (last (frame_payload f))) = Inr (resp_status r)" "resp_frame r = f"
proof -
  show len: "2 \<le> length (frame_payload f)"
    using assms by (auto simp: response_def split: if_splits)
  note sh = response_cases [OF len, of a]
  show "frame_address f \<in> expected_addresses a" "resp_command r = uint (hd (frame_payload f))"
    "0x80 \<le> resp_command r" "resp_command r \<noteq> 0x92" "resp_frame r = f"
    and st: "status_decode (uint (last (frame_payload f))) = Inr (resp_status r)"
    using assms sh by (auto simp: try_bind_eq_Inr split: if_splits)
  have "resp_data r = slice 1 (length (frame_payload f) - 1) (frame_payload f)"
    using assms sh by (auto simp: try_bind_eq_Inr split: if_splits)
  moreover have "status_raw (resp_status r) = uint (last (frame_payload f))"
    using st by (rule status_decode_raw)
  ultimately show
    "frame_payload f = word_of_int (resp_command r) # resp_data r @ [word_of_int (status_raw (resp_status r))]"
    using payload_split [OF len] \<open>resp_command r = uint (hd (frame_payload f))\<close> by simp
qed

lemma response_Inr_if:
  assumes "frame_address f \<in> expected_addresses a" "2 \<le> length (frame_payload f)"
    and "0x80 \<le> uint (hd (frame_payload f))" "uint (hd (frame_payload f)) \<noteq> 0x92"
    and "uint (last (frame_payload f)) mod 8 \<le> 4"
  shows "\<exists>r. response f a = Inr r"
proof -
  obtain st where "status_decode (uint (last (frame_payload f))) = Inr st"
    using assms(5) status_decode_Inr by blast
  then show ?thesis using assms(1-4) by (simp add: response_cases)
qed

lemma confirm_error: "confirm reply req = Inl e \<Longrightarrow> is_DeviceError e \<or> e = IndexError"
  by (auto simp: confirm_def try_bind_eq_Inl try_bind_eq_Inr require_healthy_def
      split: if_splits list.splits)

lemma make_configuration_Inr:
  "make_configuration raw = Inr c \<longleftrightarrow> c = \<lparr>conf_raw = raw\<rparr> \<and> length raw \<in> {32, 34}"
  by (auto simp: make_configuration_def)

lemma conf_unit_error: "conf_unit c = Inl e \<Longrightarrow> is_ProtocolError e \<and> \<not> is_DeviceError e"
  by (auto simp: conf_unit_def split: if_splits)

lemma updated_Inr:
  "updated c u i = Inr d \<longleftrightarrow> u \<in> {''mm'', ''cm''} \<and> well_formed_configuration c \<and>
     d = \<lparr>conf_raw = (conf_raw c)[4 := (if i then conf_raw c ! 4 OR 2 else conf_raw c ! 4 AND NOT 2),
       5 := 2, 6 := (if u = ''mm'' then 1 else 0)]\<rparr>"
  by (auto simp: updated_def Let_def make_configuration_Inr well_formed_configuration_def)

lemma word_bit1_set: "((b :: byte) OR 2) AND 2 \<noteq> 0" "(b AND NOT 2) AND 2 = 0"
proof -
  have "bit ((b OR 2) AND 2) 1" by (simp add: bit_simps)
  then show "(b OR 2) AND 2 \<noteq> 0" by (metis bit_0_eq bot_apply bot_bool_def)
  show "(b AND NOT 2) AND 2 = 0" by (simp add: and.assoc)
qed

text \<open>The three fields an update sets, as they read afterwards.\<close>

lemma updated_fields:
  assumes "updated c u i = Inr d"
  shows "well_formed_configuration d" "conf_mode d = 2" "conf_unit d = Inr u" "conf_indices d = i"
    "u \<in> {''mm'', ''cm''}"
proof -
  let ?b = "if i then conf_raw c ! 4 OR 2 else conf_raw c ! 4 AND NOT 2"
  let ?u = "if u = ''mm'' then 1 else 0 :: byte"
  from assms have u: "u \<in> {''mm'', ''cm''}" and c: "well_formed_configuration c"
    and d: "d = \<lparr>conf_raw = (conf_raw c)[4 := ?b, 5 := 2, 6 := ?u]\<rparr>"
    by (simp_all only: updated_Inr)
  have len: "6 < length (conf_raw c)" using c by (auto simp: well_formed_configuration_def)
  have "(?b AND 2 \<noteq> 0) = i"
    using word_bit1_set [of "conf_raw c ! 4"] by (cases i) (simp_all only: if_True if_False simp_thms)
  moreover have "conf_raw d ! 4 = ?b" "conf_raw d ! 5 = 2" "conf_raw d ! 6 = ?u" using len d by simp_all
  ultimately show "well_formed_configuration d" "conf_mode d = 2" "conf_unit d = Inr u"
    "conf_indices d = i" "u \<in> {''mm'', ''cm''}"
    using u c by (auto simp: d well_formed_configuration_def conf_mode_def conf_unit_def conf_indices_def)
qed

lemma decode_status_error: "decode_status reply = Inl e \<Longrightarrow> is_ProtocolError e \<and> \<not> is_DeviceError e"
  by (auto simp: decode_status_def status_layout_error_def Let_def split: if_splits sum.splits option.splits)

lemma decode_status_InrD:
  assumes "decode_status reply = Inr st"
  shows "resp_command reply = 0xB1" "length (resp_data reply) \<in> {146, 152}"
    "validate_geometry (dev_angle st) (dev_resolution st) = Inr ()"
    "dev_baud st \<in> {9600, 19200, 38400, 500000}" "dev_unit st \<in> {''mm'', ''cm''}"
    "raw_hex st = hex (resp_data reply)"
  using assms
  by (auto simp: decode_status_def STATUS_BAUD_CODES_def Let_def
      split: if_splits sum.splits option.splits)

section \<open>Properties\<close>

text \<open>
  A frame is accepted as a reply exactly when its address is an expected one, it
  carries a command of at least 80h other than the rejection 92h and a status byte
  with a defined severity; the reply then holds the command, the data and the status
  the payload is made of, and a frame that is not accepted raises a protocol error,
  never an index error.
\<close>

theorem response_accepts_exactly:
  "(case response f a of
      Inr r \<Rightarrow> frame_address f \<in> expected_addresses a \<and> 2 \<le> length (frame_payload f) \<and>
        0x80 \<le> resp_command r \<and> resp_command r \<noteq> 0x92 \<and>
        status_decode (uint (last (frame_payload f))) = Inr (resp_status r) \<and>
        frame_payload f =
          word_of_int (resp_command r) # resp_data r @ [word_of_int (status_raw (resp_status r))]
    | Inl e \<Rightarrow> is_ProtocolError e \<and>
        \<not> (frame_address f \<in> expected_addresses a \<and> 2 \<le> length (frame_payload f) \<and>
            0x80 \<le> uint (hd (frame_payload f)) \<and> uint (hd (frame_payload f)) \<noteq> 0x92 \<and>
            uint (last (frame_payload f)) mod 8 \<le> 4))"
proof (cases "response f a")
  case (Inl e)
  then have "\<nexists>r. response f a = Inr r" by simp
  then have "\<not> (frame_address f \<in> expected_addresses a \<and> 2 \<le> length (frame_payload f) \<and>
      0x80 \<le> uint (hd (frame_payload f)) \<and> uint (hd (frame_payload f)) \<noteq> 0x92 \<and>
      uint (last (frame_payload f)) mod 8 \<le> 4)"
    using response_Inr_if by blast
  then show ?thesis using response_error [OF Inl]
    unfolding Inl sum.case by (rule conjI [rotated])
next
  case (Inr r)
  show ?thesis unfolding Inr sum.case by (intro conjI response_InrD [OF Inr])
qed

text \<open>
  A mutating command counts as confirmed only on the scanner's own evidence: the
  status is neither error nor fatal, a mode or baud change is answered with 00, and a
  scan variant or configuration write is answered with 01 and an exact echo of the
  data that was sent.
\<close>

theorem confirm_means_echo:
  assumes "resp_command reply \<in> {0xA0, 0xBB, 0xF7}"
  shows "confirm reply req = Inr () \<longleftrightarrow>
    severity (resp_status reply) \<notin> {''error'', ''fatal''} \<and>
    (resp_command reply = 0xA0 \<longrightarrow> resp_data reply = [0x00]) \<and>
    (resp_command reply = 0xBB \<longrightarrow> resp_data reply = 0x01 # tl req \<and> length (tl req) = 4) \<and>
    (resp_command reply = 0xF7 \<longrightarrow> resp_data reply = 0x01 # tl req \<and> req \<noteq> [])"
proof -
  have "confirm reply req = Inr () \<longleftrightarrow> require_healthy reply = Inr () \<and>
    (resp_command reply = 0xA0 \<longrightarrow> resp_data reply = [0x00]) \<and>
    (resp_command reply = 0xBB \<longrightarrow> resp_data reply = 0x01 # tl req \<and> length (tl req) = 4) \<and>
    (resp_command reply = 0xF7 \<longrightarrow> resp_data reply = 0x01 # tl req \<and> req \<noteq> [])"
    using assms
    by (cases "resp_data reply"; cases req) (auto simp: confirm_def try_bind_eq_Inr)
  then show ?thesis by (simp add: require_healthy_def)
qed

theorem confirm_means_echo_witness:
  "confirm \<lparr>resp_command = 0xBB, resp_data = [1, 0xb4, 0, 0x64, 0],
      resp_status = \<lparr>status_raw = 0x10, severity = ''ok'', status_source = ''LMS type 6'',
        restart_high = False, implausible = False, pollution = False\<rparr>,
      resp_frame = \<lparr>frame_address = 0x80, frame_payload = [], frame_raw = []\<rparr>\<rparr>
    [0x3b, 0xb4, 0, 0x64, 0] = Inr ()"
  by (subst confirm_means_echo) simp_all

text \<open>
  Updating a configuration sets the unit, the distance mode and the index flag to
  what was asked, touches nothing but byte 4 (one bit), byte 5 and byte 6, keeps the
  block well formed, and a second update with the same arguments changes nothing.
\<close>

theorem configuration_update_exact:
  assumes "well_formed_configuration c" "u \<in> {''mm'', ''cm''}"
  shows "\<exists>d. updated c u i = Inr d \<and> well_formed_configuration d \<and>
    conf_mode d = 2 \<and> conf_unit d = Inr u \<and> conf_indices d = i \<and>
    length (conf_raw d) = length (conf_raw c) \<and>
    take 4 (conf_raw d) = take 4 (conf_raw c) \<and> drop 7 (conf_raw d) = drop 7 (conf_raw c) \<and>
    conf_raw d ! 4 AND NOT 2 = conf_raw c ! 4 AND NOT 2 \<and>
    updated d u i = Inr d"
proof -
  let ?b = "if i then conf_raw c ! 4 OR 2 else conf_raw c ! 4 AND NOT 2"
  let ?d = "\<lparr>conf_raw = (conf_raw c)[4 := ?b, 5 := 2, 6 := (if u = ''mm'' then 1 else 0)]\<rparr>"
  have len: "6 < length (conf_raw c)" using assms(1) by (auto simp: well_formed_configuration_def)
  have b: "?b AND NOT 2 = conf_raw c ! 4 AND NOT 2"
    "(if i then ?b OR 2 else ?b AND NOT 2) = ?b"
    by (rule bit_word_eqI, auto simp: bit_simps)+
  have up: "updated c u i = Inr ?d" using assms by (simp add: updated_Inr)
  moreover have "updated ?d u i = Inr ?d"
    using assms len b(2) by (simp add: updated_Inr well_formed_configuration_def list_update_swap)
  ultimately show ?thesis
    using updated_fields [OF up] len b(1) by (intro exI [of _ ?d]) simp
qed

theorem configuration_update_exact_witness:
  "\<exists>d. updated \<lparr>conf_raw = replicate 32 0\<rparr> ''mm'' True = Inr d \<and> well_formed_configuration d \<and>
    conf_mode d = 2 \<and> conf_unit d = Inr ''mm'' \<and> conf_indices d = True \<and>
    length (conf_raw d) = length (conf_raw \<lparr>conf_raw = replicate 32 0\<rparr>) \<and>
    take 4 (conf_raw d) = take 4 (conf_raw \<lparr>conf_raw = replicate 32 0\<rparr>) \<and>
    drop 7 (conf_raw d) = drop 7 (conf_raw \<lparr>conf_raw = replicate 32 0\<rparr>) \<and>
    conf_raw d ! 4 AND NOT 2 = conf_raw \<lparr>conf_raw = replicate 32 0\<rparr> ! 4 AND NOT 2 \<and>
    updated d ''mm'' True = Inr d"
  by (rule configuration_update_exact) (simp_all add: well_formed_configuration_def)

text \<open>
  Decoding a status reply either raises a protocol error (and nothing else) or
  yields a status with a supported geometry, one of the four baud rates and a defined
  unit, from a B1 reply of one of the two documented lengths.
\<close>

theorem decode_status_safe:
  "case decode_status reply of
     Inl e \<Rightarrow> is_ProtocolError e \<and> \<not> is_DeviceError e
   | Inr st \<Rightarrow> resp_command reply = 0xB1 \<and> length (resp_data reply) \<in> {146, 152} \<and>
       (dev_angle st, dev_resolution st) \<in>
         {(100, 1 / 4), (100, 1 / 2), (100, 1), (180, 1 / 2), (180, 1)} \<and>
       dev_baud st \<in> {9600, 19200, 38400, 500000} \<and> dev_unit st \<in> {''mm'', ''cm''} \<and>
       raw_hex st = hex (resp_data reply)"
proof (cases "decode_status reply")
  case (Inl e)
  then show ?thesis using decode_status_error [OF Inl] by simp
next
  case (Inr st)
  then show ?thesis using decode_status_InrD [OF Inr] by (simp only: sum.case geometry_cases simp_thms)
qed

end
