(* ===== verification/Measurements.thy ===== *)
theory Measurements
  imports Responses
begin

text \<open>
  Decoding of B0 measurement telegrams, \<^verbatim>\<open>protocol/measurements.py\<close>.  Lengths and
  coordinates are real numbers: the model is of the formulas, without the rounding of
  binary floating point.
\<close>

section \<open>Data\<close>

definition OVERFLOW :: "(int \<times> string) list" where
  "OVERFLOW = [(0x1FFF, ''invalid_no_return''), (0x1FFE, ''dazzling''),
     (0x1FFD, ''operation_overflow''), (0x1FFB, ''low_signal''), (0x1FFA, ''channel_error''),
     (0x1FF7, ''above_maximum'')]"

record Point =
  angle_deg :: rat
  point_raw :: int
  distance_raw :: int
  distance_m :: "real option"
  point_x :: "real option"
  point_y :: "real option"
  point_flags :: "string list"

record Scan =
  timestamp :: string
  sequence :: nat
  scan_status :: StatusByte
  field_of_view :: int
  scan_resolution :: rat
  scan_count :: int
  starting_angle :: rat
  angle_increment :: rat
  scan_unit :: string
  scan_mode :: int
  scan_index :: "int option"
  telegram_index :: "int option"
  points :: "Point list"
  raw_telegram_hex :: string

section \<open>Points\<close>

definition radians :: "real \<Rightarrow> real" where
  "radians d = d * pi / 180"

text \<open>The labels of one measured word: field or reflector bits, then the special values.\<close>

definition field_flags :: "int \<Rightarrow> int \<Rightarrow> string list" where
  "field_flags mode raw =
     (if mode \<in> {0, 2}
      then (if raw AND 0x2000 \<noteq> 0 then [''field_a''] else []) @
           (if raw AND 0x4000 \<noteq> 0 then [''field_b''] else []) @
           (if raw AND 0x8000 \<noteq> 0 then [if mode = 0 then ''dazzling'' else ''field_c''] else [])
      else [''reflector_level_'' @ show_nat (nat (drop_bit 13 raw))])"

definition special_flags :: "int \<Rightarrow> string list" where
  "special_flags distance =
     (case map_of OVERFLOW distance of
        Some label \<Rightarrow> [label]
      | None \<Rightarrow> if distance \<ge> 0x1FF7 then [''reserved_special_value''] else [])"

text \<open>The body of the loop over the measured words.\<close>

definition decode_point :: "int \<Rightarrow> real \<Rightarrow> rat \<Rightarrow> rat \<Rightarrow> nat \<Rightarrow> int \<Rightarrow> Point" where
  "decode_point mode scale start resolution index raw =
     (let distance = raw AND 0x1FFF;
          flags = field_flags mode raw @ special_flags distance;
          valid = distance < 0x1FF7 \<and> ''dazzling'' \<notin> set flags;
          meters = (if valid then Some (of_int distance * scale) else None);
          theta = start + of_nat index * resolution
      in \<lparr>angle_deg = theta, point_raw = raw, distance_raw = distance, distance_m = meters,
          point_x = map_option (\<lambda>m. m * cos (radians (of_rat theta))) meters,
          point_y = map_option (\<lambda>m. m * sin (radians (of_rat theta))) meters,
          point_flags = flags\<rparr>)"

section \<open>Scans\<close>

text \<open>
  \<open>now\<close> is the value of \<^verbatim>\<open>datetime.now(UTC).isoformat()\<close>, used when no timestamp
  (or an empty one) is given.
\<close>

definition decode_scan ::
  "Response \<Rightarrow> int \<Rightarrow> rat \<Rightarrow> Configuration \<Rightarrow> nat \<Rightarrow> string option \<Rightarrow> string \<Rightarrow> Scan result" where
  "decode_scan reply angle resolution config sequence_no stamp now =
     try_bind (validate_geometry angle resolution) (\<lambda>_.
     if resp_command reply \<noteq> 0xB0 \<or> length (resp_data reply) < 2
     then Inl (ProtocolError ''Expected B0 measurement telegram'')
     else if conf_mode config \<notin> {0, 1, 2}
     then Inl (ProtocolError ''Only documented 13-bit distance modes 00/01/02 are supported'')
     else let header = unpack_H (resp_data reply) 0 in
     if header AND 0x3C00 \<noteq> 0
     then Inl (ProtocolError ''Partial/interlaced or reserved scan header is unsupported'')
     else let unit_code = drop_bit 14 header in
     if unit_code \<notin> {0, 1} then Inl (ProtocolError ''Reserved scan unit'')
     else let unit = (if unit_code \<noteq> 0 then ''mm'' else ''cm'') in
     try_bind (conf_unit config) (\<lambda>config_unit.
     if unit \<noteq> config_unit
     then Inl (ProtocolError ''Scan unit disagrees with verified configuration'')
     else let count = header AND 0x03FF in
     if count \<noteq> py_round (of_int angle / resolution) + 1
     then Inl (ProtocolError ''Scan count disagrees with verified geometry'')
     else let size = nat (2 + count * 2) in
     if length (resp_data reply) \<noteq> size + (if conf_indices config then 2 else 0)
     then Inl (ProtocolError
            ''Measurement length or real-time index layout disagrees with configuration'')
     else let start = of_int (180 - angle) / 2;
              scale = (if unit = ''mm'' then 1 / 1000 else 1 / 100)
     in Inr \<lparr>timestamp = (case stamp of Some t \<Rightarrow> if t = [] then now else t | None \<Rightarrow> now),
          sequence = sequence_no, scan_status = resp_status reply, field_of_view = angle,
          scan_resolution = resolution, scan_count = count, starting_angle = start,
          angle_increment = resolution, scan_unit = unit, scan_mode = conf_mode config,
          scan_index = (if conf_indices config then Some (uint (resp_data reply ! size)) else None),
          telegram_index =
            (if conf_indices config then Some (uint (resp_data reply ! (size + 1))) else None),
          points = map (\<lambda>index. decode_point (conf_mode config) scale start resolution index
                          (unpack_H (resp_data reply) (2 + index * 2))) [0..<nat count],
          raw_telegram_hex = hex (frame_raw (resp_frame reply))\<rparr>))"

section \<open>Lemmas\<close>

lemma validate_geometry_error:
  "validate_geometry a r = Inl e \<Longrightarrow> is_ValueError e \<and> \<not> is_ProtocolError e"
  by (auto simp: validate_geometry_def split: if_splits)

lemma decode_scan_raises:
  "raises_only (\<lambda>e. (is_ProtocolError e \<or> is_ValueError e) \<and> \<not> is_DeviceError e)
     (decode_scan reply angle resolution config n stamp now)"
  unfolding decode_scan_def
  by (intro raises_intros raises_onlyI)
    (auto dest: validate_geometry_error conf_unit_error DeviceError_is_ProtocolError)

lemmas decode_scan_error = raises_onlyD [OF decode_scan_raises]

definition unit_scale :: "string \<Rightarrow> real" where
  "unit_scale unit = (if unit = ''mm'' then 1 / 1000 else 1 / 100)"

text \<open>The data of an accepted scan: header, words, and the two index bytes if configured.\<close>

lemma decode_scan_InrD:
  assumes "decode_scan reply angle resolution config n stamp now = Inr scan"
  shows "validate_geometry angle resolution = Inr ()" "resp_command reply = 0xB0"
    "scan_count scan = py_round (of_int angle / resolution) + 1"
    "conf_mode config \<in> {0, 1, 2}" "conf_unit config = Inr (scan_unit scan)"
    "field_of_view scan = angle" "scan_resolution scan = resolution" "sequence scan = n"
    "starting_angle scan = of_int (180 - angle) / 2"
    "length (resp_data reply) =
       nat (2 + scan_count scan * 2) + (if conf_indices config then 2 else 0)"
    "points scan = map (\<lambda>i. decode_point (conf_mode config) (unit_scale (scan_unit scan))
       (starting_angle scan) resolution i (unpack_H (resp_data reply) (2 + i * 2)))
       [0..<nat (scan_count scan)]"
    "telegram_index scan = (if conf_indices config
       then Some (uint (resp_data reply ! (nat (2 + scan_count scan * 2) + 1))) else None)"
    "raw_telegram_hex scan = hex (frame_raw (resp_frame reply))"
    "scan_status scan = resp_status reply"
  using assms
  by (auto simp: decode_scan_def try_bind_eq_Inr Let_def unit_scale_def split: if_splits)

lemma and_0x1FFF: "(x :: int) AND 0x1FFF = x mod 8192"
  using take_bit_eq_mask [of 13 x] by (simp add: take_bit_eq_mod mask_eq_exp_minus_1)

lemma decode_point_sel [simp]:
  "angle_deg (decode_point mode scale start res i raw) = start + of_nat i * res"
  "point_raw (decode_point mode scale start res i raw) = raw"
  "distance_raw (decode_point mode scale start res i raw) = raw mod 8192"
  "point_flags (decode_point mode scale start res i raw) =
     field_flags mode raw @ special_flags (raw mod 8192)"
  by (simp_all add: decode_point_def Let_def and_0x1FFF)

lemma special_flags_dazzling: "''dazzling'' \<in> set (special_flags d) \<longleftrightarrow> d = 0x1FFE"
  by (simp add: special_flags_def OVERFLOW_def)

lemma decode_point_distance:
  "distance_m (decode_point mode scale start res i raw) =
     (if raw mod 8192 < 0x1FF7 \<and> ''dazzling'' \<notin> set (field_flags mode raw)
      then Some (of_int (raw mod 8192) * scale) else None)"
  using special_flags_dazzling [of "raw mod 8192"]
  by (auto simp: decode_point_def Let_def and_0x1FFF)

lemma decode_point_xy:
  "point_x (decode_point mode scale start res i raw) =
     map_option (\<lambda>m. m * cos (radians (of_rat (start + of_nat i * res))))
       (distance_m (decode_point mode scale start res i raw))"
  "point_y (decode_point mode scale start res i raw) =
     map_option (\<lambda>m. m * sin (radians (of_rat (start + of_nat i * res))))
       (distance_m (decode_point mode scale start res i raw))"
  by (simp_all add: decode_point_def Let_def)

lemma sin_radians_nonneg: "0 \<le> d \<Longrightarrow> d \<le> 180 \<Longrightarrow> 0 \<le> sin (radians d)"
  unfolding radians_def by (rule sin_ge_zero) (auto intro: mult_right_mono)

text \<open>The angles of the supported geometries: from the right edge of the field to its left edge.\<close>

lemma geometry_angles:
  assumes "validate_geometry angle res = Inr ()" "int i < py_round (of_int angle / res) + 1"
  shows "of_int (180 - angle) / 2 \<le> of_int (180 - angle) / 2 + of_nat i * res"
    "of_int (180 - angle) / 2 + of_nat i * res \<le> of_int (180 + angle) / (2 :: rat)"
    "0 \<le> of_int (180 - angle) / (2 :: rat)" "of_int (180 + angle) / (2 :: rat) \<le> 180"
    "0 < res"
proof -
  have "of_nat i * res \<le> of_int angle"
    using assms by (cases rule: geometryE) (hypsubst, simp)+
  moreover have "0 < res" "angle \<in> {100, 180}"
    using assms(1) by (auto elim: geometryE)
  ultimately show "of_int (180 - angle) / 2 \<le> of_int (180 - angle) / 2 + of_nat i * res"
    "of_int (180 - angle) / 2 + of_nat i * res \<le> of_int (180 + angle) / (2 :: rat)"
    "0 \<le> of_int (180 - angle) / (2 :: rat)" "of_int (180 + angle) / (2 :: rat) \<le> 180" "0 < res"
    by (auto simp: field_simps)
qed

lemma geometry_angle_range:
  assumes "validate_geometry angle res = Inr ()" "int i < py_round (of_int angle / res) + 1"
  shows "0 \<le> of_int (180 - angle) / 2 + of_nat i * res" "of_int (180 - angle) / 2 + of_nat i * res \<le> 180"
  using geometry_angles [OF assms] by (blast intro: order_trans)+

lemma geometry_count:
  assumes "validate_geometry angle res = Inr ()"
  shows "of_int (py_round (of_int angle / res)) * res = of_int angle" "0 \<le> py_round (of_int angle / res)"
    "py_round (of_int angle / res) \<le> 400"
  using assms by (cases rule: geometryE; hypsubst; simp)+

lemma decode_scan_point:
  assumes "decode_scan reply angle resolution config n stamp now = Inr scan"
    and "i < length (points scan)"
  shows "points scan ! i = decode_point (conf_mode config) (unit_scale (scan_unit scan))
       (starting_angle scan) resolution i (unpack_H (resp_data reply) (2 + i * 2))"
    "int i < scan_count scan" "2 + i * 2 + 1 < length (resp_data reply)"
proof -
  note sc = decode_scan_InrD [OF assms(1)]
  have len: "length (points scan) = nat (scan_count scan)" using sc(11) by simp
  then show i: "int i < scan_count scan" using assms(2) by linarith
  show "points scan ! i = decode_point (conf_mode config) (unit_scale (scan_unit scan))
       (starting_angle scan) resolution i (unpack_H (resp_data reply) (2 + i * 2))"
    using sc(11) len assms(2) by simp
  show "2 + i * 2 + 1 < length (resp_data reply)" using sc(10) i by linarith
qed

section \<open>Properties\<close>


text \<open>A complete one-degree scan of 181 words in millimetres, mode 0, without indices.\<close>

definition sample_reply :: Response where
  "sample_reply = \<lparr>resp_command = 0xB0, resp_data = [181, 0x40] @ replicate 362 0x10,
     resp_status = \<lparr>status_raw = 0x10, severity = ''ok'', status_source = ''LMS type 6'',
        restart_high = False, implausible = False, pollution = False\<rparr>,
     resp_frame = \<lparr>frame_address = 0x81, frame_payload = [], frame_raw = []\<rparr>\<rparr>"

definition sample_configuration :: Configuration where
  "sample_configuration = \<lparr>conf_raw = [0, 0, 0, 0, 0, 0, 1] @ replicate 25 0\<rparr>"

lemma sample_decodes:
  "\<exists>scan. decode_scan sample_reply 180 1 sample_configuration 1 None [] = Inr scan"
  by (simp add: decode_scan_def sample_reply_def sample_configuration_def validate_geometry_def
      conf_mode_def conf_unit_def conf_indices_def unpack_H_def)


text \<open>
  The coordinates of a scan are trustworthy.  A point has coordinates exactly
  when its 13-bit distance is below the reserved range and it is not marked dazzled;
  they then lie at that distance from the scanner, in front of it, and no further
  away than the largest ordinary reading; otherwise distance and coordinates are all
  absent.
\<close>

theorem scan_points_trustworthy:
  assumes "decode_scan reply angle resolution config n stamp now = Inr scan"
    and "p \<in> set (points scan)"
  shows "(distance_m p \<noteq> None \<longleftrightarrow> distance_raw p < 0x1FF7 \<and> ''dazzling'' \<notin> set (point_flags p)) \<and>
    (case distance_m p of
       None \<Rightarrow> point_x p = None \<and> point_y p = None
     | Some m \<Rightarrow> (\<exists>x y. point_x p = Some x \<and> point_y p = Some y \<and> x\<^sup>2 + y\<^sup>2 = m\<^sup>2 \<and>
         0 \<le> y \<and> m = of_int (distance_raw p) * unit_scale (scan_unit scan) \<and> 0 \<le> m \<and>
         m \<le> 8182 * unit_scale (scan_unit scan)))"
proof -
  obtain i where i: "i < length (points scan)" "p = points scan ! i"
    using assms(2) by (auto simp: in_set_conv_nth)
  note sc = decode_scan_InrD [OF assms(1)] and pt = decode_scan_point [OF assms(1) i(1)]
  let ?raw = "unpack_H (resp_data reply) (2 + i * 2)"
  let ?theta = "starting_angle scan + of_nat i * resolution"
  let ?scale = "unit_scale (scan_unit scan)"
  have p: "p = decode_point (conf_mode config) ?scale (starting_angle scan) resolution i ?raw"
    using i(2) pt(1) by simp
  have theta: "0 \<le> ?theta" "?theta \<le> 180"
    using geometry_angle_range [OF sc(1), of i] pt(2) by (simp_all add: sc(3,9))
  then have "0 \<le> (of_rat ?theta :: real)" "of_rat ?theta \<le> (180 :: real)"
    by (simp only: zero_le_of_rat_iff, metis of_rat_less_eq of_rat_numeral_eq)
  then have front: "0 \<le> sin (radians (of_rat ?theta))" by (rule sin_radians_nonneg)
  have scale: "0 \<le> ?scale" by (simp add: unit_scale_def)
  have dist: "distance_m p \<noteq> None \<longleftrightarrow> distance_raw p < 0x1FF7 \<and> ''dazzling'' \<notin> set (point_flags p)"
    using special_flags_dazzling [of "?raw mod 8192"] by (auto simp: p decode_point_distance)
  show ?thesis
  proof (cases "distance_m p")
    case None
    then show ?thesis using dist by (simp add: p decode_point_xy)
  next
    case (Some m)
    then have m: "m = of_int (distance_raw p) * ?scale" "distance_raw p < 0x1FF7"
      using dist by (auto simp: p decode_point_distance split: if_splits)
    have "0 \<le> distance_raw p" by (simp add: p)
    then have bounds: "0 \<le> m" "m \<le> 8182 * ?scale"
      using m scale by (auto intro!: mult_right_mono)
    have "point_x p = Some (m * cos (radians (of_rat ?theta)))"
      "point_y p = Some (m * sin (radians (of_rat ?theta)))"
      using Some by (simp_all add: p decode_point_xy)
    moreover have "(m * cos (radians (of_rat ?theta)))\<^sup>2 + (m * sin (radians (of_rat ?theta)))\<^sup>2 = m\<^sup>2"
      by (simp add: power_mult_distrib flip: distrib_left)
    ultimately show ?thesis using Some dist m(1) bounds front by simp
  qed
qed

theorem scan_points_trustworthy_witness:
  "\<exists>scan. decode_scan sample_reply 180 1 sample_configuration 1 None [] = Inr scan \<and>
     (\<exists>x y. point_x (last (points scan)) = Some x \<and> point_y (last (points scan)) = Some y \<and>
        x\<^sup>2 + y\<^sup>2 = (4.112)\<^sup>2 \<and> 0 \<le> y)"
proof -
  obtain scan where d: "decode_scan sample_reply 180 1 sample_configuration 1 None [] = Inr scan"
    using sample_decodes by blast
  note sc = decode_scan_InrD [OF d]
  have c: "scan_count scan = 181" "scan_unit scan = ''mm''"
    using sc(3,5) by (simp_all add: sample_configuration_def conf_unit_def)
  then have pts: "length (points scan) = 181" using sc(11) by simp
  then have l: "last (points scan) = points scan ! 180" by (simp add: last_conv_nth flip: length_greater_0_conv)
  have mem: "last (points scan) \<in> set (points scan)" using pts by (simp add: l)
  have raw: "distance_raw (last (points scan)) = 4112" "point_flags (last (points scan)) = []"
    using decode_scan_point(1) [OF d, of 180] pts
    by (simp_all add: l sample_reply_def unpack_H_def nth_append sample_configuration_def conf_mode_def
        field_flags_def special_flags_def OVERFLOW_def)
  then have "distance_m (last (points scan)) \<noteq> None"
    using scan_points_trustworthy [OF d mem] by simp
  then obtain m where m: "distance_m (last (points scan)) = Some m" by blast
  then obtain x y where "point_x (last (points scan)) = Some x" "point_y (last (points scan)) = Some y"
    "x\<^sup>2 + y\<^sup>2 = m\<^sup>2" "0 \<le> y" "m = 4.112"
    using scan_points_trustworthy [OF d mem] raw c(2) by (auto simp: unit_scale_def)
  then show ?thesis using d by blast
qed

end
