(* ===== verification/Config.thy ===== *)
theory Config
  imports Measurements
begin

text \<open>
  Settings and the operator's consent, \<^verbatim>\<open>config.py\<close>.  \<^verbatim>\<open>Literal\<close> types are
  datatypes or value ranges; the \<^verbatim>\<open>Field\<close> bounds that pydantic enforces are
  \<open>field_constraints\<close>, the model validator is \<open>validate_settings\<close>.  The settings
  that may be shown to a client are a record of their own, which the secret fields
  extend.
\<close>

section \<open>Consent\<close>

datatype serial_standard = RS232 | RS422

datatype transport_kind = SerialPort | TCP | Simulator | Replay

record HardwareConsent =
  power_connector_identified :: bool
  data_connector_identified :: bool
  serial_standard_selected :: bool
  adapter_voltage_verified :: bool
  rs422_pins_7_8_bridged :: bool

definition no_consent :: HardwareConsent where
  "no_consent = \<lparr>power_connector_identified = False, data_connector_identified = False,
     serial_standard_selected = False, adapter_voltage_verified = False,
     rs422_pins_7_8_bridged = False\<rparr>"

definition consent_require :: "HardwareConsent \<Rightarrow> serial_standard \<Rightarrow> unit result" where
  "consent_require c standard =
     (if \<not> (power_connector_identified c \<and> data_connector_identified c \<and>
             serial_standard_selected c \<and> adapter_voltage_verified c)
      then Inl (ValueError
             ''Confirm power/data connectors, serial standard, and adapter/cable voltages'')
      else if standard = RS422 \<and> \<not> rs422_pins_7_8_bridged c
      then Inl (ValueError ''Confirm scanner data pins 7 and 8 are bridged for RS-422'')
      else Inr ())"

section \<open>Settings\<close>

record PublicSettings =
  cfg_transport :: transport_kind
  cfg_serial_port :: "string option"
  cfg_host :: string
  cfg_tcp_port :: int
  cfg_control_port :: "int option"
  cfg_baud :: int
  cfg_detect_baud :: bool
  cfg_target_baud :: "int option"
  cfg_serial_standard :: serial_standard
  cfg_high_speed :: bool
  cfg_address :: int
  cfg_angle :: int
  cfg_resolution :: rat
  cfg_unit :: string
  cfg_indices :: bool
  cfg_read_only :: bool
  cfg_consent :: HardwareConsent
  cfg_startup_wait :: seconds
  cfg_ack_timeout :: seconds
  cfg_timeout_scale :: rat
  cfg_stream_timeout :: seconds
  cfg_recording_dir :: string
  cfg_replay_path :: "string option"
  cfg_replay_speed :: rat
  cfg_autostart :: bool
  cfg_web_host :: string
  cfg_web_port :: int

record Settings = PublicSettings +
  cfg_token :: string
  cfg_password :: string

definition default_settings :: Settings where
  "default_settings = \<lparr>cfg_transport = Simulator, cfg_serial_port = None,
     cfg_host = ''host.docker.internal'', cfg_tcp_port = 7000, cfg_control_port = None,
     cfg_baud = 9600, cfg_detect_baud = True, cfg_target_baud = None,
     cfg_serial_standard = RS232, cfg_high_speed = False, cfg_address = 0, cfg_angle = 180,
     cfg_resolution = 1, cfg_unit = ''mm'', cfg_indices = True, cfg_read_only = True,
     cfg_consent = no_consent, cfg_startup_wait = 0, cfg_ack_timeout = 1 / 4,
     cfg_timeout_scale = 1, cfg_stream_timeout = 4, cfg_recording_dir = ''recordings'',
     cfg_replay_path = None, cfg_replay_speed = 1, cfg_autostart = False,
     cfg_web_host = ''127.0.0.1'', cfg_web_port = 8000, cfg_token = '''',
     cfg_password = ''SICK_LMS''\<rparr>"

definition BAUD_LITERALS :: "int set" where
  "BAUD_LITERALS = {9600, 19200, 38400, 500000}"

definition field_constraints :: "Settings \<Rightarrow> bool" where
  "field_constraints s \<longleftrightarrow>
     1 \<le> cfg_tcp_port s \<and> cfg_tcp_port s \<le> 65535 \<and>
     (case cfg_control_port s of None \<Rightarrow> True | Some p \<Rightarrow> 1 \<le> p \<and> p \<le> 65535) \<and>
     cfg_baud s \<in> BAUD_LITERALS \<and>
     (case cfg_target_baud s of None \<Rightarrow> True | Some b \<Rightarrow> b \<in> BAUD_LITERALS) \<and>
     0 \<le> cfg_address s \<and> cfg_address s \<le> 127 \<and>
     cfg_angle s \<in> {100, 180} \<and> cfg_unit s \<in> {''mm'', ''cm''} \<and>
     0 \<le> cfg_startup_wait s \<and> cfg_startup_wait s \<le> 60 \<and>
     6 / 100 \<le> cfg_ack_timeout s \<and> cfg_ack_timeout s \<le> 5 \<and>
     0 < cfg_timeout_scale s \<and> cfg_timeout_scale s \<le> 10 \<and>
     1 \<le> cfg_stream_timeout s \<and> cfg_stream_timeout s \<le> 60 \<and>
     0 < cfg_replay_speed s \<and> cfg_replay_speed s \<le> 1000 \<and>
     1 \<le> cfg_web_port s \<and> cfg_web_port s \<le> 65535"

definition validate_settings :: "Settings \<Rightarrow> unit result" where
  "validate_settings s =
     try_bind (validate_geometry (cfg_angle s) (cfg_resolution s)) (\<lambda>_.
       if cfg_high_speed s \<and> cfg_serial_standard s \<noteq> RS422
       then Inl (ValueError ''High-speed detection requires RS-422'')
       else if (cfg_baud s = 500000 \<or> cfg_target_baud s = Some 500000) \<and>
         \<not> (cfg_high_speed s \<and> cfg_serial_standard s = RS422)
       then Inl (ValueError ''500000 baud requires explicit high_speed and RS-422'')
       else if cfg_transport s = TCP \<and> cfg_control_port s = None \<and>
         cfg_target_baud s \<notin> {None, Some (cfg_baud s)}
       then Inl (ValueError ''Baud switching needs the host bridge control port'')
       else Inr ())"

definition make_settings :: "Settings \<Rightarrow> Settings result" where
  "make_settings s =
     (if \<not> field_constraints s then Inl (ValueError ''field constraint'')
      else try_bind (validate_settings s) (\<lambda>_. Inr s))"

definition physical :: "Settings \<Rightarrow> bool" where
  "physical s \<longleftrightarrow> cfg_transport s \<in> {SerialPort, TCP}"

definition require_write :: "Settings \<Rightarrow> unit result" where
  "require_write s =
     (if physical s
      then (if cfg_read_only s
            then Inl (ValueError
                   ''Read-only mode: explicitly enable writes and confirm hardware checklist'')
            else consent_require (cfg_consent s) (cfg_serial_standard s))
      else Inr ())"

definition public :: "Settings \<Rightarrow> PublicSettings" where
  "public s = PublicSettings.truncate s"

section \<open>Lemmas\<close>

definition valid_settings :: "Settings \<Rightarrow> bool" where
  "valid_settings s \<longleftrightarrow> field_constraints s \<and> validate_settings s = Inr ()"

lemma make_settings_Inr: "make_settings s = Inr t \<longleftrightarrow> t = s \<and> valid_settings s"
  by (auto simp: make_settings_def valid_settings_def try_bind_eq_Inr)

lemma valid_geometry: "valid_settings s \<Longrightarrow> validate_geometry (cfg_angle s) (cfg_resolution s) = Inr ()"
  by (auto simp: valid_settings_def validate_settings_def try_bind_eq_Inr)

lemma valid_address: "valid_settings s \<Longrightarrow> 0 \<le> cfg_address s \<and> cfg_address s \<le> 127"
  by (simp add: valid_settings_def field_constraints_def)

lemma baud_rate_literal: "b \<in> BAUD_LITERALS \<Longrightarrow> \<exists>cmd. baud_rate b = Inr cmd"
  by (auto simp: BAUD_LITERALS_def baud_rate_def BAUD_CODES_def)

section \<open>Properties\<close>

text \<open>
  Writing to a scanner behind a physical transport is allowed exactly when
  read-only mode is off, all four items of the wiring checklist are confirmed, and
  for RS-422 also the bridge of pins 7 and 8; other transports are always writable.
\<close>

theorem write_needs_consent:
  "require_write s = Inr () \<longleftrightarrow>
     (cfg_transport s \<in> {SerialPort, TCP} \<longrightarrow>
        \<not> cfg_read_only s \<and>
        power_connector_identified (cfg_consent s) \<and> data_connector_identified (cfg_consent s) \<and>
        serial_standard_selected (cfg_consent s) \<and> adapter_voltage_verified (cfg_consent s) \<and>
        (cfg_serial_standard s = RS422 \<longrightarrow> rs422_pins_7_8_bridged (cfg_consent s)))"
  by (auto simp: require_write_def physical_def consent_require_def)

theorem write_needs_consent_witness:
  "require_write (default_settings\<lparr>cfg_transport := SerialPort\<rparr>) \<noteq> Inr () \<and>
   require_write default_settings = Inr ()"
  using write_needs_consent [of "default_settings\<lparr>cfg_transport := SerialPort\<rparr>"]
    write_needs_consent [of default_settings]
  by (simp add: default_settings_def)

text \<open>
  Settings that pass validation can be turned into scanner commands without an
  error: the scan variant, the target baud rate, the distance unit and the telegram
  address are all accepted, and 500000 baud occurs only with high speed enabled on an
  RS-422 line.
\<close>

theorem valid_settings_usable:
  assumes "make_settings s = Inr t"
  shows "t = s \<and> (\<exists>cmd. variant (cfg_angle s) (cfg_resolution s) = Inr cmd) \<and>
    (\<forall>b. cfg_target_baud s = Some b \<longrightarrow> (\<exists>cmd. baud_rate b = Inr cmd)) \<and>
    (\<exists>raw. telegram status_request (cfg_address s) = Inr raw) \<and>
    (well_formed_configuration c \<longrightarrow> (\<exists>d. updated c (cfg_unit s) (cfg_indices s) = Inr d)) \<and>
    (cfg_baud s = 500000 \<or> cfg_target_baud s = Some 500000 \<longrightarrow>
       cfg_high_speed s \<and> cfg_serial_standard s = RS422)"
proof -
  have v: "t = s" "valid_settings s" using assms by (simp_all add: make_settings_Inr)
  have "\<exists>cmd. variant (cfg_angle s) (cfg_resolution s) = Inr cmd"
    using valid_geometry [OF v(2)] by (simp add: variant_def)
  moreover have "\<forall>b. cfg_target_baud s = Some b \<longrightarrow> (\<exists>cmd. baud_rate b = Inr cmd)"
    using v(2) baud_rate_literal by (auto simp: valid_settings_def field_constraints_def)
  moreover have "\<exists>raw. telegram status_request (cfg_address s) = Inr raw"
    using telegram_Inr valid_address [OF v(2)] by (simp add: status_request_def plain_command_def)
  moreover have "well_formed_configuration c \<longrightarrow> (\<exists>d. updated c (cfg_unit s) (cfg_indices s) = Inr d)"
    using v(2) by (auto simp: updated_Inr valid_settings_def field_constraints_def)
  moreover have "cfg_baud s = 500000 \<or> cfg_target_baud s = Some 500000 \<longrightarrow>
       cfg_high_speed s \<and> cfg_serial_standard s = RS422"
    using v(2) by (auto simp: valid_settings_def validate_settings_def try_bind_eq_Inr split: if_splits)
  ultimately show ?thesis using v(1) by blast
qed

theorem valid_settings_usable_witness:
  "make_settings default_settings = Inr default_settings \<and>
   (\<exists>cmd. variant (cfg_angle default_settings) (cfg_resolution default_settings) = Inr cmd)"
proof -
  have "make_settings default_settings = Inr default_settings"
    by (simp add: make_settings_def field_constraints_def validate_settings_def
        validate_geometry_def default_settings_def BAUD_LITERALS_def)
  then show ?thesis using valid_settings_usable by blast
qed

text \<open>What the settings show to a client does not depend on the password or the bridge token.\<close>

theorem public_hides_secrets:
  "public (s\<lparr>cfg_password := p, cfg_token := t\<rparr>) = public s"
  by (simp add: public_def PublicSettings.truncate_def)

end
