(* ===== verification/Transports.thy ===== *)
theory Transports
  imports Config
begin

text \<open>
  The byte-stream contract of \<^verbatim>\<open>transports/base.py\<close> and the parts of the serial, TCP,
  simulator and replay transports that the program itself decides: which transport the
  settings select, the attributes \<^verbatim>\<open>baud\<close> and \<^verbatim>\<open>can_set_baud\<close>, and what each operation
  makes of the answer it gets.  The serial port, the sockets and the files are outside
  the program: what an \<^verbatim>\<open>await\<close> on them gives is an \<open>answer\<close>, an argument of the
  definitions.
\<close>

section \<open>What the outside world answers\<close>

text \<open>
  The JSON sidecar of a recording.  An absent key is \<open>None\<close>; the model may also be
  present and \<^verbatim>\<open>null\<close>, which is \<open>Some None\<close>.
\<close>

record Metadata =
  meta_format :: "string option"
  meta_model :: "string option option"
  meta_baud :: "int option"
  meta_device_status :: "DeviceStatus option"
  meta_configuration_hex :: "string option"
  meta_transport :: "transport_kind option"

text \<open>A reply of the bridge on its control connection: refused, or accepted with a baud rate.\<close>

datatype control_reply = Rejected | Accepted int

text \<open>
  The completion of one \<^verbatim>\<open>await\<close>: it finished, the bridge replied, the sidecar was
  read, the timeout of a \<^verbatim>\<open>wait_for\<close> expired, or an exception came out of it (a failure
  of the transport, or the cancellation of the task).
\<close>

datatype answer =
    Completed
  | Replied control_reply
  | Sidecar Metadata
  | Elapsed
  | Raised error

text \<open>The completion of one read: bytes, a timeout, or an exception.\<close>

datatype raw_read = Chunk bytes | TimedOut | ReadRaised error

section \<open>Transports\<close>

record Transport =
  tr_kind :: transport_kind
  tr_where :: string
  tr_baud :: int
  tr_can_set_baud :: bool
  tr_opened :: bool
  tr_metadata :: "Metadata option"
  tr_timestamp :: "string option"

definition is_replay :: "Transport \<Rightarrow> bool" where
  "is_replay tr \<longleftrightarrow> tr_kind tr = Replay"

definition new_transport :: "transport_kind \<Rightarrow> string \<Rightarrow> int \<Rightarrow> bool \<Rightarrow> Transport" where
  "new_transport kind location baud can_set =
     \<lparr>tr_kind = kind, tr_where = location, tr_baud = baud, tr_can_set_baud = can_set,
      tr_opened = False, tr_metadata = None, tr_timestamp = None\<rparr>"

text \<open>\<open>devices\<close> is what \<^verbatim>\<open>ports()\<close> enumerates on the host.\<close>

definition create_transport :: "Settings \<Rightarrow> string list \<Rightarrow> Transport result" where
  "create_transport s devices =
     (case cfg_transport s of
        Simulator \<Rightarrow> Inr (new_transport Simulator [] (cfg_baud s) True)
      | SerialPort \<Rightarrow>
          (case cfg_serial_port s of
             Some port \<Rightarrow> Inr (new_transport SerialPort port (cfg_baud s) True)
           | None \<Rightarrow>
               if length devices \<noteq> 1
               then Inl (ValueError
                      ''Specify --port; automatic selection requires exactly one serial device'')
               else Inr (new_transport SerialPort (hd devices) (cfg_baud s) True))
      | TCP \<Rightarrow> Inr (new_transport TCP (cfg_host s) (cfg_baud s) (cfg_control_port s \<noteq> None))
      | Replay \<Rightarrow>
          (case cfg_replay_path s of
             None \<Rightarrow> Inl (ValueError ''Replay requires --file or LMS_REPLAY_PATH'')
           | Some path \<Rightarrow> Inr (new_transport Replay path 9600 False)))"

text \<open>
  \<^verbatim>\<open>TCPTransport._control\<close>: a refusal is an \<^verbatim>\<open>OSError\<close>, silence a timeout, and without a
  reply the control channel is not connected.
\<close>

fun tcp_control :: "answer \<Rightarrow> int result" where
  "tcp_control (Replied (Accepted baud)) = Inr baud"
| "tcp_control (Replied Rejected) =
     Inl (OSError ''Bridge rejected control request (check token, lease, and baud)'')"
| "tcp_control Elapsed = Inl (TimeoutError [])"
| "tcp_control (Raised e) = Inl e"
| "tcp_control _ = Inl (OSError ''Bridge control channel is not connected'')"

definition plain_answer :: "answer \<Rightarrow> unit result" where
  "plain_answer a =
     (case a of Raised e \<Rightarrow> Inl e | Elapsed \<Rightarrow> Inl (TimeoutError []) | _ \<Rightarrow> Inr ())"

definition replay_open :: "Metadata \<Rightarrow> Transport \<Rightarrow> Transport result" where
  "replay_open meta tr =
     (if meta_format meta \<noteq> Some ''lms200-raw-v1'' then Inl (ValueError ''Unsupported recording format'')
      else case meta_baud meta of
        None \<Rightarrow> Inl KeyError
      | Some baud \<Rightarrow> Inr (tr\<lparr>tr_metadata := Some meta, tr_baud := baud, tr_opened := True\<rparr>))"

definition transport_open :: "Transport \<Rightarrow> answer \<Rightarrow> Transport result" where
  "transport_open tr a =
     (case tr_kind tr of
        TCP \<Rightarrow>
          if tr_can_set_baud tr
          then try_bind (tcp_control a) (\<lambda>baud. Inr (tr\<lparr>tr_baud := baud, tr_opened := True\<rparr>))
          else try_bind (plain_answer a) (\<lambda>_. Inr (tr\<lparr>tr_opened := True\<rparr>))
      | Replay \<Rightarrow>
          (case a of
             Sidecar meta \<Rightarrow> replay_open meta tr
           | Raised e \<Rightarrow> Inl e
           | _ \<Rightarrow> Inl (ValueError
                    ''Raw replay needs a .metadata.json sidecar; see docs/PROTOCOL.md''))
      | _ \<Rightarrow> try_bind (plain_answer a) (\<lambda>_. Inr (tr\<lparr>tr_opened := True\<rparr>)))"

text \<open>
  Before anything is awaited, a transport can refuse: \<open>write_guard\<close> and
  \<open>set_baud_guard\<close> are these checks.
\<close>

definition write_guard :: "Transport \<Rightarrow> unit result" where
  "write_guard tr =
     (case tr_kind tr of
        SerialPort \<Rightarrow> require (tr_opened tr) (EOFError ''Serial device closed'')
      | TCP \<Rightarrow> require (tr_opened tr) (EOFError ''TCP connection closed'')
      | Simulator \<Rightarrow> Inr ()
      | Replay \<Rightarrow> Inl (ValueError ''Replay cannot receive hardware commands''))"

definition set_baud_guard :: "Transport \<Rightarrow> int \<Rightarrow> unit result" where
  "set_baud_guard tr baud =
     (case tr_kind tr of
        SerialPort \<Rightarrow> require (tr_opened tr) (EOFError ''Serial device closed'')
      | TCP \<Rightarrow>
          if tr_can_set_baud tr then Inr ()
          else require (baud = tr_baud tr)
                 (ValueError ''A transparent bridge without control supports fixed baud only'')
      | Simulator \<Rightarrow> Inr ()
      | Replay \<Rightarrow> require (baud = tr_baud tr) (ValueError ''Replay baud rate is recording metadata''))"

definition transport_set_baud :: "Transport \<Rightarrow> int \<Rightarrow> answer \<Rightarrow> Transport result" where
  "transport_set_baud tr baud a =
     (if tr_kind tr = TCP \<and> tr_can_set_baud tr
      then try_bind (tcp_control a) (\<lambda>actual.
             if actual \<noteq> baud then Inl (OSError ''Host adapter baud verification failed'')
             else Inr (tr\<lparr>tr_baud := baud\<rparr>))
      else try_bind (plain_answer a) (\<lambda>_. Inr (tr\<lparr>tr_baud := baud\<rparr>)))"

text \<open>
  An empty read means that the line is idle, and on a socket that the peer is gone.  A
  transport that is not open reports the end of its stream.
\<close>

definition transport_read :: "Transport \<Rightarrow> raw_read \<Rightarrow> bytes result" where
  "transport_read tr r =
     (if \<not> tr_opened tr then Inl (EOFError ''closed'')
      else case r of
        ReadRaised e \<Rightarrow> Inl e
      | TimedOut \<Rightarrow> Inr []
      | Chunk data \<Rightarrow>
          if tr_kind tr = TCP \<and> data = [] then Inl (EOFError ''Bridge disconnected'') else Inr data)"

text \<open>
  Closing: a socket that fails to close is taken as closed, and so is the simulator
  whose producer task was cancelled; a serial port whose \<^verbatim>\<open>close\<close> raises stays open.
\<close>

definition transport_close :: "Transport \<Rightarrow> answer \<Rightarrow> Transport result" where
  "transport_close tr a =
     (if \<not> tr_opened tr then Inr tr
      else case a of
        Raised e \<Rightarrow>
          if (tr_kind tr = TCP \<and> is_OSError e) \<or> (tr_kind tr = Simulator \<and> e = CancelledError) \<or>
             tr_kind tr = Replay
          then Inr (tr\<lparr>tr_opened := False\<rparr>) else Inl e
      | _ \<Rightarrow> Inr (tr\<lparr>tr_opened := False\<rparr>))"

text \<open>
  \<^verbatim>\<open>SerialTransport._write\<close>: one \<^verbatim>\<open>write\<close> call per byte at 500000 baud, otherwise one
  for the telegram.  \<open>counts\<close> are the numbers of bytes the port says it has taken.
\<close>

fun serial_write_calls :: "bytes list \<Rightarrow> nat list \<Rightarrow> bytes list \<times> unit result" where
  "serial_write_calls [] counts = ([], Inr ())"
| "serial_write_calls (chunk # chunks) [] = ([chunk], Inl (TimeoutError ''Write timeout''))"
| "serial_write_calls (chunk # chunks) (n # counts) =
     (if n \<noteq> length chunk then ([chunk], Inl (OSError ''Incomplete serial write''))
      else case serial_write_calls chunks counts of (ws, r) \<Rightarrow> (chunk # ws, r))"

definition serial_write :: "int \<Rightarrow> bytes \<Rightarrow> nat list \<Rightarrow> bytes list \<times> unit result" where
  "serial_write baud data counts =
     serial_write_calls (if baud = 500000 then map (\<lambda>b. [b]) data else [data]) counts"

definition serial_read_size :: "int \<Rightarrow> int \<Rightarrow> int" where
  "serial_read_size limit in_waiting = max 1 (min limit in_waiting)"

section \<open>Lemmas\<close>

lemma plain_answer_Inr: "plain_answer a = Inr u \<longleftrightarrow> a \<noteq> Elapsed \<and> (\<forall>e. a \<noteq> Raised e)"
  by (cases a) (auto simp: plain_answer_def)

lemma transport_set_baud_Inr:
  "transport_set_baud tr baud a = Inr tr' \<Longrightarrow> tr' = tr\<lparr>tr_baud := baud\<rparr>"
  by (auto simp: transport_set_baud_def try_bind_eq_Inr split: if_splits)

lemma transport_open_Inr:
  assumes "transport_open tr a = Inr tr'"
  shows "tr_kind tr' = tr_kind tr \<and> tr_opened tr' \<and> tr_can_set_baud tr' = tr_can_set_baud tr \<and>
    (is_replay tr \<longrightarrow> (\<exists>meta. a = Sidecar meta \<and> replay_open meta tr = Inr tr'))"
  using assms
  by (auto simp: transport_open_def is_replay_def replay_open_def try_bind_eq_Inr
      split: transport_kind.splits if_splits answer.splits option.splits)

lemma serial_write_calls_complete:
  "serial_write_calls chunks counts = (ws, r) \<Longrightarrow>
   isprefix ws chunks \<and> (r = Inr () \<longrightarrow> ws = chunks)"
proof (induction chunks counts arbitrary: ws r rule: serial_write_calls.induct)
  case (3 chunk chunks n counts)
  then show ?case
    by (auto simp: isprefix_iff split: if_splits prod.splits)
qed (auto simp: isprefix_iff)

lemma concat_singletons [simp]: "concat (map (\<lambda>b. [b]) xs) = xs"
  by (induction xs) auto

end
