(* ===== verification/Bounded_Queue.thy ===== *)
theory Bounded_Queue
  imports Prelude
begin

text \<open>
  Bounded buffers that make room by forgetting their oldest element.  The program has
  four of them: the log and the scan times of \<^verbatim>\<open>state_machine.py\<close> (a \<^verbatim>\<open>deque\<close> with
  \<^verbatim>\<open>maxlen\<close>), its event queue (\<^verbatim>\<open>Device._queue\<close>) and the queue of every subscriber
  (\<^verbatim>\<open>Service.publish\<close>).  The locale states what they have in common; each of them is an
  interpretation.
\<close>

locale drop_oldest =
  fixes capacity :: nat
    and push :: "'a list \<Rightarrow> 'a \<Rightarrow> 'a list"
  assumes capacity_pos: "0 < capacity"
    and push_room: "length q < capacity \<Longrightarrow> push q x = q @ [x]"
    and push_full: "length q = capacity \<Longrightarrow> push q x = tl q @ [x]"
begin

lemma push_length: "length q \<le> capacity \<Longrightarrow> length (push q x) = min capacity (Suc (length q))"
  using capacity_pos by (cases "length q = capacity") (auto simp: push_full push_room)

lemma push_bounded: "length q \<le> capacity \<Longrightarrow> length (push q x) \<le> capacity"
  by (simp add: push_length)

lemma push_newest: "length q \<le> capacity \<Longrightarrow> push q x \<noteq> [] \<and> last (push q x) = x"
  by (cases "length q = capacity") (auto simp: push_full push_room)

lemma push_subset: "length q \<le> capacity \<Longrightarrow> set (push q x) \<subseteq> insert x (set q)"
  by (cases "length q = capacity"; cases q) (auto simp: push_full push_room)

lemma push_drop: "length q \<le> capacity \<Longrightarrow> push q x = drop (length q + 1 - capacity) (q @ [x])"
  using capacity_pos by (cases "length q = capacity") (auto simp: push_full push_room drop_Suc)

text \<open>After any number of pushes the buffer holds the newest elements, in order.\<close>

lemma push_all:
  "length q \<le> capacity \<Longrightarrow>
   fold (\<lambda>x b. push b x) xs q = drop (length q + length xs - capacity) (q @ xs)"
proof (induction xs rule: rev_induct)
  case (snoc x xs)
  define ys where "ys = q @ xs"
  have IH: "fold (\<lambda>x b. push b x) xs q = drop (length ys - capacity) ys"
    using snoc by (simp add: ys_def)
  have "push (drop (length ys - capacity) ys) x = drop (length ys + 1 - capacity) (ys @ [x])"
  proof (cases "length ys < capacity")
    case False
    then have "length (drop (length ys - capacity) ys) = capacity" by simp
    then show ?thesis
      using False capacity_pos by (simp add: push_full Suc_diff_le drop_Suc tl_drop)
  qed (simp add: push_room)
  then show ?case using IH by (simp add: ys_def)
qed simp

end

text \<open>\<^verbatim>\<open>deque(maxlen=n).append\<close>\<close>

definition deque_append :: "nat \<Rightarrow> 'a list \<Rightarrow> 'a \<Rightarrow> 'a list" where
  "deque_append n xs x = drop (length xs + 1 - n) (xs @ [x])"

lemma deque_append_drop_oldest: "0 < n \<Longrightarrow> drop_oldest n (deque_append n)"
  by unfold_locales (auto simp: deque_append_def drop_Suc neq_Nil_conv)

end
