(* ===== verification/Device.thy ===== *)
theory Device
  imports Transports Bounded_Queue
begin

text \<open>
  The owner of the scanner, \<^verbatim>\<open>state_machine.py\<close>.  A \<open>Device\<close> has two tasks: the reader,
  one iteration of which is \<open>reader_step\<close>, and the operation in progress (\<^verbatim>\<open>command\<close>,
  \<^verbatim>\<open>connect\<close>, \<^verbatim>\<open>initialize\<close>, \<^verbatim>\<open>close\<close>, \<^verbatim>\<open>reconnect\<close>).  Both run on one event loop and
  change places only where the code awaits.

  The schedule and the outside world are a list of \<open>tick\<close>s, an argument of every
  operation: \<open>Read\<close> is one completed read of the reader task, \<open>Resume\<close> the completion
  of what the operation awaits.  An operation consumes the ticks it needs; when they run
  out it is \<open>Pending\<close>, so the states at all suspension points of a run are the final
  states of the run on the prefixes of its ticks.  Between two ticks the clock stands
  still, and a tick never moves it back.

  The locks of the class serialise operations; one operation at a time is what the
  definitions describe.
\<close>

section \<open>State\<close>

datatype State =
    DISCONNECTED | OPENING | DETECTING | CONNECTED | STATUS | INSTALLATION | CONFIGURING
  | BAUD | VERIFYING | STARTING | STREAMING | RECOVERING | STOPPING | FAULTED

fun state_value :: "State \<Rightarrow> string" where
  "state_value DISCONNECTED = ''disconnected''"
| "state_value OPENING = ''opening transport''"
| "state_value DETECTING = ''detecting baud rate''"
| "state_value CONNECTED = ''connected''"
| "state_value STATUS = ''requesting status''"
| "state_value State.INSTALLATION = ''entering configuration mode''"
| "state_value CONFIGURING = ''configuring scanner''"
| "state_value BAUD = ''changing baud rate''"
| "state_value VERIFYING = ''verifying configuration''"
| "state_value STARTING = ''starting measurement stream''"
| "state_value STREAMING = ''streaming''"
| "state_value RECOVERING = ''recovering''"
| "state_value STOPPING = ''stopping''"
| "state_value FAULTED = ''faulted''"

record Counters =
  timeouts :: nat
  naks :: nat
  malformed :: nat
  unexpected :: nat
  dropped_scans :: nat
  received_scans :: nat

definition zero_counters :: Counters where
  "zero_counters = \<lparr>timeouts = 0, naks = 0, malformed = 0, unexpected = 0, dropped_scans = 0,
     received_scans = 0\<rparr>"

text \<open>What the reader hands to the waiting command.\<close>

datatype queued = QControl Control | QResponse Response | QError error

text \<open>The reader task: not created, running, or returned.\<close>

datatype reader_task = NoReader | Running | Ended

text \<open>
  The attributes of \<^verbatim>\<open>Device\<close>.  Beside them: the clock, \<^verbatim>\<open>last_bytes\<close> of the read loop,
  the telegrams handed to \<^verbatim>\<open>transport.write\<close> and the scans handed to \<^verbatim>\<open>on_scan\<close>.
\<close>

record Device =
  settings :: Settings
  transport :: Transport
  dev_state :: State
  history :: "State list"
  dev_log :: "string list"
  counters :: Counters
  dev_framer :: Framer
  info :: "DeviceStatus option"
  model :: "string option"
  configuration :: "Configuration option"
  latest :: "Scan option"
  last_error :: "string option"
  events :: "queued list"
  reader :: reader_task
  changed :: bool
  is_open :: bool
  scan_times :: "seconds list"
  last_telegram_index :: "int option"
  stream_since :: seconds
  clock :: seconds
  last_bytes :: seconds
  sent :: "bytes list"
  delivered :: "Scan list"

definition new_device :: "Settings \<Rightarrow> Transport \<Rightarrow> seconds \<Rightarrow> Device" where
  "new_device s tr now =
     \<lparr>settings = s, transport = tr, dev_state = DISCONNECTED, history = [DISCONNECTED],
      dev_log = [], counters = zero_counters, dev_framer = new_framer, info = None,
      model = None, configuration = None, latest = None, last_error = None, events = [],
      reader = NoReader, changed = False, is_open = False, scan_times = [],
      last_telegram_index = None, stream_since = 0, clock = now, last_bytes = now,
      sent = [], delivered = []\<rparr>"

definition device_note :: "string \<Rightarrow> Device \<Rightarrow> Device" where
  "device_note m d = d\<lparr>dev_log := deque_append 200 (dev_log d) m\<rparr>"

definition transition :: "State \<Rightarrow> Device \<Rightarrow> Device" where
  "transition s d =
     device_note (state_value s) (d\<lparr>dev_state := s, history := history d @ [s]\<rparr>)"

definition count :: "(Counters \<Rightarrow> Counters) \<Rightarrow> Device \<Rightarrow> Device" where
  "count f d = d\<lparr>counters := f (counters d)\<rparr>"

definition one_timeout :: "Counters \<Rightarrow> Counters" where
  "one_timeout c = c\<lparr>timeouts := timeouts c + 1\<rparr>"

definition one_nak :: "Counters \<Rightarrow> Counters" where
  "one_nak c = c\<lparr>naks := naks c + 1\<rparr>"

definition one_malformed :: "Counters \<Rightarrow> Counters" where
  "one_malformed c = c\<lparr>malformed := malformed c + 1\<rparr>"

definition one_unexpected :: "Counters \<Rightarrow> Counters" where
  "one_unexpected c = c\<lparr>unexpected := unexpected c + 1\<rparr>"

definition queue_event :: "queued \<Rightarrow> Device \<Rightarrow> Device" where
  "queue_event e d =
     (if 64 \<le> length (events d)
      then (count one_unexpected d)\<lparr>events := tl (events d) @ [e]\<rparr>
      else d\<lparr>events := events d @ [e]\<rparr>)"

section \<open>The reader\<close>

text \<open>The scans lost between two telegram indices, which count modulo 256.\<close>

definition index_gap :: "int option \<Rightarrow> int option \<Rightarrow> nat" where
  "index_gap current previous =
     (case (current, previous) of
        (Some c, Some p) \<Rightarrow> nat ((c - p - 1) mod 256)
      | _ \<Rightarrow> 0)"

definition accept_scan :: "Scan \<Rightarrow> Device \<Rightarrow> Device" where
  "accept_scan scan d =
     d\<lparr>counters := (counters d)
         \<lparr>dropped_scans := dropped_scans (counters d) +
            index_gap (telegram_index scan) (last_telegram_index d),
          received_scans := received_scans (counters d) + 1\<rparr>,
       last_telegram_index := telegram_index scan,
       scan_times := deque_append 150 (scan_times d) (clock d),
       latest := Some scan,
       delivered := delivered d @ [scan]\<rparr>"

text \<open>\<open>utc\<close> is \<^verbatim>\<open>datetime.now(UTC).isoformat()\<close> at the time of the call.\<close>

definition handle_scan :: "string \<Rightarrow> Response \<Rightarrow> Device \<Rightarrow> Device" where
  "handle_scan utc reply d =
     (case (configuration d, info d) of
        (Some conf, Some status) \<Rightarrow>
          (let stamp = (if is_replay (transport d) then tr_timestamp (transport d) else None) in
           case try_bind (decode_scan reply (dev_angle status) (dev_resolution status) conf
                            (received_scans (counters d) + 1) stamp utc)
                  (\<lambda>scan. try_bind (require_healthy reply) (\<lambda>_. Inr scan)) of
             Inr scan \<Rightarrow> accept_scan scan d
           | Inl e \<Rightarrow>
               if is_DeviceError e
               then transition FAULTED ((queue_event (QError e) d)\<lparr>last_error := Some (message e)\<rparr>)
               else count one_malformed d)
      | _ \<Rightarrow> d)"

definition handle_reset :: "Device \<Rightarrow> Device" where
  "handle_reset d =
     (let d' = device_note ''Scanner startup/reset telegram received'' d in
      if dev_state d' = STREAMING
      then transition FAULTED
             (d'\<lparr>last_error := Some ''Scanner reset during streaming; reconnect required''\<rparr>)
      else d')"

fun handle :: "string \<Rightarrow> event \<Rightarrow> Device \<Rightarrow> Device" where
  "handle utc (EvControl c) d = queue_event (QControl c) d"
| "handle utc (EvFrame frame) d =
     (case response frame (cfg_address (settings d)) of
        Inl e \<Rightarrow> if is_DeviceError e then queue_event (QError e) d else count one_malformed d
      | Inr reply \<Rightarrow>
          if resp_command reply = 0xB0 then handle_scan utc reply d
          else if resp_command reply \<in> {0x90, 0x91} then handle_reset d
          else queue_event (QResponse reply) d)"

definition handle_all :: "string \<Rightarrow> event list \<Rightarrow> Device \<Rightarrow> Device" where
  "handle_all utc es d = fold (handle utc) es d"

text \<open>
  One completed read: the clock, \<^verbatim>\<open>datetime.now(UTC)\<close>, the timestamp attribute of a replay
  transport after it, and its result.
\<close>

record read_tick =
  read_at :: seconds
  utc_now :: string
  stamp_now :: "string option"
  got :: raw_read

definition set_clock :: "seconds \<Rightarrow> Device \<Rightarrow> Device" where
  "set_clock t d = d\<lparr>clock := max (clock d) t\<rparr>"

definition read_data :: "string \<Rightarrow> bytes \<Rightarrow> Device \<Rightarrow> Device" where
  "read_data utc data d =
     (if data \<noteq> [] then
        (case feed (dev_framer d) data of (f, es, cs) \<Rightarrow>
           handle_all utc es (d\<lparr>last_bytes := clock d, dev_framer := f\<rparr>))
      else if buffer (dev_framer d) \<noteq> [] \<and> clock d - last_bytes d > 1 / 4 then
        (case expire (dev_framer d) of (f, es, cs) \<Rightarrow>
           (handle_all utc es (d\<lparr>dev_framer := f\<rparr>))\<lparr>last_bytes := clock d\<rparr>)
      else d)"

definition check_stream :: "Device \<Rightarrow> Device" where
  "check_stream d =
     (let last_scan = (if scan_times d = [] then stream_since d else last (scan_times d)) in
      if dev_state d = STREAMING \<and> clock d - last_scan > cfg_stream_timeout (settings d)
      then transition FAULTED
             ((count one_timeout d)\<lparr>last_error := Some ''Measurement timeout; reconnect required''\<rparr>)
      else d)"

definition read_eof :: "Device \<Rightarrow> Device" where
  "read_eof d =
     queue_event (QError (EOFError ''Transport ended''))
       (if is_replay (transport d) then
          (if buffer (dev_framer d) \<noteq> []
           then transition FAULTED
                  (d\<lparr>dev_framer := count_truncated (dev_framer d),
                     last_error := Some ''Replay ended inside a telegram''\<rparr>)
           else transition CONNECTED (device_note ''Replay complete'' d))
        else transition FAULTED (d\<lparr>last_error := Some ''Transport disconnected''\<rparr>))"

definition read_failure :: "Device \<Rightarrow> Device" where
  "read_failure d =
     queue_event (QError (OSError ''Transport read failed; inspect host connection''))
       (transition FAULTED
          (d\<lparr>last_error := Some ''Transport read failed; inspect host connection''\<rparr>))"

fun is_EOFError :: "error \<Rightarrow> bool" where
  "is_EOFError (EOFError m) = True"
| "is_EOFError _ = False"

text \<open>
  One iteration of \<^verbatim>\<open>_read_loop\<close>, or its end: a cancelled task just ends, the end of the
  stream and every other exception are reported.
\<close>

definition begin_read :: "read_tick \<Rightarrow> Device \<Rightarrow> Device" where
  "begin_read r d0 =
     (let d = set_clock (read_at r) d0 in
      if is_replay (transport d)
      then d\<lparr>transport := (transport d)\<lparr>tr_timestamp := stamp_now r\<rparr>\<rparr> else d)"

definition finish_read :: "read_tick \<Rightarrow> Device \<Rightarrow> Device" where
  "finish_read r d =
     (case transport_read (transport d) (got r) of
        Inr data \<Rightarrow> check_stream (read_data (utc_now r) data d)
      | Inl e \<Rightarrow>
          (if is_EOFError e then (read_eof d)\<lparr>reader := Ended\<rparr>
           else if is_Exception e then (read_failure d)\<lparr>reader := Ended\<rparr>
           else d\<lparr>reader := Ended\<rparr>))"

definition reader_step :: "read_tick \<Rightarrow> Device \<Rightarrow> Device" where
  "reader_step r d = (if reader d \<noteq> Running then d else finish_read r (begin_read r d))"

definition start_reader :: "Device \<Rightarrow> Device" where
  "start_reader d = d\<lparr>reader := Running, last_bytes := clock d\<rparr>"

section \<open>Operations on a schedule\<close>

datatype tick = Read read_tick | Resume seconds answer

datatype 'a outcome = Done 'a | Raise error | Pending

type_synonym 'a op = "Device \<Rightarrow> tick list \<Rightarrow> 'a outcome \<times> Device \<times> tick list"

definition ret :: "'a \<Rightarrow> 'a op" where
  "ret x d ts = (Done x, d, ts)"

definition raise :: "error \<Rightarrow> 'a op" where
  "raise e d ts = (Raise e, d, ts)"

definition bind :: "'a op \<Rightarrow> ('a \<Rightarrow> 'b op) \<Rightarrow> 'b op" where
  "bind m f d ts =
     (case m d ts of
        (Done x, d', ts') \<Rightarrow> f x d' ts'
      | (Raise e, d', ts') \<Rightarrow> (Raise e, d', ts')
      | (Pending, d', ts') \<Rightarrow> (Pending, d', ts'))"

definition catch :: "'a op \<Rightarrow> (error \<Rightarrow> bool) \<Rightarrow> (error \<Rightarrow> 'a op) \<Rightarrow> 'a op" where
  "catch m P h d ts =
     (case m d ts of
        (Raise e, d', ts') \<Rightarrow> if P e then h e d' ts' else (Raise e, d', ts')
      | r \<Rightarrow> r)"

definition modify :: "(Device \<Rightarrow> Device) \<Rightarrow> unit op" where
  "modify f d ts = (Done (), f d, ts)"

definition read_state :: "(Device \<Rightarrow> 'a) \<Rightarrow> 'a op" where
  "read_state f d ts = (Done (f d), d, ts)"

definition from_result :: "'a result \<Rightarrow> 'a op" where
  "from_result r = (case r of Inl e \<Rightarrow> raise e | Inr x \<Rightarrow> ret x)"

definition op_when :: "bool \<Rightarrow> unit op \<Rightarrow> unit op" where
  "op_when b m = (if b then m else ret ())"

text \<open>Waiting: the reader runs until what the operation awaits has completed.\<close>

fun suspend :: "answer op" where
  "suspend d [] = (Pending, d, [])"
| "suspend d (Read r # ts) = suspend (reader_step r d) ts"
| "suspend d (Resume t a # ts) = (Done a, set_clock t d, ts)"

text \<open>\<^verbatim>\<open>asyncio.sleep\<close>: it ends, or the task is cancelled.\<close>

definition sleep :: "unit op" where
  "sleep = bind suspend (\<lambda>a. case a of Raised e \<Rightarrow> raise e | _ \<Rightarrow> ret ())"

text \<open>
  \<^verbatim>\<open>await asyncio.wait_for(self._events.get(), remaining)\<close>: an event that is there is
  taken at once; otherwise the operation waits until it is woken with an event in the
  queue, its deadline has passed, or it is cancelled.
\<close>

fun await_event :: "seconds \<Rightarrow> queued op" where
  "await_event deadline d [] = (Pending, d, [])"
| "await_event deadline d (Read r # ts) = await_event deadline (reader_step r d) ts"
| "await_event deadline d (Resume t a # ts) =
     (let d' = set_clock t d in
      case a of
        Raised e \<Rightarrow> (Raise e, d', ts)
      | Elapsed \<Rightarrow>
          if deadline \<le> clock d' then (Raise (TimeoutError []), d', ts)
          else await_event deadline d' ts
      | _ \<Rightarrow>
          (case events d' of
             [] \<Rightarrow> await_event deadline d' ts
           | e # es \<Rightarrow> (Done e, d'\<lparr>events := es\<rparr>, ts)))"

definition get_event :: "seconds \<Rightarrow> queued op" where
  "get_event deadline d ts =
     (case events d of
        e # es \<Rightarrow> (Done e, d\<lparr>events := es\<rparr>, ts)
      | [] \<Rightarrow> await_event deadline d ts)"

section \<open>Commands\<close>

lemma await_event_shrinks:
  "await_event deadline d ts = (out, d', ts') \<Longrightarrow>
   length ts' \<le> length ts \<and> (out \<noteq> Pending \<longrightarrow> length ts' < length ts)"
proof (induction ts arbitrary: d)
  case (Cons tick ts)
  have IH: "await_event deadline e ts = (out, d', ts') \<Longrightarrow>
    length ts' \<le> Suc (length ts) \<and> (out \<noteq> Pending \<longrightarrow> length ts' < Suc (length ts))" for e
    using Cons.IH by fastforce
  show ?case
  proof (cases tick)
    case (Resume t a)
    then show ?thesis
      using Cons.prems
      by (auto simp: Let_def dest: IH split: answer.splits if_splits list.splits)
  qed (use Cons.prems IH in auto)
qed simp

lemma get_event_shrinks:
  "get_event deadline d ts = (Done e, d', ts') \<Longrightarrow>
   length ts' < length ts \<or> (ts' = ts \<and> length (events d') < length (events d))"
  by (auto simp: get_event_def split: list.splits dest: await_event_shrinks)

text \<open>
  The inner loop of \<^verbatim>\<open>command\<close>, from the first look at the deadline to a result or an
  exception.  Its first component is \<^verbatim>\<open>ack\<close> at that time, which the handlers read.
\<close>

function cmd_wait ::
  "Command \<Rightarrow> bool \<Rightarrow> seconds \<Rightarrow> Device \<Rightarrow> tick list \<Rightarrow> bool \<times> Response outcome \<times> Device \<times> tick list"
where
  "cmd_wait cmd ack deadline d ts =
     (if deadline \<le> clock d then (ack, Raise (TimeoutError []), d, ts)
      else case get_event deadline d ts of
        (Pending, d', ts') \<Rightarrow> (ack, Pending, d', ts')
      | (Raise e, d', ts') \<Rightarrow> (ack, Raise e, d', ts')
      | (Done ev, d', ts') \<Rightarrow>
          (case ev of
             QError e \<Rightarrow> (ack, Raise e, d', ts')
           | QControl NAK \<Rightarrow>
               (ack, bind sleep (\<lambda>_. raise (ProtocolError ''NAK'')) (count one_nak d') ts')
           | QControl ACK \<Rightarrow>
               cmd_wait cmd True
                 (if ack then deadline
                  else clock d' + cmd_timeout cmd * cfg_timeout_scale (settings d')) d' ts'
           | QResponse reply \<Rightarrow>
               if resp_command reply = cmd_response_id cmd \<and> ack
               then (case confirm reply (cmd_payload cmd) of
                       Inl e \<Rightarrow> (ack, Raise e, d', ts')
                     | Inr _ \<Rightarrow> (ack, Done reply, d', ts'))
               else cmd_wait cmd ack deadline (count one_unexpected d') ts'))"
  by pat_completeness auto

termination
  by (relation "measures [\<lambda>(_, _, _, _, ts). length ts, \<lambda>(_, _, _, d, _). length (events d)]")
    (auto dest!: get_event_shrinks [OF sym] simp: count_def)

declare cmd_wait.simps [simp del]

text \<open>
  Writing a telegram: the transport may refuse it; otherwise it is on its way when the
  wait begins, whatever comes of it.
\<close>

definition write_telegram :: "bytes \<Rightarrow> unit op" where
  "write_telegram raw =
     bind (read_state (\<lambda>d. write_guard (transport d))) (\<lambda>guard.
     bind (from_result guard) (\<lambda>_.
     bind (modify (\<lambda>d. d\<lparr>sent := sent d @ [raw]\<rparr>)) (\<lambda>_.
     bind suspend (\<lambda>a. from_result (plain_answer a)))))"

definition drain_events :: "Device \<Rightarrow> Device" where
  "drain_events d = d\<lparr>events := []\<rparr>"

text \<open>One attempt: the stale events go, the telegram goes out, the inner loop runs.\<close>

definition send_note :: "Command \<Rightarrow> nat \<Rightarrow> string" where
  "send_note cmd attempt =
     ''Sending '' @ cmd_name cmd @ '' (attempt '' @ show_nat (attempt + 1) @ '')''"

definition send_attempt :: "Command \<Rightarrow> nat \<Rightarrow> unit op" where
  "send_attempt cmd attempt =
     bind (modify (\<lambda>d. device_note (send_note cmd attempt) (drain_events d))) (\<lambda>_.
     bind (read_state (\<lambda>d. telegram cmd (cfg_address (settings d)))) (\<lambda>t.
     bind (from_result t) write_telegram))"

definition no_reply :: "Command \<Rightarrow> bool \<Rightarrow> error" where
  "no_reply cmd ack =
     TimeoutError (''No '' @ (if ack then ''response'' else ''ACK'') @ '' for '' @ cmd_name cmd)"

text \<open>
  The exception handlers of one attempt: \<open>last_try\<close> tells that no attempt is left, \<open>next_try\<close>
  is what follows the handler.
\<close>

definition handle_attempt ::
  "Command \<Rightarrow> bool \<Rightarrow> Response op \<Rightarrow> bool \<times> Response outcome \<times> Device \<times> tick list \<Rightarrow>
   Response outcome \<times> Device \<times> tick list"
where
  "handle_attempt cmd last_try next_try r =
     (case r of (ack, out, d, ts) \<Rightarrow>
        (case out of
           Raise e \<Rightarrow>
             if is_TimeoutError e then
               (if last_try then (Raise (no_reply cmd ack), count one_timeout d, ts)
                else next_try (count one_timeout d) ts)
             else if is_ProtocolError e \<and> \<not> is_DeviceError e \<and> \<not> last_try then next_try d ts
             else (Raise e, d, ts)
         | _ \<Rightarrow> (out, d, ts)))"

fun attempts_loop :: "Command \<Rightarrow> nat \<Rightarrow> nat \<Rightarrow> Response op" where
  "attempts_loop cmd attempt 0 d ts =
     (Raise (ProtocolError ''Command retry budget exhausted''), d, ts)"
| "attempts_loop cmd attempt (Suc left) d ts =
     bind (send_attempt cmd attempt) (\<lambda>_ d1 ts1.
       handle_attempt cmd (left = 0)
         (bind sleep (\<lambda>_. attempts_loop cmd (attempt + 1) left))
         (cmd_wait cmd False (clock d1 + cfg_ack_timeout (settings d1)) d1 ts1)) d ts"

definition command :: "Command \<Rightarrow> Response op" where
  "command cmd =
     bind (if cmd_mutates cmd
           then bind (read_state (\<lambda>d. require_write (settings d))) (\<lambda>r.
                bind (from_result r) (\<lambda>_. modify (\<lambda>d. d\<lparr>changed := True\<rparr>)))
           else ret ()) (\<lambda>_.
     attempts_loop cmd 0 (cmd_attempts cmd))"

section \<open>Connecting\<close>

definition goto :: "State \<Rightarrow> unit op" where
  "goto s = modify (transition s)"

text \<open>\<^verbatim>\<open>Configuration((await self.command(configuration_request())).data)\<close>\<close>

definition read_configuration :: "unit op" where
  "read_configuration =
     bind (command configuration_request) (\<lambda>reply.
     bind (from_result (make_configuration (resp_data reply))) (\<lambda>c.
     modify (\<lambda>d. d\<lparr>configuration := Some c\<rparr>)))"

definition read_status :: "DeviceStatus op" where
  "read_status =
     bind (goto STATUS) (\<lambda>_.
     bind (command status_request) (\<lambda>reply.
     bind (from_result (decode_status reply)) (\<lambda>status.
     bind (modify (\<lambda>d. d\<lparr>info := Some status\<rparr>)) (\<lambda>_. ret status))))"

definition open_transport :: "unit op" where
  "open_transport =
     bind suspend (\<lambda>a.
     bind (read_state (\<lambda>d. transport_open (transport d) a)) (\<lambda>r.
     bind (from_result r) (\<lambda>tr. modify (\<lambda>d. d\<lparr>transport := tr, is_open := True\<rparr>))))"

definition change_baud :: "int \<Rightarrow> unit op" where
  "change_baud rate =
     bind (read_state (\<lambda>d. set_baud_guard (transport d) rate)) (\<lambda>g.
     bind (from_result g) (\<lambda>_.
     bind suspend (\<lambda>a.
     bind (read_state (\<lambda>d. transport_set_baud (transport d) rate a)) (\<lambda>r.
     bind (from_result r) (\<lambda>tr. modify (\<lambda>d. d\<lparr>transport := tr\<rparr>))))))"

text \<open>The metadata of a recording stands for the scanner; an absent key is a \<^verbatim>\<open>KeyError\<close>.\<close>

definition required :: "'a option \<Rightarrow> 'a result" where
  "required x = (case x of None \<Rightarrow> Inl KeyError | Some y \<Rightarrow> Inr y)"

definition meta_model_name :: "Metadata \<Rightarrow> string" where
  "meta_model_name meta =
     (case meta_model meta of
        None \<Rightarrow> ''recorded LMS200''
      | Some None \<Rightarrow> ''None''
      | Some (Some name) \<Rightarrow> name)"

definition connect_replay :: "Metadata \<Rightarrow> unit op" where
  "connect_replay meta =
     bind (from_result (try_bind (required (meta_configuration_hex meta)) fromhex)) (\<lambda>raw.
     bind (from_result (make_configuration raw)) (\<lambda>c.
     bind (modify (\<lambda>d. d\<lparr>configuration := Some c\<rparr>)) (\<lambda>_.
     bind (from_result (required (meta_device_status meta))) (\<lambda>status.
     bind (modify (\<lambda>d. d\<lparr>info := Some status, model := Some (meta_model_name meta)\<rparr>)) (\<lambda>_.
     goto CONNECTED)))))"

text \<open>The baud rates to try, and the loop over them with its \<^verbatim>\<open>else\<close> branch.\<close>

definition detection_rates :: "Device \<Rightarrow> int list" where
  "detection_rates d =
     (if cfg_detect_baud (settings d) \<and> tr_can_set_baud (transport d)
      then [9600, 38400, 19200] @ (if cfg_high_speed (settings d) then [500000] else [])
      else [tr_baud (transport d)])"

definition reset_framer :: "Device \<Rightarrow> Device" where
  "reset_framer d = d\<lparr>dev_framer := reset (dev_framer d)\<rparr>"

fun detect :: "int list \<Rightarrow> DeviceStatus op" where
  "detect [] = raise (TimeoutError ''No scanner found at the permitted baud rates'')"
| "detect (rate # rates) =
     bind (change_baud rate) (\<lambda>_.
     bind (modify reset_framer) (\<lambda>_.
     bind (catch (bind read_status (\<lambda>status. ret (Some status)))
             (\<lambda>e. is_TimeoutError e \<or> is_ProtocolError e)
             (\<lambda>_. bind (modify (device_note
                     (''No valid status at '' @ show_nat (nat rate) @ '' baud''))) (\<lambda>_. ret None)))
       (\<lambda>found. case found of None \<Rightarrow> detect rates | Some status \<Rightarrow> ret status)))"

definition identify :: "unit op" where
  "identify =
     bind (command type_request) (\<lambda>reply.
     case decode_ascii (resp_data reply) of
       Inl e \<Rightarrow> raise (ProtocolError ''Invalid scanner identity'')
     | Inr name \<Rightarrow> modify (\<lambda>d. d\<lparr>model := Some (strip name)\<rparr>))"

definition connect_scanner :: "unit op" where
  "connect_scanner =
     bind (modify start_reader) (\<lambda>_.
     bind (goto DETECTING) (\<lambda>_.
     bind (read_state detection_rates) (\<lambda>rates.
     bind (detect rates) (\<lambda>status.
     bind (read_state (\<lambda>d. tr_baud (transport d))) (\<lambda>baud.
     bind (from_result (require (dev_baud status = baud)
             (ProtocolError ''Status baud disagrees with adapter baud''))) (\<lambda>_.
     bind (goto CONNECTED) (\<lambda>_.
     bind identify (\<lambda>_.
     bind read_configuration (\<lambda>_.
     goto CONNECTED)))))))))"

definition prepare_connect :: "Device \<Rightarrow> Device" where
  "prepare_connect d =
     transition OPENING
       (reset_framer (d\<lparr>last_error := None, last_telegram_index := None, scan_times := []\<rparr>))"

definition startup_delay :: "unit op" where
  "startup_delay =
     bind (read_state (\<lambda>d. cfg_startup_wait (settings d))) (\<lambda>w.
     op_when (w \<noteq> 0)
       (bind (modify (device_note ''Waiting for externally powered scanner startup'')) (\<lambda>_. sleep)))"

definition connect :: "unit op" where
  "connect =
     bind (read_state is_open) (\<lambda>opened.
     if opened then ret ()
     else
       bind (modify prepare_connect) (\<lambda>_.
       bind startup_delay (\<lambda>_.
       bind open_transport (\<lambda>_.
       bind (read_state transport) (\<lambda>tr.
       if is_replay tr
       then bind (from_result (required (tr_metadata tr))) connect_replay
       else connect_scanner)))))"

section \<open>Closing\<close>

definition stop_scanner :: "unit op" where
  "stop_scanner =
     catch (bind (from_result (operating_mode ON_REQUEST ''SICK_LMS'')) (\<lambda>cmd.
            bind (command cmd) (\<lambda>_.
            modify (device_note ''Scanner confirmed output-on-request (20/25)''))))
       is_Exception
       (\<lambda>_. modify (device_note
          ''Stop was not confirmed; scanner state unknown, check connection before reuse''))"

text \<open>
  Cancelling the reader: it gets no further read, and the \<^verbatim>\<open>CancelledError\<close> that comes out of
  waiting for it is suppressed.  A reader that has returned is not waited for.
\<close>

definition stop_reader :: "unit op" where
  "stop_reader =
     bind (read_state reader) (\<lambda>r.
     if r = NoReader then ret ()
     else
       bind (op_when (r = Running)
         (bind (modify (\<lambda>d. d\<lparr>reader := Ended\<rparr>)) (\<lambda>_.
          bind suspend (\<lambda>a. case a of
            Raised e \<Rightarrow> if e = CancelledError then ret () else raise e
          | _ \<Rightarrow> ret ())))) (\<lambda>_.
       modify (\<lambda>d. d\<lparr>reader := NoReader\<rparr>)))"

definition close_transport :: "unit op" where
  "close_transport =
     bind suspend (\<lambda>a.
     bind (read_state (\<lambda>d. transport_close (transport d) a)) (\<lambda>r.
     bind (from_result r) (\<lambda>tr. modify (\<lambda>d. d\<lparr>transport := tr\<rparr>))))"

definition close_session :: "unit op" where
  "close_session =
     bind (read_state (\<lambda>d. changed d \<and> \<not> is_replay (transport d))) (\<lambda>stop.
     bind (op_when stop stop_scanner) (\<lambda>_.
     bind stop_reader (\<lambda>_.
     bind close_transport (\<lambda>_.
     bind (modify (\<lambda>d. d\<lparr>is_open := False, changed := False\<rparr>)) (\<lambda>_.
     goto DISCONNECTED)))))"

definition close_unlocked :: "unit op" where
  "close_unlocked =
     bind (read_state is_open) (\<lambda>opened.
     if \<not> opened then ret () else bind (goto STOPPING) (\<lambda>_. close_session))"

section \<open>Configuring and streaming\<close>

definition SUPPORTED_MODELS :: "string list" where
  "SUPPORTED_MODELS = [''LMS200;30106'', ''LMS200-30106'']"

definition supported_model :: "string option \<Rightarrow> bool" where
  "supported_model name \<longleftrightarrow>
     (case name of None \<Rightarrow> False | Some n \<Rightarrow> \<exists>p \<in> set SUPPORTED_MODELS. isprefix p n)"

definition run_mode :: "Mode \<Rightarrow> string \<Rightarrow> unit op" where
  "run_mode mode password =
     bind (from_result (operating_mode mode password)) (\<lambda>cmd.
     bind (command cmd) (\<lambda>_. ret ()))"

definition run_command :: "Command result \<Rightarrow> unit op" where
  "run_command c = bind (from_result c) (\<lambda>cmd. bind (command cmd) (\<lambda>_. ret ()))"

definition switch_baud :: "unit op" where
  "switch_baud =
     bind (read_state (\<lambda>d. (cfg_target_baud (settings d), tr_baud (transport d)))) (\<lambda>(target, current).
     case target of
       None \<Rightarrow> ret ()
     | Some baud \<Rightarrow>
         op_when (baud \<noteq> current)
           (bind (goto BAUD) (\<lambda>_.
            bind (run_command (baud_rate baud)) (\<lambda>_.
            bind (change_baud baud) (\<lambda>_.
            bind read_status (\<lambda>status.
            from_result (require (dev_baud status = baud)
              (ProtocolError ''Scanner did not confirm new baud''))))))))"

text \<open>The comparison of the readback with what was asked for.\<close>

definition readback_matches :: "Settings \<Rightarrow> Configuration \<Rightarrow> Configuration option \<Rightarrow> DeviceStatus \<Rightarrow> bool" where
  "readback_matches s desired conf status \<longleftrightarrow>
     (case conf of None \<Rightarrow> False | Some c \<Rightarrow> conf_raw c = conf_raw desired) \<and>
     dev_angle status = cfg_angle s \<and> dev_resolution status = cfg_resolution s \<and>
     conf_unit desired = Inr (dev_unit status) \<and> measuring_mode status = conf_mode desired"

definition verify :: "Configuration \<Rightarrow> unit op" where
  "verify desired =
     bind (goto VERIFYING) (\<lambda>_.
     bind read_configuration (\<lambda>_.
     bind read_status (\<lambda>status.
     bind (read_state (\<lambda>d. readback_matches (settings d) desired (configuration d) status)) (\<lambda>ok.
     from_result (require ok (ProtocolError ''Scanner configuration readback did not match''))))))"

definition begin_stream :: "bool \<Rightarrow> unit op" where
  "begin_stream start_stream =
     (if start_stream
      then bind (goto STARTING) (\<lambda>_.
           bind (run_mode CONTINUOUS ''SICK_LMS'') (\<lambda>_.
           bind (modify (\<lambda>d. d\<lparr>stream_since := clock d\<rparr>)) (\<lambda>_.
           goto STREAMING)))
      else goto CONNECTED)"

definition configure :: "Configuration \<Rightarrow> DeviceStatus \<Rightarrow> unit op" where
  "configure conf status =
     bind (read_state settings) (\<lambda>s.
     bind (from_result (updated conf (cfg_unit s) (cfg_indices s))) (\<lambda>desired.
     let geometry_changes = ((dev_angle status, dev_resolution status) \<noteq> (cfg_angle s, cfg_resolution s));
         changes = (conf_raw desired \<noteq> conf_raw conf) in
     bind (op_when (changes \<or> geometry_changes)
       (bind (goto State.INSTALLATION) (\<lambda>_. run_mode Mode.INSTALLATION (cfg_password s)))) (\<lambda>_.
     bind switch_baud (\<lambda>_.
     bind (goto CONFIGURING) (\<lambda>_.
     bind (op_when geometry_changes (run_command (variant (cfg_angle s) (cfg_resolution s)))) (\<lambda>_.
     bind (op_when changes (run_command (write_configuration (conf_raw desired)))) (\<lambda>_.
     verify desired)))))))"

definition assert_known :: "Device \<Rightarrow> (DeviceStatus \<times> Configuration) result" where
  "assert_known d =
     (case (info d, configuration d) of
        (Some status, Some conf) \<Rightarrow> Inr (status, conf)
      | _ \<Rightarrow> Inl AssertionError)"

definition check_scanner :: "DeviceStatus \<Rightarrow> string option \<Rightarrow> unit result" where
  "check_scanner status name =
     (if device_error status \<noteq> 0 then Inl (DeviceError ''B1 reports a defective scanner'')
      else if \<not> supported_model name
      then Inl (DeviceError ''Configuration is limited to LMS200-30106'')
      else Inr ())"

definition initialize_scanner :: "bool \<Rightarrow> unit op" where
  "initialize_scanner start_stream =
     bind (read_state assert_known) (\<lambda>r.
     bind (from_result r) (\<lambda>(status, conf).
     bind (read_state model) (\<lambda>name.
     bind (from_result (check_scanner status name)) (\<lambda>_.
     bind (run_mode ON_REQUEST ''SICK_LMS'') (\<lambda>_.
     bind (configure conf status) (\<lambda>_.
     bind (run_mode ON_REQUEST ''SICK_LMS'') (\<lambda>_.
     begin_stream start_stream)))))))"

definition start_replay :: "unit op" where
  "start_replay =
     bind (goto STREAMING) (\<lambda>_. modify (\<lambda>d. start_reader (d\<lparr>stream_since := clock d\<rparr>)))"

definition initialize_body :: "bool \<Rightarrow> unit op" where
  "initialize_body start_stream =
     bind connect (\<lambda>_.
     bind (read_state (\<lambda>d. is_replay (transport d))) (\<lambda>replay.
     if replay then start_replay else initialize_scanner start_stream))"

definition initialize :: "bool \<Rightarrow> unit op" where
  "initialize start_stream =
     bind (read_state (\<lambda>d. require_write (settings d))) (\<lambda>r.
     bind (from_result r) (\<lambda>_.
     bind (read_state dev_state) (\<lambda>s.
     if s = STREAMING then ret ()
     else catch (initialize_body start_stream) (\<lambda>_. True)
            (\<lambda>e. bind close_unlocked (\<lambda>_. bind (goto FAULTED) (\<lambda>_. raise e))))))"

definition close :: "unit op" where
  "close = close_unlocked"

definition reconnect :: "unit op" where
  "reconnect = bind (goto RECOVERING) (\<lambda>_. bind close (\<lambda>_. initialize True))"

section \<open>What clients see\<close>

definition device_metadata :: "Device \<Rightarrow> Metadata" where
  "device_metadata d =
     \<lparr>meta_format = None, meta_model = Some (model d), meta_baud = Some (tr_baud (transport d)),
      meta_device_status = info d,
      meta_configuration_hex = map_option (\<lambda>c. hex (conf_raw c)) (configuration d),
      meta_transport = Some (cfg_transport (settings d))\<rparr>"

record Snapshot =
  snap_state :: State
  snap_error :: "string option"
  snap_settings :: PublicSettings
  snap_metadata :: Metadata
  snap_counters :: Counters
  snap_framing :: FrameStats
  nominal_mirror_hz :: rat
  nominal_complete_scan_hz :: rat
  received_scan_hz :: rat
  snap_points :: int
  serial_ceiling_hz :: "rat option"
  snap_log :: "string list"

text \<open>\<^verbatim>\<open>round(x, 2)\<close>\<close>

definition round2 :: "rat \<Rightarrow> rat" where
  "round2 x = of_int (py_round (x * 100)) / 100"

definition received_hz :: "Device \<Rightarrow> rat" where
  "received_hz d =
     (let recent = filter (\<lambda>t. clock d - t \<le> 3) (scan_times d);
          span = (if 1 < length recent then last recent - hd recent else 0) in
      if 0 < span then of_nat (length recent - 1) / span else 0)"

definition snapshot :: "Device \<Rightarrow> Snapshot" where
  "snapshot d =
     (let points_seen = (case latest d of None \<Rightarrow> 0 | Some scan \<Rightarrow> scan_count scan);
          resolution = (case info d of None \<Rightarrow> cfg_resolution (settings d)
                                     | Some status \<Rightarrow> dev_resolution status) in
      \<lparr>snap_state = dev_state d, snap_error = last_error d, snap_settings = public (settings d),
       snap_metadata = device_metadata d, snap_counters = counters d,
       snap_framing = stats (dev_framer d), nominal_mirror_hz = 75,
       nominal_complete_scan_hz = 75 * resolution, received_scan_hz = round2 (received_hz d),
       snap_points = points_seen,
       serial_ceiling_hz =
         (if points_seen \<noteq> 0
          then Some (round2 (of_int (tr_baud (transport d)) / of_int (10 * (points_seen * 2 + 12))))
          else None),
       snap_log = dev_log d\<rparr>)"

end
