(* ===== verification/Device_Logic.thy ===== *)
theory Device_Logic
  imports Device
begin

text \<open>
  Reasoning about operations of the device.  \<open>ends P m J\<close> says that \<open>J\<close> holds whenever
  \<open>m\<close> stops, with a value, an exception or at a suspension point; \<open>on_return P m Q\<close>
  speaks of the values only.  Three locales lift facts about the elementary updates of
  the state to whole operations: an invariant of the reader, of a command, and of every
  operation.  Each extends the one before it.
\<close>

section \<open>Triples\<close>

definition ends :: "(Device \<Rightarrow> bool) \<Rightarrow> 'a op \<Rightarrow> (Device \<Rightarrow> bool) \<Rightarrow> bool" where
  "ends P m J \<longleftrightarrow> (\<forall>d ts. P d \<longrightarrow> J (fst (snd (m d ts))))"

definition on_return :: "(Device \<Rightarrow> bool) \<Rightarrow> 'a op \<Rightarrow> ('a \<Rightarrow> Device \<Rightarrow> bool) \<Rightarrow> bool" where
  "on_return P m Q \<longleftrightarrow> (\<forall>d ts x d' ts'. P d \<longrightarrow> m d ts = (Done x, d', ts') \<longrightarrow> Q x d')"

abbreviation keeps :: "(Device \<Rightarrow> bool) \<Rightarrow> 'a op \<Rightarrow> bool" where
  "keeps J m \<equiv> ends J m J"

lemma endsD: "ends P m J \<Longrightarrow> P d \<Longrightarrow> m d ts = (out, d', ts') \<Longrightarrow> J d'"
  unfolding ends_def by (metis fst_conv snd_conv)

lemma endsI: "(\<And>d ts out d' ts'. P d \<Longrightarrow> m d ts = (out, d', ts') \<Longrightarrow> J d') \<Longrightarrow> ends P m J"
  by (metis ends_def prod.collapse)

lemma ends_weaken: "ends P m J \<Longrightarrow> (\<And>d. P' d \<Longrightarrow> P d) \<Longrightarrow> (\<And>d. J d \<Longrightarrow> J' d) \<Longrightarrow> ends P' m J'"
  by (auto simp: ends_def)

lemma ends_conj: "ends P m J \<Longrightarrow> ends P' m J' \<Longrightarrow> ends (\<lambda>d. P d \<and> P' d) m (\<lambda>d. J d \<and> J' d)"
  by (auto simp: ends_def)

lemma on_returnD: "on_return P m Q \<Longrightarrow> P d \<Longrightarrow> m d ts = (Done x, d', ts') \<Longrightarrow> Q x d'"
  unfolding on_return_def by blast

lemma on_returnI:
  "(\<And>d ts x d' ts'. P d \<Longrightarrow> m d ts = (Done x, d', ts') \<Longrightarrow> Q x d') \<Longrightarrow> on_return P m Q"
  unfolding on_return_def by blast

lemma on_return_ends: "ends P m J \<Longrightarrow> on_return P m (\<lambda>_. J)"
  by (rule on_returnI) (rule endsD)

lemma on_return_conj:
  "on_return P m Q \<Longrightarrow> on_return P' m Q' \<Longrightarrow> on_return (\<lambda>d. P d \<and> P' d) m (\<lambda>x d. Q x d \<and> Q' x d)"
  by (rule on_returnI) (blast dest: on_returnD)

lemma on_return_weaken:
  "on_return P m Q \<Longrightarrow> (\<And>d. P' d \<Longrightarrow> P d) \<Longrightarrow> (\<And>x d. Q x d \<Longrightarrow> Q' x d) \<Longrightarrow> on_return P' m Q'"
  by (rule on_returnI) (blast dest: on_returnD)

subsection \<open>Computation\<close>

lemma combinator_simps [simp]:
  "ret x d ts = (Done x, d, ts)"
  "raise e d ts = (Raise e, d, ts)"
  "modify f d ts = (Done (), f d, ts)"
  "read_state g d ts = (Done (g d), d, ts)"
  "from_result (Inl e) = raise e"
  "from_result (Inr x) = ret x"
  "op_when True n = n"
  "op_when False n = ret ()"
  by (simp_all add: ret_def raise_def modify_def read_state_def from_result_def op_when_def)

lemma bind_eq:
  "bind m f d ts = (out, d', ts') \<longleftrightarrow>
     (\<exists>x d1 ts1. m d ts = (Done x, d1, ts1) \<and> f x d1 ts1 = (out, d', ts')) \<or>
     (\<exists>e. m d ts = (Raise e, d', ts') \<and> out = Raise e) \<or>
     (m d ts = (Pending, d', ts') \<and> out = Pending)"
  by (auto simp: bind_def split: outcome.splits prod.splits)

lemma bind_Done: "m d ts = (Done x, d1, ts1) \<Longrightarrow> bind m f d ts = f x d1 ts1"
  by (simp add: bind_def)

lemma bind_Raise: "m d ts = (Raise e, d1, ts1) \<Longrightarrow> bind m f d ts = (Raise e, d1, ts1)"
  by (simp add: bind_def)

lemma bind_simps [simp]:
  "bind (ret x) f1 = f1 x"
  "bind (raise e) f2 = raise e"
  "bind (modify g) f3 d ts = f3 () (g d) ts"
  "bind (read_state h) f4 d ts = f4 (h d) d ts"
  by (simp_all add: bind_def ret_def raise_def fun_eq_iff)

lemma bind_Done_eq:
  "bind m f d ts = (Done y, d', ts') \<longleftrightarrow>
     (\<exists>x d1 ts1. m d ts = (Done x, d1, ts1) \<and> f x d1 ts1 = (Done y, d', ts'))"
  by (auto simp: bind_eq)

lemma from_result_eq:
  "from_result r d ts = (out, d', ts') \<longleftrightarrow>
     d' = d \<and> ts' = ts \<and> out = (case r of Inl e \<Rightarrow> Raise e | Inr x \<Rightarrow> Done x)"
  by (cases r) auto

lemma catch_eq:
  "catch m P h d ts = (out, d', ts') \<longleftrightarrow>
     (\<exists>e d1 ts1. m d ts = (Raise e, d1, ts1) \<and> P e \<and> h e d1 ts1 = (out, d', ts')) \<or>
     (m d ts = (out, d', ts') \<and> (\<forall>e. out = Raise e \<longrightarrow> \<not> P e))"
  by (auto simp: catch_def split: outcome.splits prod.splits)

subsection \<open>Rules\<close>

lemma ends_ret: "(\<And>d. P d \<Longrightarrow> J d) \<Longrightarrow> ends P (ret x) J"
  and ends_raise: "(\<And>d. P d \<Longrightarrow> J d) \<Longrightarrow> ends P (raise e) J"
  and ends_modify: "(\<And>d. P d \<Longrightarrow> J (f d)) \<Longrightarrow> ends P (modify f) J"
  and ends_read_state: "(\<And>d. P d \<Longrightarrow> J d) \<Longrightarrow> ends P (read_state g) J"
  by (auto simp: ends_def)

lemma ends_bind:
  assumes "ends P m J" "on_return P m K" "\<And>x. ends (K x) (f x) J"
  shows "ends P (bind m f) J"
  using assms by (intro endsI) (auto simp: bind_eq dest: endsD on_returnD)

lemma keeps_bind: "keeps J m \<Longrightarrow> (\<And>x. keeps J (f x)) \<Longrightarrow> keeps J (bind m f)"
  by (rule ends_bind [where K = "\<lambda>_. J"]) (auto intro: on_return_ends)

lemma ends_then:
  "keeps P m \<Longrightarrow> (\<And>d. P d \<Longrightarrow> J d) \<Longrightarrow> (\<And>x. ends P (f x) J) \<Longrightarrow> ends P (bind m f) J"
  by (rule ends_bind [where K = "\<lambda>_. P"]) (auto intro: on_return_ends ends_weaken)

lemma keeps_catch: "keeps J m \<Longrightarrow> (\<And>e. P e \<Longrightarrow> keeps J (h e)) \<Longrightarrow> keeps J (catch m P h)"
  by (rule endsI) (auto simp: catch_eq dest: endsD)

lemma ends_catch: "ends P m I \<Longrightarrow> (\<And>e. keeps I (h e)) \<Longrightarrow> ends P (catch m C h) I"
  by (rule endsI) (auto simp: catch_eq dest: endsD)

lemma keeps_from_result: "keeps J (from_result r)"
  by (cases r) (simp_all add: ends_ret ends_raise)

lemma keeps_bind_result: "(\<And>x. r = Inr x \<Longrightarrow> keeps J (f x)) \<Longrightarrow> keeps J (bind (from_result r) f)"
  by (cases r) (simp_all add: ends_raise)

lemma keeps_when: "(b \<Longrightarrow> keeps J m) \<Longrightarrow> keeps J (op_when b m)"
  by (cases b) (simp_all add: ends_ret)

lemma ends_if: "(b \<Longrightarrow> ends P m J) \<Longrightarrow> (\<not> b \<Longrightarrow> ends P n J) \<Longrightarrow> ends P (if b then m else n) J"
  by simp

lemma keeps_bind_read:
  "(\<And>d. J d \<Longrightarrow> ends (\<lambda>d'. J d' \<and> d' = d) (f (g d)) J) \<Longrightarrow> keeps J (bind (read_state g) f)"
  by (auto simp: ends_def)

lemma keeps_update:
  "(\<And>d x. J d \<Longrightarrow> g d = Inr x \<Longrightarrow> J (f x d)) \<Longrightarrow>
   keeps J (bind (read_state g) (\<lambda>r. bind (from_result r) (\<lambda>x. modify (f x))))"
  by (auto simp: ends_def from_result_def split: sum.splits)

lemmas keeps_rules =
  keeps_bind keeps_catch keeps_bind_result keeps_from_result keeps_when ends_if
  ends_ret ends_raise ends_modify ends_read_state

lemma on_return_bind:
  "on_return P m K \<Longrightarrow> (\<And>x. on_return (K x) (f x) Q) \<Longrightarrow> on_return P (bind m f) Q"
  by (auto simp: on_return_def bind_Done_eq) blast

lemma on_return_ret: "(\<And>d. P d \<Longrightarrow> Q x d) \<Longrightarrow> on_return P (ret x) Q"
  by (auto simp: on_return_def)

lemma on_return_raise: "on_return P (raise e) Q"
  by (auto simp: on_return_def)

lemma on_return_modify: "(\<And>d. P d \<Longrightarrow> Q () (f d)) \<Longrightarrow> on_return P (modify f) Q"
  by (auto simp: on_return_def)

lemma on_return_then: "(\<And>x. on_return (\<lambda>_. True) (f x) Q) \<Longrightarrow> on_return P (bind m f) Q"
  by (rule on_return_bind [where K = "\<lambda>_ _. True"]) (simp_all add: on_return_def)

lemma on_return_bind_result:
  "(\<And>x. r = Inr x \<Longrightarrow> on_return P (f x) Q) \<Longrightarrow> on_return P (bind (from_result r) f) Q"
  by (cases r) (simp_all add: on_return_raise)

lemma on_return_read_const:
  "(\<And>d. P d \<Longrightarrow> g d = v) \<Longrightarrow> on_return P (f v) Q \<Longrightarrow> on_return P (bind (read_state g) f) Q"
  by (auto simp: on_return_def)

section \<open>Fields an update leaves alone\<close>

lemma device_note_sel [simp]:
  "settings (device_note m d) = settings d" "transport (device_note m d) = transport d"
  "dev_state (device_note m d) = dev_state d" "history (device_note m d) = history d"
  "counters (device_note m d) = counters d" "dev_framer (device_note m d) = dev_framer d"
  "info (device_note m d) = info d" "model (device_note m d) = model d"
  "configuration (device_note m d) = configuration d" "latest (device_note m d) = latest d"
  "last_error (device_note m d) = last_error d" "events (device_note m d) = events d"
  "reader (device_note m d) = reader d" "changed (device_note m d) = changed d"
  "is_open (device_note m d) = is_open d" "scan_times (device_note m d) = scan_times d"
  "last_telegram_index (device_note m d) = last_telegram_index d"
  "stream_since (device_note m d) = stream_since d" "clock (device_note m d) = clock d"
  "last_bytes (device_note m d) = last_bytes d" "sent (device_note m d) = sent d"
  "delivered (device_note m d) = delivered d"
  "dev_log (device_note m d) = deque_append 200 (dev_log d) m"
  by (simp_all add: device_note_def)

lemma transition_sel [simp]:
  "settings (transition s d) = settings d" "transport (transition s d) = transport d"
  "dev_state (transition s d) = s" "history (transition s d) = history d @ [s]"
  "counters (transition s d) = counters d" "dev_framer (transition s d) = dev_framer d"
  "info (transition s d) = info d" "model (transition s d) = model d"
  "configuration (transition s d) = configuration d" "latest (transition s d) = latest d"
  "last_error (transition s d) = last_error d" "events (transition s d) = events d"
  "reader (transition s d) = reader d" "changed (transition s d) = changed d"
  "is_open (transition s d) = is_open d" "scan_times (transition s d) = scan_times d"
  "last_telegram_index (transition s d) = last_telegram_index d"
  "stream_since (transition s d) = stream_since d" "clock (transition s d) = clock d"
  "last_bytes (transition s d) = last_bytes d" "sent (transition s d) = sent d"
  "delivered (transition s d) = delivered d"
  "dev_log (transition s d) = deque_append 200 (dev_log d) (state_value s)"
  by (simp_all add: transition_def)

lemma count_sel [simp]:
  "settings (count f d) = settings d" "transport (count f d) = transport d"
  "dev_state (count f d) = dev_state d" "history (count f d) = history d"
  "counters (count f d) = f (counters d)" "dev_framer (count f d) = dev_framer d"
  "info (count f d) = info d" "model (count f d) = model d"
  "configuration (count f d) = configuration d" "latest (count f d) = latest d"
  "last_error (count f d) = last_error d" "events (count f d) = events d"
  "reader (count f d) = reader d" "changed (count f d) = changed d"
  "is_open (count f d) = is_open d" "scan_times (count f d) = scan_times d"
  "last_telegram_index (count f d) = last_telegram_index d"
  "stream_since (count f d) = stream_since d" "clock (count f d) = clock d"
  "last_bytes (count f d) = last_bytes d" "sent (count f d) = sent d"
  "delivered (count f d) = delivered d" "dev_log (count f d) = dev_log d"
  by (simp_all add: count_def)

lemma queue_event_sel [simp]:
  "settings (queue_event e d) = settings d" "transport (queue_event e d) = transport d"
  "dev_state (queue_event e d) = dev_state d" "history (queue_event e d) = history d"
  "dev_framer (queue_event e d) = dev_framer d"
  "info (queue_event e d) = info d" "model (queue_event e d) = model d"
  "configuration (queue_event e d) = configuration d" "latest (queue_event e d) = latest d"
  "last_error (queue_event e d) = last_error d"
  "reader (queue_event e d) = reader d" "changed (queue_event e d) = changed d"
  "is_open (queue_event e d) = is_open d" "scan_times (queue_event e d) = scan_times d"
  "last_telegram_index (queue_event e d) = last_telegram_index d"
  "stream_since (queue_event e d) = stream_since d" "clock (queue_event e d) = clock d"
  "last_bytes (queue_event e d) = last_bytes d" "sent (queue_event e d) = sent d"
  "delivered (queue_event e d) = delivered d" "dev_log (queue_event e d) = dev_log d"
  by (simp_all add: queue_event_def)

lemma set_clock_sel [simp]:
  "settings (set_clock t d) = settings d" "transport (set_clock t d) = transport d"
  "dev_state (set_clock t d) = dev_state d" "history (set_clock t d) = history d"
  "counters (set_clock t d) = counters d" "dev_framer (set_clock t d) = dev_framer d"
  "info (set_clock t d) = info d" "model (set_clock t d) = model d"
  "configuration (set_clock t d) = configuration d" "latest (set_clock t d) = latest d"
  "last_error (set_clock t d) = last_error d" "events (set_clock t d) = events d"
  "reader (set_clock t d) = reader d" "changed (set_clock t d) = changed d"
  "is_open (set_clock t d) = is_open d" "scan_times (set_clock t d) = scan_times d"
  "last_telegram_index (set_clock t d) = last_telegram_index d"
  "stream_since (set_clock t d) = stream_since d" "clock (set_clock t d) = max (clock d) t"
  "last_bytes (set_clock t d) = last_bytes d" "sent (set_clock t d) = sent d"
  "delivered (set_clock t d) = delivered d" "dev_log (set_clock t d) = dev_log d"
  by (simp_all add: set_clock_def)

lemma accept_scan_sel [simp]:
  "settings (accept_scan s d) = settings d" "transport (accept_scan s d) = transport d"
  "dev_state (accept_scan s d) = dev_state d" "history (accept_scan s d) = history d"
  "dev_framer (accept_scan s d) = dev_framer d"
  "info (accept_scan s d) = info d" "model (accept_scan s d) = model d"
  "configuration (accept_scan s d) = configuration d" "latest (accept_scan s d) = Some s"
  "last_error (accept_scan s d) = last_error d" "events (accept_scan s d) = events d"
  "reader (accept_scan s d) = reader d" "changed (accept_scan s d) = changed d"
  "is_open (accept_scan s d) = is_open d"
  "scan_times (accept_scan s d) = deque_append 150 (scan_times d) (clock d)"
  "last_telegram_index (accept_scan s d) = telegram_index s"
  "stream_since (accept_scan s d) = stream_since d" "clock (accept_scan s d) = clock d"
  "last_bytes (accept_scan s d) = last_bytes d" "sent (accept_scan s d) = sent d"
  "delivered (accept_scan s d) = delivered d @ [s]" "dev_log (accept_scan s d) = dev_log d"
  by (simp_all add: accept_scan_def)

section \<open>Invariants of the reader\<close>

text \<open>A scan that \<open>handle_scan\<close> accepts: decoded with the verified geometry, and healthy.\<close>

definition acceptable :: "Device \<Rightarrow> Scan \<Rightarrow> bool" where
  "acceptable d scan \<longleftrightarrow>
     (\<exists>frame reply conf status stamp now.
        genuine (EvFrame frame) \<and> response frame (cfg_address (settings d)) = Inr reply \<and>
        configuration d = Some conf \<and> info d = Some status \<and>
        decode_scan reply (dev_angle status) (dev_resolution status) conf
          (received_scans (counters d) + 1) stamp now = Inr scan \<and>
        require_healthy reply = Inr ())"

text \<open>What the reader puts into the queue: a reply is one of a telegram with a valid checksum.\<close>

fun queueable :: "Settings \<Rightarrow> queued \<Rightarrow> bool" where
  "queueable s (QResponse reply) \<longleftrightarrow>
     (\<exists>frame. genuine (EvFrame frame) \<and> response frame (cfg_address s) = Inr reply)"
| "queueable s _ \<longleftrightarrow> True"

text \<open>
  The elementary updates of the reader.  The settings are part of every invariant, so
  that what they permit is known throughout an operation.
\<close>

locale reader_invariant =
  fixes I :: "Device \<Rightarrow> bool" and s :: Settings
  assumes settings_fixed: "I d \<Longrightarrow> settings d = s"
    and clock_ok: "I d \<Longrightarrow> I (set_clock t d)"
    and log_ok: "I d \<Longrightarrow> I (device_note m d)"
    and count_ok: "I d \<Longrightarrow> f \<in> {one_timeout, one_nak, one_malformed, one_unexpected} \<Longrightarrow> I (count f d)"
    and queue_ok: "I d \<Longrightarrow> queueable s e \<Longrightarrow> I (queue_event e d)"
    and error_ok: "I d \<Longrightarrow> I (d\<lparr>last_error := m'\<rparr>)"
    and leave_ok: "I d \<Longrightarrow> st \<noteq> STREAMING \<Longrightarrow> I (transition st d)"
    and scan_ok: "I d \<Longrightarrow> acceptable d scan \<Longrightarrow> I (accept_scan scan d)"
    and framer_ok: "I d \<Longrightarrow> I (d\<lparr>dev_framer := f'\<rparr>)"
    and last_bytes_ok: "I d \<Longrightarrow> I (d\<lparr>last_bytes := t\<rparr>)"
    and stamp_ok: "I d \<Longrightarrow> I (d\<lparr>transport := (transport d)\<lparr>tr_timestamp := x\<rparr>\<rparr>)"
    and reader_ok: "I d \<Longrightarrow> I (d\<lparr>reader := r\<rparr>)"
begin

lemmas reader_steps =
  clock_ok log_ok count_ok queue_ok error_ok leave_ok framer_ok last_bytes_ok stamp_ok reader_ok

lemma handle_scan_ok:
  assumes "I d" "genuine (EvFrame frame)" "response frame (cfg_address s) = Inr reply"
  shows "I (handle_scan utc reply d)"
proof -
  have bad: "I (transition FAULTED ((queue_event (QError e) d)\<lparr>last_error := Some (message e)\<rparr>))" for e
    using assms(1) by (intro leave_ok error_ok queue_ok) simp_all
  show ?thesis
  proof (cases "configuration d"; cases "info d")
    fix conf status
    assume known: "configuration d = Some conf" "info d = Some status"
    define stamp where "stamp = (if is_replay (transport d) then tr_timestamp (transport d) else None)"
    define r where "r = try_bind (decode_scan reply (dev_angle status) (dev_resolution status) conf
      (received_scans (counters d) + 1) stamp utc) (\<lambda>scan. try_bind (require_healthy reply) (\<lambda>_. Inr scan))"
    have eq: "handle_scan utc reply d = (case r of Inr scan \<Rightarrow> accept_scan scan d
        | Inl e \<Rightarrow> if is_DeviceError e
            then transition FAULTED ((queue_event (QError e) d)\<lparr>last_error := Some (message e)\<rparr>)
            else count one_malformed d)"
      by (simp add: handle_scan_def known r_def stamp_def Let_def)
    have "acceptable d scan" if "r = Inr scan" for scan
      using that known assms settings_fixed [OF assms(1)]
      unfolding r_def acceptable_def try_bind_eq_Inr by auto
    then show ?thesis
      using assms(1) bad by (simp add: eq scan_ok count_ok split: sum.split)
  qed (use assms(1) in \<open>simp_all add: handle_scan_def\<close>)
qed

lemma handle_ok: "I d \<Longrightarrow> genuine ev \<Longrightarrow> I (handle utc ev d)"
proof (cases ev)
  case (EvFrame frame)
  assume "I d" "genuine ev"
  then show ?thesis
    using EvFrame settings_fixed [OF \<open>I d\<close>]
    by (auto simp: handle_reset_def Let_def intro!: reader_steps handle_scan_ok [of d frame]
        split: sum.splits)
qed (auto intro: queue_ok)

lemma handle_all_ok: "I d \<Longrightarrow> list_all genuine es \<Longrightarrow> I (handle_all utc es d)"
  by (induction es arbitrary: d) (auto simp: handle_all_def handle_ok)

lemma read_data_ok: "I d \<Longrightarrow> I (read_data utc data d)"
proof -
  assume "I d"
  then have "I (d\<lparr>last_bytes := t, dev_framer := f'\<rparr>)" for t f'
    using framer_ok [OF last_bytes_ok] by simp
  with \<open>I d\<close> show ?thesis
    by (auto simp: read_data_def dest: feed_genuine expire_genuine
        intro!: handle_all_ok last_bytes_ok framer_ok split: prod.splits)
qed

lemma check_stream_ok: "I d \<Longrightarrow> I (check_stream d)"
  by (auto simp: check_stream_def Let_def intro!: reader_steps)

lemma read_eof_ok: "I d \<Longrightarrow> I (read_eof d)"
proof -
  assume "I d"
  then have "I (d\<lparr>dev_framer := f', last_error := m'\<rparr>)" for f' m'
    using error_ok [OF framer_ok] by simp
  with \<open>I d\<close> show ?thesis by (auto simp: read_eof_def intro!: reader_steps)
qed

lemma read_failure_ok: "I d \<Longrightarrow> I (read_failure d)"
  by (auto simp: read_failure_def intro!: reader_steps)

lemma begin_read_ok: "I d \<Longrightarrow> I (begin_read r d)"
  using stamp_ok [OF clock_ok] clock_ok by (simp add: begin_read_def Let_def)

lemma finish_read_ok: "I d \<Longrightarrow> I (finish_read r d)"
  by (simp add: finish_read_def read_data_ok check_stream_ok read_eof_ok read_failure_ok reader_ok
      split: sum.split)

lemma reader_step_ok: "I d \<Longrightarrow> I (reader_step r d)"
  by (simp add: reader_step_def begin_read_ok finish_read_ok)

lemma keeps_suspend: "keeps I suspend"
proof (rule endsI)
  show "I d'" if "I d" "suspend d ts = (out, d', ts')" for d ts out d' ts'
    using that by (induction d ts rule: suspend.induct) (auto intro: reader_step_ok clock_ok)
qed

lemma keeps_sleep: "keeps I sleep"
  unfolding sleep_def by (intro keeps_bind keeps_suspend) (auto intro!: ends_ret ends_raise split: answer.split)

end

section \<open>Invariants of a command\<close>

lemma cmd_wait_settle:
  assumes "cmd_wait cmd ack deadline d ts = (ack', out, d', ts')"
    and "\<And>d e es. J d \<Longrightarrow> events d = e # es \<Longrightarrow> J (d\<lparr>events := es\<rparr>)"
    and "\<And>d. J d \<Longrightarrow> J (count one_unexpected d)" "\<And>d. J d \<Longrightarrow> J (count one_nak d)"
    and "\<And>d t. J d \<Longrightarrow> J (set_clock t d)" "\<And>d r. J d \<Longrightarrow> J (reader_step r d)"
    and "keeps J sleep" "J d"
  shows "J d'"
proof -
  have await: "J d'" if "await_event dl d ts = (out, d', ts')" "J d" for dl d ts out d' ts'
    using that
  proof (induction ts arbitrary: d)
    case (Cons tick ts)
    then show ?case
      by (cases tick) (auto simp: Let_def assms(2,5,6) split: answer.splits if_splits list.splits)
  qed simp
  then have get: "J d'" if "get_event dl d ts = (out, d', ts')" "J d" for dl d ts out d' ts'
    using that by (auto simp: get_event_def assms(2) split: list.splits)
  show ?thesis
    using assms(1,8)
  proof (induction cmd ack deadline d ts arbitrary: rule: cmd_wait.induct)
    case (1 cmd ack deadline d ts)
    show ?case
    proof (cases "deadline \<le> clock d")
      case False
      obtain o1 d1 ts1 where g: "get_event deadline d ts = (o1, d1, ts1)" by (cases "get_event deadline d ts") auto
      have "J d1" using get [OF g 1(4)] .
      have nak: "J d''" if "bind sleep (\<lambda>_. raise (ProtocolError ''NAK'')) (count one_nak d1) ts1 = (out, d'', ts'')"
        for d'' ts'' and out :: "Response outcome"
        using that assms(4) [OF \<open>J d1\<close>] assms(7) by (auto simp: bind_eq dest: endsD)
      show ?thesis
      proof (cases o1)
        case (Done ev)
        note step = 1(3) [unfolded cmd_wait.simps [of cmd ack deadline d ts]]
        show ?thesis
        proof (cases ev)
          case (QControl c)
          then show ?thesis
            using step False g Done nak 1(1) [OF False g [symmetric] Done refl QControl] \<open>J d1\<close>
            by (cases c) (auto split: if_splits)
        next
          case (QResponse reply)
          then show ?thesis
            using step False g Done 1(2) [OF False g [symmetric] Done refl QResponse] \<open>J d1\<close> assms(3)
            by (auto split: if_splits sum.splits)
        next
          case (QError e)
          then show ?thesis using step False g Done \<open>J d1\<close> by simp
        qed
      qed (use 1(3) False g \<open>J d1\<close> in \<open>auto simp: cmd_wait.simps [of cmd ack deadline d ts]\<close>)
    qed (use 1(3,4) in \<open>simp add: cmd_wait.simps [of cmd ack deadline d ts]\<close>)
  qed
qed

locale command_invariant = reader_invariant +
  assumes events_ok: "I d \<Longrightarrow> I (d\<lparr>events := drop n (events d)\<rparr>)"
    and send_ok: "I d \<Longrightarrow> scanner_command cmd \<Longrightarrow>
      (cmd_mutates cmd \<longrightarrow> require_write s = Inr ()) \<Longrightarrow>
      telegram cmd (cfg_address s) = Inr raw \<Longrightarrow> write_guard (transport d) = Inr () \<Longrightarrow>
      I (d\<lparr>sent := sent d @ [raw]\<rparr>)"
    and changed_ok: "I d \<Longrightarrow> require_write s = Inr () \<Longrightarrow> I (d\<lparr>changed := True\<rparr>)"
begin

lemma pop_ok: "I d \<Longrightarrow> events d = e # es \<Longrightarrow> I (d\<lparr>events := es\<rparr>)"
  using events_ok [of d 1] by simp

lemma drain_ok: "I d \<Longrightarrow> I (drain_events d)"
  using events_ok [of d "length (events d)"] by (simp add: drain_events_def)

lemma cmd_wait_ok: "cmd_wait cmd ack deadline d ts = (ack', out, d', ts') \<Longrightarrow> I d \<Longrightarrow> I d'"
  by (erule cmd_wait_settle) (simp_all add: pop_ok count_ok clock_ok reader_step_ok keeps_sleep)

lemma keeps_write:
  assumes "scanner_command cmd" "cmd_mutates cmd \<longrightarrow> require_write s = Inr ()"
    "telegram cmd (cfg_address s) = Inr raw"
  shows "keeps I (write_telegram raw)"
proof -
  have "keeps I (bind suspend (\<lambda>a. from_result (plain_answer a)))"
    by (intro keeps_bind keeps_suspend keeps_from_result)
  then have "I (fst (snd (bind suspend (\<lambda>a. from_result (plain_answer a)) (d\<lparr>sent := sent d @ [raw]\<rparr>) ts)))"
    if "I d" "write_guard (transport d) = Inr ()" for d ts
    using send_ok [OF that(1) assms that(2)] by (auto simp: ends_def)
  then show ?thesis
    by (auto simp: ends_def write_telegram_def from_result_def split: sum.split)
qed

lemma keeps_send:
  assumes "scanner_command cmd" "cmd_mutates cmd \<longrightarrow> require_write s = Inr ()"
  shows "keeps I (send_attempt cmd n)"
proof -
  have "I (fst (snd (bind (from_result (telegram cmd (cfg_address (settings d)))) write_telegram d ts)))"
    if "I d" for d ts
    using that keeps_write [OF assms] settings_fixed [OF that]
    by (cases "telegram cmd (cfg_address s)") (auto simp: ends_def)
  then show ?thesis
    by (auto simp: ends_def send_attempt_def log_ok drain_ok settings_fixed)
qed

lemma keeps_attempts:
  assumes "scanner_command cmd" "cmd_mutates cmd \<longrightarrow> require_write s = Inr ()"
  shows "keeps I (attempts_loop cmd n left)"
proof (induction left arbitrary: n)
  case 0
  show ?case by (simp add: ends_def)
next
  case (Suc left)
  have next_try: "keeps I (bind sleep (\<lambda>_. attempts_loop cmd (n + 1) left))"
    by (intro keeps_bind keeps_sleep Suc.IH)
  have "I (fst (snd (handle_attempt cmd (left = 0) (bind sleep (\<lambda>_. attempts_loop cmd (n + 1) left))
      (cmd_wait cmd False dl d ts))))" if "I d" for dl d ts
  proof -
    obtain ack out d' ts' where w: "cmd_wait cmd False dl d ts = (ack, out, d', ts')" by (metis surj_pair)
    then have "I d'" using cmd_wait_ok that by blast
    then show ?thesis using next_try count_ok [of d' one_timeout]
      by (auto simp: w handle_attempt_def ends_def split: outcome.split)
  qed
  then have "keeps I (\<lambda>d1 ts1. handle_attempt cmd (left = 0)
      (bind sleep (\<lambda>_. attempts_loop cmd (n + 1) left))
      (cmd_wait cmd False (clock d1 + cfg_ack_timeout (settings d1)) d1 ts1))"
    by (simp add: ends_def)
  then show ?case
    using keeps_bind [OF keeps_send [OF assms, of n]] by (simp add: ends_def)
qed

lemma keeps_command: "scanner_command cmd \<Longrightarrow> keeps I (command cmd)"
proof (cases "cmd_mutates cmd")
  case True
  assume cmd: "scanner_command cmd"
  have "I (fst (snd (command cmd d ts)))" if "I d" for d ts
    using that True cmd settings_fixed [OF that] changed_ok [OF that] keeps_attempts [OF cmd, of 0 "cmd_attempts cmd"]
    by (cases "require_write s") (auto simp: command_def bind_def ends_def)
  then show ?thesis by (simp add: ends_def)
next
  case False
  assume "scanner_command cmd"
  with False show ?thesis by (simp add: command_def keeps_attempts)
qed

end

section \<open>What a command leaves alone\<close>

abbreviation idle :: "Device \<Rightarrow> bool" where
  "idle d \<equiv> dev_state d \<noteq> STREAMING"

text \<open>The part of the state that only the operation itself changes.\<close>

definition essentials :: "Device \<Rightarrow> Settings \<times> Configuration option \<times> DeviceStatus option \<times> string option \<times> bool \<times> transport_kind \<times> int \<times> bool" where
  "essentials d = (settings d, configuration d, info d, model d, is_open d,
     tr_kind (transport d), tr_baud (transport d), tr_opened (transport d))"

interpretation quiet: command_invariant "\<lambda>d. essentials d = k \<and> idle d" "fst k" for k
  by unfold_locales (auto simp: essentials_def)

lemma keeps_idle: "(\<And>k. keeps (\<lambda>d. essentials d = k \<and> idle d) m) \<Longrightarrow> keeps idle m"
  unfolding ends_def by blast

lemma make_configuration_wf: "make_configuration raw = Inr c \<Longrightarrow> well_formed_configuration c"
  by (auto simp: make_configuration_Inr well_formed_configuration_def)

lemmas idle_suspend = keeps_idle [OF quiet.keeps_suspend]
lemmas idle_sleep = keeps_idle [OF quiet.keeps_sleep]
lemmas idle_command = keeps_idle [OF quiet.keeps_command]

section \<open>Invariants of a session\<close>

text \<open>
  What happens between opening and closing: commands, changes of the baud rate, and what
  the device learns of the scanner.  Every step but the last starts from a state that is
  not \<open>STREAMING\<close>.
\<close>

locale session_invariant = command_invariant +
  assumes transport_ok: "I d \<Longrightarrow> tr_kind tr = tr_kind (transport d) \<Longrightarrow>
      tr_opened tr = tr_opened (transport d) \<Longrightarrow> I (d\<lparr>transport := tr\<rparr>)"
    and info_ok: "I d \<Longrightarrow> idle d \<Longrightarrow> I (d\<lparr>info := status\<rparr>)"
    and configuration_ok: "I d \<Longrightarrow> idle d \<Longrightarrow> well_formed_configuration conf \<Longrightarrow>
      I (d\<lparr>configuration := Some conf\<rparr>)"
    and model_ok: "I d \<Longrightarrow> I (d\<lparr>model := name\<rparr>)"
    and since_ok: "I d \<Longrightarrow> I (d\<lparr>stream_since := t\<rparr>)"
begin

abbreviation J :: "Device \<Rightarrow> bool" where
  "J d \<equiv> I d \<and> idle d"

lemmas session_suspend = ends_conj [OF keeps_suspend idle_suspend]
lemmas session_sleep = ends_conj [OF keeps_sleep idle_sleep]
lemmas session_command = ends_conj [OF keeps_command idle_command]

lemma session_goto: "st \<noteq> STREAMING \<Longrightarrow> keeps J (goto st)"
  unfolding goto_def by (rule ends_modify) (simp add: leave_ok)

lemma session_note: "keeps J (modify (device_note m))"
  by (rule ends_modify) (simp add: log_ok)

lemma session_read_configuration: "keeps J read_configuration"
  unfolding read_configuration_def
  by (rule keeps_bind, intro session_command scanner_command.intros, intro keeps_bind_result ends_modify)
    (simp add: configuration_ok make_configuration_wf)

lemma session_read_status: "keeps J read_status"
  unfolding read_status_def
  by (intro keeps_rules session_command session_goto scanner_command.intros) (simp_all add: info_ok)

lemma session_change_baud: "keeps J (change_baud rate)"
  unfolding change_baud_def
  by (intro keeps_bind ends_read_state keeps_from_result session_suspend keeps_update)
    (auto dest!: transport_set_baud_Inr intro!: transport_ok)

lemma session_run_command: "(\<And>cmd. c = Inr cmd \<Longrightarrow> scanner_command cmd) \<Longrightarrow> keeps J (run_command c)"
  unfolding run_command_def by (intro keeps_bind_result keeps_bind session_command ends_ret) simp_all

lemma session_run_mode: "keeps J (run_mode mode password)"
  unfolding run_mode_def
  by (intro keeps_bind_result keeps_bind session_command ends_ret) (auto intro: scanner_command.intros)

lemma session_detect: "keeps J (detect rates)"
proof (induction rates)
  case (Cons rate rates)
  show ?case
    unfolding detect.simps
    by (intro keeps_bind keeps_catch session_change_baud session_read_status session_note ends_ret
        ends_modify)
      (auto simp: reset_framer_def framer_ok Cons.IH intro!: ends_ret split: option.split)
qed (unfold detect.simps, rule ends_raise)

lemma session_identify: "keeps J identify"
  unfolding identify_def
  by (intro keeps_bind session_command scanner_command.intros)
    (auto intro!: ends_raise ends_modify simp: model_ok split: sum.split)

lemma session_start_reader: "keeps J (modify start_reader)"
proof (rule ends_modify)
  show "J (start_reader d)" if "J d" for d
    using that last_bytes_ok [OF reader_ok] by (simp add: start_reader_def)
qed

lemma session_connect_scanner: "keeps J connect_scanner"
  unfolding connect_scanner_def
  by (intro keeps_bind session_start_reader session_goto session_detect ends_read_state
      keeps_from_result session_identify session_read_configuration) simp_all

lemma session_connect_replay: "keeps J (connect_replay meta)"
proof -
  have "J (d\<lparr>info := Some st, model := Some m\<rparr>)" if "J d" for d st m
    using that model_ok [OF info_ok] by simp
  then show ?thesis
    unfolding connect_replay_def
    by (intro keeps_bind_result keeps_bind ends_modify session_goto)
      (auto simp: configuration_ok make_configuration_wf)
qed

lemma session_switch_baud: "keeps J switch_baud"
  unfolding switch_baud_def
  by (intro keeps_bind ends_read_state)
    (auto split: option.split intro!: ends_ret keeps_when keeps_bind session_goto session_run_command
      session_change_baud session_read_status keeps_from_result intro: scanner_command.intros)

lemma session_verify: "keeps J (verify desired)"
  unfolding verify_def
  by (intro keeps_bind session_goto session_read_configuration session_read_status ends_read_state
      keeps_from_result) simp_all

lemma session_configure: "keeps J (configure conf status)"
  unfolding configure_def Let_def
  by (intro keeps_bind keeps_from_result keeps_when ends_read_state session_goto session_run_mode
      session_switch_baud session_verify session_run_command)
    (auto intro: scanner_command.intros)

lemma session_initialize_scanner_upto:
  "keeps J (bind (run_mode ON_REQUEST p) (\<lambda>_. bind (configure conf status) (\<lambda>_. run_mode ON_REQUEST p)))"
  by (intro keeps_bind session_run_mode session_configure)

end

end
