(* ===== verification/Device_Invariants.thy ===== *)
theory Device_Invariants
  imports Device_Logic
begin

text \<open>
  From elementary updates to whole operations, second part: what an operation has
  established when it returns, and the locale of the invariants that survive every
  operation of the device.
\<close>

section \<open>What is known when an operation returns\<close>

text \<open>The scanner has confirmed the configuration the settings ask for.\<close>

definition verified :: "Settings \<Rightarrow> Device \<Rightarrow> bool" where
  "verified s d \<longleftrightarrow>
     (\<exists>c st. configuration d = Some c \<and> info d = Some st \<and> well_formed_configuration c \<and>
        conf_mode c = 2 \<and> conf_unit c = Inr (cfg_unit s) \<and> conf_indices c = cfg_indices s \<and>
        dev_angle st = cfg_angle s \<and> dev_resolution st = cfg_resolution s \<and>
        dev_unit st = cfg_unit s \<and> measuring_mode st = 2)"

interpretation linked: session_invariant "\<lambda>d. settings d = s \<and> is_open d \<and> is_replay (transport d) = b" s for s b
  by unfold_locales (auto simp: is_replay_def)

interpretation confirmed: command_invariant
  "\<lambda>d. settings d = s \<and> is_open d \<and> is_replay (transport d) = b \<and> verified s d" s for s b
  by unfold_locales (auto simp: is_replay_def verified_def)

lemma read_status_info: "on_return P read_status (\<lambda>st d. info d = Some st)"
  unfolding read_status_def
  by (rule on_return_then, rule on_return_then, rule on_return_then)
    (rule on_return_bind [OF on_return_modify [where P = "\<lambda>_. True"] on_return_ret], auto)

lemma readback_verified:
  assumes "updated c (cfg_unit s) (cfg_indices s) = Inr desired" "settings d = s"
    "info d = Some st" "readback_matches (settings d) desired (configuration d) st"
  shows "verified s d"
proof -
  from assms(4) obtain c' where c': "configuration d = Some c'" "conf_raw c' = conf_raw desired"
    by (auto simp: readback_matches_def split: option.splits)
  then have "c' = desired" by simp
  with c' assms updated_fields [OF assms(1)] show ?thesis
    by (auto simp: verified_def readback_matches_def)
qed

text \<open>The states of a session: open, with the settings it began with, not streaming.\<close>

abbreviation in_session :: "Settings \<Rightarrow> bool \<Rightarrow> Device \<Rightarrow> bool" where
  "in_session s b d \<equiv> (settings d = s \<and> is_open d \<and> is_replay (transport d) = b) \<and> idle d"

abbreviation in_verified :: "Settings \<Rightarrow> bool \<Rightarrow> Device \<Rightarrow> bool" where
  "in_verified s b d \<equiv> (settings d = s \<and> is_open d \<and> is_replay (transport d) = b \<and> verified s d) \<and> idle d"

lemma verify_returns:
  assumes "updated c (cfg_unit s) (cfg_indices s) = Inr desired"
  shows "on_return (in_session s b) (verify desired) (\<lambda>_. in_verified s b)"
proof -
  have status: "on_return (in_session s b) read_status (\<lambda>st d. in_session s b d \<and> info d = Some st)"
    using on_return_conj [OF on_return_ends [OF linked.session_read_status] read_status_info [where P = "\<lambda>_. True"]]
    by simp
  have check: "on_return (\<lambda>d. in_session s b d \<and> info d = Some st)
      (bind (read_state (\<lambda>d. readback_matches (settings d) desired (configuration d) st))
        (\<lambda>ok. from_result (require ok e))) (\<lambda>_. in_verified s b)" for st e
    using readback_verified [OF assms] by (auto simp: on_return_def from_result_eq split: sum.splits)
  show ?thesis
    unfolding verify_def
    by (rule on_return_bind [OF on_return_ends [OF linked.session_goto]], simp)
      (rule on_return_bind [OF on_return_ends [OF linked.session_read_configuration]]
         on_return_bind [OF status] check)+
qed

lemma configure_returns:
  "on_return (in_session s b) (configure conf status) (\<lambda>_. in_verified s b)"
proof -
  have session: "on_return (in_session s b) m (\<lambda>_. in_session s b)"
    if "keeps (in_session s b) m" for m :: "unit op"
    using that by (rule on_return_ends)
  have rest: "on_return (in_session s b)
     (bind (op_when (changes \<or> geometry)
       (bind (goto State.INSTALLATION) (\<lambda>_. run_mode Mode.INSTALLATION (cfg_password s)))) (\<lambda>_.
     bind switch_baud (\<lambda>_.
     bind (goto CONFIGURING) (\<lambda>_.
     bind (op_when geometry (run_command (variant (cfg_angle s) (cfg_resolution s)))) (\<lambda>_.
     bind (op_when changes (run_command (write_configuration (conf_raw desired)))) (\<lambda>_.
     verify desired)))))) (\<lambda>_. in_verified s b)"
    if "updated conf (cfg_unit s) (cfg_indices s) = Inr desired" for desired changes geometry
    by (intro on_return_bind [OF session] verify_returns [OF that] keeps_when keeps_bind
        linked.session_goto linked.session_run_mode linked.session_switch_baud linked.session_run_command)
      (auto intro: scanner_command.intros)
  show ?thesis
    unfolding configure_def Let_def
    by (rule on_return_read_const [where v = s], simp) (rule on_return_bind_result, erule rest)
qed

interpretation unlinked: session_invariant "\<lambda>d. settings d = s \<and> is_replay (transport d) = b" s for s b
  by unfold_locales (auto simp: is_replay_def)

lemma startup_delay_keeps: "keeps (\<lambda>d. (settings d = s \<and> is_replay (transport d) = b) \<and> idle d) startup_delay"
  unfolding startup_delay_def
  by (intro keeps_bind keeps_when ends_read_state unlinked.session_note unlinked.session_sleep) simp

lemma open_transport_returns:
  "on_return (\<lambda>d. (settings d = s \<and> is_replay (transport d) = b) \<and> idle d) open_transport
     (\<lambda>_. in_session s b)"
  unfolding open_transport_def
  by (rule on_return_bind [OF on_return_ends [OF unlinked.session_suspend]])
    (auto simp: on_return_def from_result_def is_replay_def dest!: transport_open_Inr split: sum.splits)

lemma connect_returns:
  "on_return (\<lambda>d. (settings d = s \<and> is_replay (transport d) = b) \<and> idle d) connect (\<lambda>_. in_session s b)"
proof -
  let ?P = "\<lambda>d. (settings d = s \<and> is_replay (transport d) = b) \<and> idle d"
  let ?link = "bind (read_state transport) (\<lambda>tr.
       if is_replay tr then bind (from_result (required (tr_metadata tr))) connect_replay
       else connect_scanner)"
  have prepare: "on_return ?P (modify prepare_connect) (\<lambda>_. ?P)"
    by (rule on_return_modify) (simp add: prepare_connect_def reset_framer_def)
  have link: "keeps (in_session s b) ?link"
    by (rule keeps_bind [OF ends_read_state])
      (intro ends_if keeps_bind_result linked.session_connect_replay linked.session_connect_scanner | assumption)+
  have closed: "on_return ?P (bind (modify prepare_connect) (\<lambda>_. bind startup_delay (\<lambda>_.
      bind open_transport (\<lambda>_. ?link)))) (\<lambda>_. in_session s b)"
    by (rule on_return_bind [OF prepare], rule on_return_bind [OF on_return_ends [OF startup_delay_keeps]],
        rule on_return_bind [OF open_transport_returns], rule on_return_ends [OF link])
  have eq: "connect d ts = bind (modify prepare_connect) (\<lambda>_. bind startup_delay (\<lambda>_.
      bind open_transport (\<lambda>_. ?link))) d ts" if "\<not> is_open d" for d ts
    using that unfolding connect_def by (simp only: bind_simps if_False)
  have opened: "connect d ts = (Done (), d, ts)" if "is_open d" for d ts
    using that unfolding connect_def by simp
  show ?thesis
  proof (rule on_returnI)
    fix d ts d' ts' and x :: unit
    assume d: "?P d" and c: "connect d ts = (Done x, d', ts')"
    show "in_session s b d'"
    proof (cases "is_open d")
      case True
      then show ?thesis using d c by (simp add: opened)
    next
      case False
      then show ?thesis using on_returnD [OF closed d] c eq by simp
    qed
  qed
qed

lemma initialize_scanner_parts:
  "initialize_scanner b d ts =
     bind (from_result (try_bind (assert_known d) (\<lambda>(status, conf).
       try_bind (check_scanner status (model d)) (\<lambda>_. Inr (status, conf)))))
     (\<lambda>(status, conf). bind (run_mode ON_REQUEST ''SICK_LMS'') (\<lambda>_.
        bind (configure conf status) (\<lambda>_.
        bind (run_mode ON_REQUEST ''SICK_LMS'') (\<lambda>_. begin_stream b)))) d ts"
  by (cases "assert_known d") (auto simp: initialize_scanner_def bind_def from_result_def
      split: sum.splits prod.splits)

lemma verified_run_mode: "keeps (in_verified s b) (run_mode mode password)"
  unfolding run_mode_def
  by (intro keeps_bind_result keeps_bind ends_ret
      ends_conj [OF confirmed.keeps_command idle_command]) (auto intro: scanner_command.intros)

text \<open>Up to the start of the stream: the state is one whose configuration is verified.\<close>

lemma prepared_returns:
  "on_return (in_session s b) (bind (run_mode ON_REQUEST p) (\<lambda>_. bind (configure conf status) (\<lambda>_.
     run_mode ON_REQUEST p))) (\<lambda>_. in_verified s b)"
  by (rule on_return_bind [OF on_return_ends [OF linked.session_run_mode]]
      on_return_bind [OF configure_returns] on_return_ends [OF verified_run_mode])+

section \<open>Invariants of every operation\<close>


text \<open>
  An invariant of the whole device also survives opening and closing.  Streaming begins
  only in an open device that replays a recording or whose scanner is \<open>verified\<close>.
\<close>

locale device_invariant = session_invariant +
  assumes open_ok: "I d \<Longrightarrow> idle d \<Longrightarrow> tr_kind tr = tr_kind (transport d) \<Longrightarrow> tr_opened tr \<Longrightarrow>
      I (d\<lparr>transport := tr, is_open := True\<rparr>)"
    and shut_ok: "I d \<Longrightarrow> idle d \<Longrightarrow> tr_kind tr = tr_kind (transport d) \<Longrightarrow> \<not> tr_opened tr \<Longrightarrow>
      I (d\<lparr>transport := tr\<rparr>)"
    and fresh_ok: "I d \<Longrightarrow> I (d\<lparr>last_error := None, last_telegram_index := None, scan_times := []\<rparr>)"
    and closed_ok: "I d \<Longrightarrow> idle d \<Longrightarrow> I (d\<lparr>is_open := False, changed := False\<rparr>)"
    and start_ok: "I d \<Longrightarrow> idle d \<Longrightarrow> is_open d \<Longrightarrow> is_replay (transport d) \<or> verified s d \<Longrightarrow>
      I (transition STREAMING d)"
begin

lemma prepare_connect_ok: "I d \<Longrightarrow> J (prepare_connect d)"
  using leave_ok [OF framer_ok [OF fresh_ok]] by (simp add: prepare_connect_def reset_framer_def)

lemma device_startup_delay: "keeps J startup_delay"
  unfolding startup_delay_def
  by (intro keeps_bind keeps_when ends_read_state session_note session_sleep) simp

lemma device_open_transport: "keeps J open_transport"
  unfolding open_transport_def
  by (rule keeps_bind [OF session_suspend], rule keeps_update)
    (auto dest!: transport_open_Inr intro!: open_ok)

lemma device_connect: "keeps J connect"
  unfolding connect_def
  by (intro keeps_bind ends_read_state ends_if ends_ret ends_modify keeps_bind_result keeps_from_result
      device_startup_delay device_open_transport session_connect_replay session_connect_scanner)
    (auto simp: prepare_connect_ok)

lemma device_stop_scanner: "keeps J stop_scanner"
  unfolding stop_scanner_def
  by (intro keeps_catch keeps_bind_result keeps_bind session_command session_note)
    (auto intro: scanner_command.intros)

lemma device_stop_reader: "keeps J stop_reader"
proof -
  have "keeps J (case a of Raised e \<Rightarrow> if e = CancelledError then ret () else raise e | _ \<Rightarrow> ret ())" for a
    by (cases a) (auto intro!: ends_ret ends_raise)
  then show ?thesis
    unfolding stop_reader_def
    by (intro keeps_bind ends_read_state ends_if ends_ret keeps_when ends_modify session_suspend)
      (auto simp: reader_ok)
qed

lemma device_close_transport: "keeps J close_transport"
proof -
  have "J (d\<lparr>transport := tr\<rparr>)" if "J d" "transport_close (transport d) a = Inr tr" for d a tr
    using that by (auto simp: transport_close_def intro!: shut_ok split: if_splits answer.splits)
  then show ?thesis
    unfolding close_transport_def by (rule keeps_bind [OF session_suspend keeps_update])
qed

lemma device_close_session: "keeps J close_session"
  unfolding close_session_def
  by (intro keeps_bind keeps_when ends_read_state ends_modify device_stop_scanner device_stop_reader
      device_close_transport session_goto) (auto simp: closed_ok)

lemma close_keeps: "ends I close_unlocked I" "keeps J close_unlocked"
proof -
  have closing: "J (fst (snd (close_unlocked d ts)))" if "I d" "is_open d" for d ts
  proof -
    have "J (transition STOPPING d)" using that(1) leave_ok by simp
    then have "J (fst (snd (close_session (transition STOPPING d) ts)))"
      using device_close_session unfolding ends_def by blast
    with that(2) show ?thesis by (simp add: close_unlocked_def goto_def)
  qed
  have "close_unlocked d ts = (Done (), d, ts)" if "\<not> is_open d" for d ts
    using that by (simp add: close_unlocked_def)
  with closing show "ends I close_unlocked I" "keeps J close_unlocked"
    unfolding ends_def by (metis fst_conv snd_conv)+
qed

lemma begin_stream_ok: "ends (\<lambda>d. I d \<and> in_verified s b d) (begin_stream go) I"
proof -
  have go: "ends (\<lambda>d. I d \<and> in_verified s b d) (goto STREAMING) I"
    unfolding goto_def by (rule ends_modify) (simp add: start_ok)
  have mode: "keeps (\<lambda>d. I d \<and> in_verified s b d) (run_mode mode p)" for mode p
    using ends_conj [OF session_run_mode verified_run_mode] by (rule ends_weaken) auto
  have "keeps (\<lambda>d. I d \<and> in_verified s b d) (goto STARTING)"
    "keeps (\<lambda>d. I d \<and> in_verified s b d) (modify (\<lambda>d. d\<lparr>stream_since := clock d\<rparr>))"
    unfolding goto_def by (auto intro!: ends_modify leave_ok since_ok simp: verified_def)
  then have "ends (\<lambda>d. I d \<and> in_verified s b d)
      (bind (goto STARTING) (\<lambda>_. bind (run_mode CONTINUOUS p) (\<lambda>_.
       bind (modify (\<lambda>d. d\<lparr>stream_since := clock d\<rparr>)) (\<lambda>_. goto STREAMING)))) I" for p
    using go mode by (intro ends_then) simp_all
  moreover have "ends (\<lambda>d. I d \<and> in_verified s b d) (goto CONNECTED) I"
    unfolding goto_def by (rule ends_modify) (simp add: leave_ok)
  ultimately show ?thesis unfolding begin_stream_def by (rule ends_if)
qed

lemma scanner_part_ok:
  "ends (\<lambda>d. I d \<and> in_session s b d) (bind (run_mode ON_REQUEST p) (\<lambda>_.
     bind (configure conf status) (\<lambda>_. bind (run_mode ON_REQUEST p) (\<lambda>_. begin_stream go)))) I"
proof -
  have mode: "keeps (\<lambda>d. I d \<and> in_session s b d) (run_mode ON_REQUEST p)"
    using ends_conj [OF session_run_mode linked.session_run_mode] by (rule ends_weaken) auto
  have mode': "keeps (\<lambda>d. I d \<and> in_verified s b d) (run_mode ON_REQUEST p)"
    using ends_conj [OF session_run_mode verified_run_mode] by (rule ends_weaken) auto
  have conf: "ends (\<lambda>d. I d \<and> in_session s b d) (configure conf status) I"
    using session_configure by (rule ends_weaken) auto
  have conf': "on_return (\<lambda>d. I d \<and> in_session s b d) (configure conf status) (\<lambda>_ d. I d \<and> in_verified s b d)"
    using on_return_conj [OF on_return_ends [OF conf] configure_returns [of s b]]
    by (rule on_return_weaken) auto
  have "ends (\<lambda>d. I d \<and> in_verified s b d) (bind (run_mode ON_REQUEST p) (\<lambda>_. begin_stream go)) I"
    by (rule ends_then [OF mode' _ begin_stream_ok]) simp
  then have "ends (\<lambda>d. I d \<and> in_session s b d) (bind (configure conf status) (\<lambda>_.
      bind (run_mode ON_REQUEST p) (\<lambda>_. begin_stream go))) I"
    by (rule ends_bind [OF conf conf'])
  then show ?thesis by (rule ends_then [OF mode, rotated]) simp
qed

lemma initialize_scanner_ok: "ends (\<lambda>d. I d \<and> in_session s b d) (initialize_scanner go) I"
  unfolding initialize_scanner_def case_prod_unfold
  by (rule ends_then [OF ends_read_state], assumption, simp, rule ends_then [OF keeps_from_result], simp,
      rule ends_then [OF ends_read_state], assumption, simp, rule ends_then [OF keeps_from_result], simp,
      rule scanner_part_ok)

lemma start_replay_ok: "ends (\<lambda>d. I d \<and> in_session s True d) start_replay I"
proof -
  have "I (start_reader (d\<lparr>stream_since := t\<rparr>))" if "I d" for d t
    using last_bytes_ok [OF reader_ok [OF since_ok [OF that]]] by (simp add: start_reader_def)
  then show ?thesis by (auto simp: ends_def start_replay_def goto_def start_ok)
qed

lemma initialize_body_ok: "ends J (initialize_body go) I"
proof -
  have "ends (\<lambda>d. J d \<and> is_replay (transport d) = b) (initialize_body go) I" for b
  proof -
    have c: "ends (\<lambda>d. J d \<and> is_replay (transport d) = b) connect I"
      using device_connect by (rule ends_weaken) auto
    have c': "on_return (\<lambda>d. J d \<and> is_replay (transport d) = b) connect (\<lambda>_ d. I d \<and> in_session s b d)"
      using on_return_conj [OF on_return_ends [OF device_connect] connect_returns [of s b]]
      by (rule on_return_weaken) (auto simp: settings_fixed)
    have "ends (\<lambda>d. I d \<and> in_session s b d) (bind (read_state (\<lambda>d. is_replay (transport d)))
        (\<lambda>replay. if replay then start_replay else initialize_scanner go)) I"
      using start_replay_ok initialize_scanner_ok [of b go] by (auto simp: ends_def)
    then show ?thesis unfolding initialize_body_def by (rule ends_bind [OF c c'])
  qed
  then show ?thesis by (simp add: ends_def)
qed

lemma initialize_ok: "keeps I (initialize go)"
proof -
  have handler: "keeps I ((bind close_unlocked (\<lambda>_. bind (goto FAULTED) (\<lambda>_. raise e))) :: unit op)" for e
    by (intro keeps_bind close_keeps ends_raise) (auto simp: goto_def intro!: ends_modify leave_ok)
  have body: "ends J (catch (initialize_body go) (\<lambda>_. True)
      (\<lambda>e. bind close_unlocked (\<lambda>_. bind (goto FAULTED) (\<lambda>_. raise e)))) I"
    by (rule ends_catch [OF initialize_body_ok handler])
  have "I (fst (snd (initialize go d ts)))" if "I d" for d ts
    using that body settings_fixed [OF that]
    by (cases "require_write s") (auto simp: initialize_def ends_def)
  then show ?thesis by (simp add: ends_def)
qed

lemma reconnect_ok: "keeps I reconnect"
  unfolding reconnect_def close_def
  by (intro keeps_bind close_keeps initialize_ok) (auto simp: goto_def intro!: ends_modify leave_ok)

lemma connect_ok: "keeps I connect"
proof -
  let ?rest = "bind startup_delay (\<lambda>_. bind open_transport (\<lambda>_. bind (read_state transport) (\<lambda>tr.
       if is_replay tr then bind (from_result (required (tr_metadata tr))) connect_replay
       else connect_scanner)))"
  have rest: "keeps J ?rest"
    by (intro keeps_bind ends_read_state ends_if keeps_bind_result device_startup_delay
        device_open_transport session_connect_replay session_connect_scanner) simp_all
  have "connect d ts = ?rest (prepare_connect d) ts" if "\<not> is_open d" for d ts
    using that unfolding connect_def by (simp only: bind_simps if_False)
  moreover have "connect d ts = (Done (), d, ts)" if "is_open d" for d ts
    using that unfolding connect_def by simp
  ultimately have "I (fst (snd (connect d ts)))" if "I d" for d ts
    using that prepare_connect_ok [OF that] rest unfolding ends_def
    by (cases "is_open d") auto
  then show ?thesis by (simp add: ends_def)
qed

end

end
