(* ===== verification/Device_Properties.thy ===== *)
theory Device_Properties
  imports Device_Invariants
begin

text \<open>
  The properties of the device: what it may send, what it believes, how an operation
  ends.  The invariants are interpretations of the locales of the two theories before;
  the requests of a client and the states between them are the relation \<open>at_rest\<close>.
\<close>

section \<open>Requests and the states between them\<close>

text \<open>The operations a client of the device can ask for.\<close>

datatype request = Cmd Command | Connect | Initialize bool | Close | Reconnect

fun perform :: "request \<Rightarrow> unit op" where
  "perform (Cmd cmd) = bind (command cmd) (\<lambda>_. ret ())"
| "perform Connect = connect"
| "perform (Initialize start_stream) = initialize start_stream"
| "perform Close = close"
| "perform Reconnect = reconnect"

fun valid_request :: "request \<Rightarrow> bool" where
  "valid_request (Cmd cmd) = scanner_command cmd"
| "valid_request _ = True"

text \<open>
  The states in which no operation is in progress: a new device, the reader at work, and
  the end of a request, with or without an exception.
\<close>

inductive at_rest :: "Settings \<Rightarrow> Device \<Rightarrow> bool" for s where
  created: "at_rest s (new_device s tr now)"
| reading: "at_rest s d \<Longrightarrow> at_rest s (reader_step r d)"
| waiting: "at_rest s d \<Longrightarrow> at_rest s (set_clock t d)"
| finished: "at_rest s d \<Longrightarrow> valid_request req \<Longrightarrow> perform req d ts = (out, d', ts') \<Longrightarrow>
    out \<noteq> Pending \<Longrightarrow> at_rest s d'"

context device_invariant
begin

lemma perform_ok: "valid_request req \<Longrightarrow> keeps I (perform req)"
  by (cases req) (auto intro!: keeps_bind ends_ret keeps_command initialize_ok reconnect_ok connect_ok
      simp: close_def close_keeps)

lemma at_rest_ok: "at_rest s d \<Longrightarrow> (\<And>tr now. I (new_device s tr now)) \<Longrightarrow> I d"
proof (induction rule: at_rest.induct)
  case (finished d req ts out d' ts')
  then show ?case using endsD [OF perform_ok] by blast
qed (auto intro: reader_step_ok clock_ok)

text \<open>The invariant holds at every suspension point and at the end of every request.\<close>

lemma throughout:
  assumes "at_rest s d" "valid_request req" "perform req d ts = (out, d', ts')"
    and "\<And>tr now. I (new_device s tr now)"
  shows "I d'"
  using endsD [OF perform_ok [OF assms(2)] _ assms(3)] at_rest_ok [OF assms(1)] assms(4) by blast

end

section \<open>Sending\<close>

text \<open>The state in which the wait for a written telegram begins.\<close>

definition sending :: "Command \<Rightarrow> nat \<Rightarrow> bytes \<Rightarrow> Device \<Rightarrow> Device" where
  "sending cmd n raw d = (device_note (send_note cmd n) (drain_events d))\<lparr>sent := sent d @ [raw]\<rparr>"

lemma sending_sel [simp]:
  "settings (sending cmd n raw d) = settings d" "transport (sending cmd n raw d) = transport d"
  "dev_state (sending cmd n raw d) = dev_state d" "dev_framer (sending cmd n raw d) = dev_framer d"
  "events (sending cmd n raw d) = []" "reader (sending cmd n raw d) = reader d"
  "clock (sending cmd n raw d) = clock d" "sent (sending cmd n raw d) = sent d @ [raw]"
  by (simp_all add: sending_def drain_events_def)

lemma send_attempt_eq:
  assumes "telegram cmd (cfg_address (settings d)) = Inr raw" "write_guard (transport d) = Inr ()"
  shows "send_attempt cmd n d ts =
    bind suspend (\<lambda>a. from_result (plain_answer a)) (sending cmd n raw d) ts"
  using assms by (simp add: send_attempt_def write_telegram_def sending_def drain_events_def)

lemma read_request_attempts: "read_request cmd \<Longrightarrow> cmd_attempts cmd = Suc (Suc (Suc 0))"
  by (auto simp: read_request_def command_defs)

lemma command_read: "read_request cmd \<Longrightarrow> command cmd = attempts_loop cmd 0 (Suc (Suc (Suc 0)))"
  by (simp add: command_def read_request_not_mutating read_request_attempts del: attempts_loop.simps)

section \<open>The invariants of the device\<close>

definition read_telegrams :: "Settings \<Rightarrow> bytes set" where
  "read_telegrams s = {w. \<exists>cmd. read_request cmd \<and> telegram cmd (cfg_address s) = Inr w}"

definition only_reads :: "Settings \<Rightarrow> Device \<Rightarrow> bool" where
  "only_reads s d \<longleftrightarrow>
     settings d = s \<and> (require_write s \<noteq> Inr () \<longrightarrow> set (sent d) \<subseteq> read_telegrams s \<and> \<not> changed d)"

definition in_bounds :: "Device \<Rightarrow> bool" where
  "in_bounds d \<longleftrightarrow> length (dev_log d) \<le> 200 \<and> length (events d) \<le> 64 \<and> length (scan_times d) \<le> 150"

definition traced :: "Device \<Rightarrow> bool" where
  "traced d \<longleftrightarrow> history d \<noteq> [] \<and> hd (history d) = DISCONNECTED \<and> last (history d) = dev_state d"

definition stream_verified :: "Settings \<Rightarrow> Device \<Rightarrow> bool" where
  "stream_verified s d \<longleftrightarrow>
     (dev_state d = STREAMING \<longrightarrow> is_open d \<and> (is_replay (transport d) \<or> verified s d))"

definition complete_scan :: "Scan \<Rightarrow> bool" where
  "complete_scan scan \<longleftrightarrow>
     validate_geometry (field_of_view scan) (scan_resolution scan) = Inr () \<and>
     scan_count scan = py_round (of_int (field_of_view scan) / scan_resolution scan) + 1 \<and>
     length (points scan) = nat (scan_count scan) \<and>
     (\<exists>frame. genuine (EvFrame frame) \<and> raw_telegram_hex scan = hex (frame_raw frame))"

definition in_sequence :: "Device \<Rightarrow> bool" where
  "in_sequence d \<longleftrightarrow>
     map sequence (delivered d) = map Suc [0..<received_scans (counters d)] \<and>
     latest d = (if delivered d = [] then None else Some (last (delivered d))) \<and>
     (\<forall>scan \<in> set (delivered d). complete_scan scan)"

interpretation log_buffer: drop_oldest 200 "deque_append 200 :: string list \<Rightarrow> string \<Rightarrow> string list"
  by (rule deque_append_drop_oldest) simp

interpretation time_buffer: drop_oldest 150 "deque_append 150 :: seconds list \<Rightarrow> seconds \<Rightarrow> seconds list"
  by (rule deque_append_drop_oldest) simp

interpretation event_queue: drop_oldest 64 "\<lambda>q e. events (queue_event e (d\<lparr>events := q\<rparr>))" for d
  by unfold_locales (auto simp: queue_event_def)

lemma queue_event_bounded: "length (events d) \<le> 64 \<Longrightarrow> length (events (queue_event e d)) \<le> 64"
  using event_queue.push_bounded [where d = d and q = "events d" and x = e] by simp

lemma queue_event_counters:
  "received_scans (counters (queue_event e d)) = received_scans (counters d)"
  by (simp add: queue_event_def one_unexpected_def)

lemma scanner_command_read: "scanner_command cmd \<Longrightarrow> \<not> cmd_mutates cmd \<Longrightarrow> read_request cmd"
  by (auto dest!: scanner_command_shape simp: command_shape_def split: list.splits if_splits)

lemma acceptable_sequence: "acceptable d scan \<Longrightarrow> sequence scan = received_scans (counters d) + 1"
  by (auto simp: acceptable_def dest: decode_scan_InrD)

lemma acceptable_complete: "acceptable d scan \<Longrightarrow> complete_scan scan"
proof -
  assume "acceptable d scan"
  then obtain frame reply conf stamp now and status :: DeviceStatus where
    frame: "genuine (EvFrame frame)" "response frame (cfg_address (settings d)) = Inr reply" and
    eq: "decode_scan reply (dev_angle status) (dev_resolution status) conf
      (received_scans (counters d) + 1) stamp now = Inr scan"
    by (auto simp: acceptable_def)
  have "resp_frame reply = frame" using response_InrD [OF frame(2)] by blast
  then show ?thesis using decode_scan_InrD [OF eq] frame(1) by (auto simp: complete_scan_def)
qed

lemma one_counters [simp]:
  "f \<in> {one_timeout, one_nak, one_malformed, one_unexpected} \<Longrightarrow> received_scans (f c) = received_scans c"
  by (auto simp: one_timeout_def one_nak_def one_malformed_def one_unexpected_def)

interpretation reading: device_invariant "only_reads s" s for s
  by unfold_locales
    (auto simp: only_reads_def read_telegrams_def dest: scanner_command_read)

interpretation bounded: device_invariant "\<lambda>d. settings d = s \<and> in_bounds d" s for s
  by unfold_locales
    (auto simp: in_bounds_def log_buffer.push_bounded time_buffer.push_bounded queue_event_bounded
      count_def [where d = d for d])

interpretation tracing: device_invariant "\<lambda>d. settings d = s \<and> traced d" s for s
  by unfold_locales (auto simp: traced_def)

interpretation streaming: device_invariant "\<lambda>d. settings d = s \<and> stream_verified s d" s for s
  by unfold_locales (auto simp: stream_verified_def verified_def is_replay_def)

interpretation sequencing: device_invariant "\<lambda>d. settings d = s \<and> in_sequence d" s for s
proof unfold_locales
  show "settings (accept_scan scan d) = s \<and> in_sequence (accept_scan scan d)"
    if "settings d = s \<and> in_sequence d" "acceptable d scan" for d scan
    using that acceptable_sequence [OF that(2)] acceptable_complete [OF that(2)]
    by (simp add: in_sequence_def) (simp add: accept_scan_def)
qed (auto simp: in_sequence_def queue_event_counters)

section \<open>Properties\<close>

text \<open>
  C1: a physical scanner that may not be written to is never written to.  Without the
  consent that \<open>require_write\<close> asks for, whatever requests are made, however they end,
  at every suspension point, every telegram the device has handed to its transport is a
  status, type or configuration request.
\<close>

theorem read_only_never_mutates:
  assumes "require_write s \<noteq> Inr ()" "at_rest s d" "valid_request req"
    "perform req d ts = (out, d', ts')"
  shows "set (sent d') \<subseteq> read_telegrams s \<and> \<not> changed d'"
proof -
  have "only_reads s d'"
    by (rule reading.throughout [OF assms(2-4)]) (simp add: only_reads_def new_device_def)
  with assms(1) show ?thesis by (simp add: only_reads_def)
qed

definition serial_settings :: Settings where
  "serial_settings = default_settings\<lparr>cfg_transport := SerialPort\<rparr>"

definition serial_device :: Device where
  "serial_device = new_device serial_settings ((new_transport SerialPort ''COM3'' 9600 True)\<lparr>tr_opened := True\<rparr>) 0"

lemma serial_device_sel [simp]:
  "settings serial_device = serial_settings" "sent serial_device = []"
  "write_guard (transport serial_device) = Inr ()"
  by (simp_all add: serial_device_def new_device_def new_transport_def write_guard_def)

lemma status_telegram: "telegram status_request 0 = Inr [2, 0, 1, 0, 0x31, 0x15, 0x12]"
  by (simp add: telegram_def command_defs encode_def MAX_PAYLOAD_def STX_def to_bytes2_def crc16_def
      crc16_step_def)

theorem read_only_never_mutates_witness:
  "\<exists>d'. perform (Cmd status_request) serial_device [] = (Pending, d', []) \<and>
     sent d' = [[2, 0, 1, 0, 0x31, 0x15, 0x12]] \<and> set (sent d') \<subseteq> read_telegrams serial_settings"
proof -
  have w: "require_write serial_settings \<noteq> Inr ()"
    by (simp add: require_write_def serial_settings_def default_settings_def physical_def)
  have rest: "at_rest serial_settings serial_device"
    unfolding serial_device_def by (rule created)
  obtain d' where d': "perform (Cmd status_request) serial_device [] = (Pending, d', [])"
    "sent d' = [[2, 0, 1, 0, 0x31, 0x15, 0x12]]"
    using send_attempt_eq [of status_request serial_device, OF _ serial_device_sel(3)] status_telegram
    by (simp add: command_read read_request_def bind_def serial_settings_def default_settings_def)
  have "set (sent d') \<subseteq> read_telegrams serial_settings \<and> \<not> changed d'"
    by (rule read_only_never_mutates [OF w rest _ d'(1)]) (simp add: scanner_command.intros)
  with d' show ?thesis by blast
qed

section \<open>Commands\<close>

text \<open>The reader and the waits never touch what has been sent, nor the mark of a change.\<close>

interpretation unsent: reader_invariant "\<lambda>d. settings d = s \<and> sent d = w \<and> changed d = c" s for s w c
  by unfold_locales auto

lemma suspend_sent:
  "suspend d ts = (out, d', ts') \<Longrightarrow> settings d' = settings d \<and> sent d' = sent d \<and> changed d' = changed d"
  using endsD [OF unsent.keeps_suspend [of "settings d" "sent d" "changed d"]] by blast

lemma sleep_sent:
  "sleep d ts = (out, d', ts') \<Longrightarrow> settings d' = settings d \<and> sent d' = sent d \<and> changed d' = changed d"
  using endsD [OF unsent.keeps_sleep [of "settings d" "sent d" "changed d"]] by blast

lemma reader_step_sent [simp]:
  "settings (reader_step r d) = settings d" "sent (reader_step r d) = sent d"
  "changed (reader_step r d) = changed d"
  using unsent.reader_step_ok [of d "settings d" "sent d" "changed d" r] by simp_all

lemma cmd_wait_sent:
  "cmd_wait cmd ack dl d ts = (ack', out, d', ts') \<Longrightarrow>
   settings d' = settings d \<and> sent d' = sent d \<and> changed d' = changed d"
  by (erule cmd_wait_settle [where J = "\<lambda>e. settings e = settings d \<and> sent e = sent d \<and> changed e = changed d"])
    (auto intro: unsent.keeps_sleep)

text \<open>
  Between two states, at least \<open>m\<close> and at most \<open>n\<close> copies of a telegram were sent and
  nothing else.
\<close>

definition sends :: "bytes \<Rightarrow> nat \<Rightarrow> nat \<Rightarrow> Device \<Rightarrow> Device \<Rightarrow> bool" where
  "sends raw m n d d' \<longleftrightarrow> settings d' = settings d \<and> changed d' = changed d \<and>
     (\<exists>k. m \<le> k \<and> k \<le> n \<and> sent d' = sent d @ replicate k raw)"

lemma sends_none:
  "settings d' = settings d \<and> sent d' = sent d \<and> changed d' = changed d \<Longrightarrow> sends raw 0 0 d d'"
  by (simp add: sends_def)

lemma sends_trans: "sends raw m n d e \<Longrightarrow> sends raw m' n' e d' \<Longrightarrow> sends raw (m + m') (n + n') d d'"
proof -
  assume a: "sends raw m n d e" and b: "sends raw m' n' e d'"
  from a obtain k where k: "m \<le> k" "k \<le> n" "sent e = sent d @ replicate k raw" by (auto simp: sends_def)
  from b obtain k' where k': "m' \<le> k'" "k' \<le> n'" "sent d' = sent e @ replicate k' raw"
    by (auto simp: sends_def)
  have "sent d' = sent d @ replicate (k + k') raw" using k k' by (simp add: replicate_add)
  moreover have "m + m' \<le> k + k'" "k + k' \<le> n + n'" using k k' by simp_all
  ultimately show ?thesis using a b unfolding sends_def by metis
qed

lemma sends_weaken: "sends raw m n d d' \<Longrightarrow> m' \<le> m \<Longrightarrow> n \<le> n' \<Longrightarrow> sends raw m' n' d d'"
  by (force simp: sends_def)

lemma send_attempt_sent:
  assumes "telegram cmd (cfg_address (settings d)) = Inr raw" "send_attempt cmd n d ts = (out, d', ts')"
  shows "sends raw (if out = Done () then 1 else 0) 1 d d'"
proof (cases "write_guard (transport d)")
  case (Inr u)
  have "sent d' = sent d @ [raw] \<and> settings d' = settings d \<and> changed d' = changed d"
    using assms(2) Inr unfolding send_attempt_eq [OF assms(1) Inr [unfolded unit_eq [of u]]]
    by (auto simp: bind_eq from_result_eq sending_def drain_events_def dest!: suspend_sent)
  then show ?thesis by (auto simp: sends_def intro: exI [of _ 1])
next
  case (Inl e)
  then show ?thesis
    using assms by (auto simp: send_attempt_def write_telegram_def drain_events_def sends_def)
qed

lemma handle_attempt_cases:
  assumes "handle_attempt cmd b again (ack, o2, d2, ts2) = (out, d', ts')"
  obtains "d' = d2" "ts' = ts2" "out = o2" | "d' = count one_timeout d2" "\<forall>x. out \<noteq> Done x"
    | "again d2 ts2 = (out, d', ts')" | "again (count one_timeout d2) ts2 = (out, d', ts')"
proof (cases o2)
  case (Raise e)
  with assms show ?thesis
    unfolding handle_attempt_def prod.case outcome.case
    by (cases "is_TimeoutError e"; cases b; cases "is_ProtocolError e \<and> \<not> is_DeviceError e") (auto intro: that)
qed (use assms in \<open>simp_all add: handle_attempt_def that(1)\<close>)

lemma attempts_sent:
  assumes "telegram cmd (cfg_address (settings d)) = Inr raw"
    "attempts_loop cmd n left d ts = (out, d', ts')"
  shows "sends raw (if \<exists>x. out = Done x then 1 else 0) left d d'"
  using assms
proof (induction left arbitrary: n d ts)
  case (Suc left)
  let ?again = "bind sleep (\<lambda>_. attempts_loop cmd (n + 1) left)"
  obtain o1 d1 ts1 where a: "send_attempt cmd n d ts = (o1, d1, ts1)" by (metis surj_pair)
  note first = send_attempt_sent [OF Suc.prems(1) a]
  show ?case
  proof (cases o1)
    case (Done u)
    obtain ack o2 d2 ts2 where w: "cmd_wait cmd False (clock d1 + cfg_ack_timeout (settings d1)) d1 ts1
        = (ack, o2, d2, ts2)" by (metis surj_pair)
    have d2: "sends raw 1 1 d d2"
      using sends_trans [OF first sends_none [OF cmd_wait_sent [OF w]]] Done by simp
    then have d2': "sends raw 1 1 d (count one_timeout d2)" by (simp add: sends_def)
    have retry: "sends raw 1 (Suc left) d d'"
      if r: "?again e ts2 = (out, d', ts')" and e: "sends raw 1 1 d e" for e
    proof -
      obtain o3 d3 ts3 where sl: "sleep e ts2 = (o3, d3, ts3)" by (metis surj_pair)
      have d3: "sends raw 1 1 d d3" using sends_trans [OF e sends_none [OF sleep_sent [OF sl]]] by simp
      show ?thesis
      proof (cases o3)
        case (Done u)
        with r sl have "attempts_loop cmd (n + 1) left d3 ts3 = (out, d', ts')" by (simp add: bind_def)
        from sends_trans [OF d3 Suc.IH [OF _ this]] Suc.prems(1) d3 show ?thesis
          by (auto simp: sends_def split: if_splits)
      qed (use r sl d3 in \<open>auto simp: bind_def sends_def\<close>)
    qed
    have "handle_attempt cmd (left = 0) ?again (ack, o2, d2, ts2) = (out, d', ts')"
      using Suc.prems(2) by (simp add: bind_def a Done w)
    then show ?thesis
      by (cases rule: handle_attempt_cases)
        (use retry d2 d2' in \<open>auto intro: sends_weaken\<close>)
  qed (use Suc.prems(2) a first in \<open>auto simp: bind_def intro: sends_weaken\<close>)
qed (auto simp: sends_def)

text \<open>
  C6: one call of \<^verbatim>\<open>command\<close> sends nothing but its own telegram, at most as often as its
  retry budget says, which is once for every command that changes the scanner; such a
  command is sent only with the consent that \<^verbatim>\<open>require_write\<close> asks for and leaves the
  device marked as changed.  A command that returns has been sent.
\<close>

theorem command_sends_within_budget:
  assumes "scanner_command cmd" "valid_settings (settings d)" "command cmd d ts = (out, d', ts')"
  shows "\<exists>raw k. telegram cmd (cfg_address (settings d)) = Inr raw \<and>
    sent d' = sent d @ replicate k raw \<and> k \<le> (if cmd_mutates cmd then 1 else 3) \<and>
    (cmd_mutates cmd \<and> 0 < k \<longrightarrow> require_write (settings d) = Inr () \<and> changed d') \<and>
    ((\<exists>x. out = Done x) \<longrightarrow> 0 < k)"
proof -
  note shape = scanner_command_shape [OF assms(1)]
  obtain raw where raw: "telegram cmd (cfg_address (settings d)) = Inr raw"
    using shape valid_address [OF assms(2)]
    by (elim command_shapeE) (use telegram_Inr [of cmd "cfg_address (settings d)"] in auto)
  let ?allowed = "cmd_mutates cmd \<longrightarrow> require_write (settings d) = Inr ()"
  let ?d = "if cmd_mutates cmd then d\<lparr>changed := True\<rparr> else d"
  show ?thesis
  proof (cases ?allowed)
    case True
    then have "attempts_loop cmd 0 (cmd_attempts cmd) ?d ts = (out, d', ts')"
      using assms(3) by (cases "cmd_mutates cmd") (simp_all add: command_def bind_def)
    from attempts_sent [OF _ this] raw
    have "sends raw (if \<exists>x. out = Done x then 1 else 0) (cmd_attempts cmd) ?d d'" by simp
    moreover have "cmd_attempts cmd = (if cmd_mutates cmd then 1 else 3)"
      using shape by (elim command_shapeE) simp
    ultimately show ?thesis
      using raw True by (fastforce simp: sends_def split: if_splits)
  next
    case False
    then have "d' = d \<and> (\<forall>x. out \<noteq> Done x)"
      using assms(3) by (cases "require_write (settings d)") (auto simp: command_def bind_def)
    then show ?thesis using raw by (auto intro!: exI [of _ "0::nat"])
  qed
qed

theorem command_sends_within_budget_witness:
  "\<exists>k. sent (fst (snd (command status_request serial_device []))) =
     replicate k [2, 0, 1, 0, 0x31, 0x15, 0x12] \<and> k \<le> 3"
proof -
  obtain out d' ts' where c: "command status_request serial_device [] = (out, d', ts')" by (metis surj_pair)
  have "valid_settings (settings serial_device)"
    by (simp add: valid_settings_def field_constraints_def validate_settings_def validate_geometry_def
        serial_settings_def default_settings_def BAUD_LITERALS_def)
  from command_sends_within_budget [OF scanner_command.intros(1) this c] c status_telegram show ?thesis
    by (auto simp: serial_settings_def default_settings_def command_defs)
qed

text \<open>What waits in the queue.\<close>

definition good_queue :: "Settings \<Rightarrow> Device \<Rightarrow> bool" where
  "good_queue s d \<longleftrightarrow> settings d = s \<and> list_all (queueable s) (events d)"

lemma good_queue_event: "good_queue s d \<Longrightarrow> queueable s e \<Longrightarrow> good_queue s (queue_event e d)"
  by (cases "events d") (auto simp: good_queue_def queue_event_def)

interpretation queueing: command_invariant "good_queue s" s for s
proof unfold_locales
  show "good_queue s (queue_event e d)" if "good_queue s d" "queueable s e" for d e
    using that by (rule good_queue_event)
  show "good_queue s (d\<lparr>events := drop n (events d)\<rparr>)" if "good_queue s d" for d n
    using that by (auto simp: good_queue_def list_all_iff dest: in_set_dropD)
qed (auto simp: good_queue_def)

lemma await_event_good:
  "await_event dl d ts = (Done ev, d', ts') \<Longrightarrow> good_queue s d \<Longrightarrow> queueable s ev \<and> good_queue s d'"
proof (induction ts arbitrary: d)
  case (Cons tick ts)
  have clock: "good_queue s (set_clock t d)" for t using Cons.prems(2) by (rule queueing.clock_ok)
  show ?case
  proof (cases tick)
    case (Read r)
    then show ?thesis using Cons queueing.reader_step_ok by simp
  next
    case (Resume t a)
    have pop: "queueable s e \<and> good_queue s ((set_clock t d)\<lparr>events := es\<rparr>)" if "events d = e # es" for e es
      using that clock [of t] by (simp add: good_queue_def)
    show ?thesis
      using Cons.prems(1) Cons.IH [OF _ clock] pop Resume
      by (auto simp: Let_def split: answer.splits if_splits list.splits)
  qed
qed simp

lemma get_event_good:
  "get_event dl d ts = (Done ev, d', ts') \<Longrightarrow> good_queue s d \<Longrightarrow> queueable s ev \<and> good_queue s d'"
proof (cases "events d")
  case Nil
  then show "get_event dl d ts = (Done ev, d', ts') \<Longrightarrow> good_queue s d \<Longrightarrow> ?thesis"
    using await_event_good by (simp add: get_event_def)
qed (auto simp: get_event_def good_queue_def)

definition answers :: "Command \<Rightarrow> Settings \<Rightarrow> Response \<Rightarrow> bool" where
  "answers cmd s reply \<longleftrightarrow> queueable s (QResponse reply) \<and>
     resp_command reply = cmd_response_id cmd \<and> confirm reply (cmd_payload cmd) = Inr ()"

lemma cmd_wait_answers:
  "cmd_wait cmd ack dl d ts = (ack', Done reply, d', ts') \<Longrightarrow> good_queue s d \<Longrightarrow> ack' \<and> answers cmd s reply"
proof (induction cmd ack dl d ts rule: cmd_wait.induct)
  case (1 cmd ack dl d ts)
  note step = "1.prems"(1) [unfolded cmd_wait.simps [of cmd ack dl d ts]]
  obtain o1 d1 ts1 where g: "get_event dl d ts = (o1, d1, ts1)" by (metis surj_pair)
  show ?case
  proof (cases "dl \<le> clock d")
    case late: False
    then obtain ev where ev: "o1 = Done ev" using step g by (cases o1) auto
    have good: "queueable s ev" "good_queue s d1"
      using get_event_good [OF _ "1.prems"(2)] g ev by auto
    show ?thesis
    proof (cases ev)
      case (QControl c)
      then show ?thesis
        using step g ev good late "1.IH"(1) [OF late g [symmetric] ev refl QControl]
        by (cases c) (auto simp: bind_eq split: if_splits)
    next
      case (QResponse r)
      show ?thesis
      proof (cases "resp_command r = cmd_response_id cmd \<and> ack")
        case True
        then show ?thesis
          using step g ev good late QResponse
          by (cases "confirm r (cmd_payload cmd)") (auto simp: answers_def)
      next
        case False
        then show ?thesis
          using step g ev good late QResponse
            "1.IH"(2) [OF late g [symmetric] ev refl QResponse False] queueing.count_ok
          by auto
      qed
    next
      case (QError e)
      then show ?thesis using step g ev late by simp
    qed
  qed (use step in simp)
qed

lemma send_attempt_good:
  assumes "send_attempt cmd n d ts = (Done u, d1, ts1)"
  shows "good_queue (settings d) d1"
proof -
  obtain raw where raw: "telegram cmd (cfg_address (settings d)) = Inr raw"
    using assms by (cases "telegram cmd (cfg_address (settings d))") (simp_all add: send_attempt_def drain_events_def)
  have guard: "write_guard (transport d) = Inr ()"
    using assms raw by (cases "write_guard (transport d)")
      (simp_all add: send_attempt_def write_telegram_def drain_events_def)
  have "good_queue (settings d) (sending cmd n raw d)" by (simp add: good_queue_def)
  then show ?thesis
    using assms unfolding send_attempt_eq [OF raw guard] bind_Done_eq
    by (auto simp: from_result_eq dest: endsD [OF queueing.keeps_suspend])
qed

lemma attempts_answers:
  "attempts_loop cmd n left d ts = (Done reply, d', ts') \<Longrightarrow> answers cmd (settings d) reply"
proof (induction left arbitrary: n d ts)
  case (Suc left)
  let ?again = "bind sleep (\<lambda>_. attempts_loop cmd (n + 1) left)"
  from Suc.prems obtain d1 ts1 where a: "send_attempt cmd n d ts = (Done (), d1, ts1)"
    and h: "handle_attempt cmd (left = 0) ?again
      (cmd_wait cmd False (clock d1 + cfg_ack_timeout (settings d1)) d1 ts1) = (Done reply, d', ts')"
    by (auto simp: bind_Done_eq)
  obtain ack o2 d2 ts2 where w: "cmd_wait cmd False (clock d1 + cfg_ack_timeout (settings d1)) d1 ts1
      = (ack, o2, d2, ts2)" by (metis surj_pair)
  have good: "good_queue (settings d) d1" using a by (rule send_attempt_good)
  then have d2: "settings d2 = settings d" using cmd_wait_sent [OF w] by (simp add: good_queue_def)
  have again: "answers cmd (settings d) reply"
    if r: "?again e ts2 = (Done reply, d', ts')" and e: "settings e = settings d" for e
  proof -
    obtain d3 ts3 where "sleep e ts2 = (Done (), d3, ts3)"
      "attempts_loop cmd (n + 1) left d3 ts3 = (Done reply, d', ts')"
      using r by (auto simp: bind_Done_eq)
    with Suc.IH sleep_sent e show ?thesis by metis
  qed
  from h [unfolded w] show ?case
  proof (cases rule: handle_attempt_cases)
    case 1
    then show ?thesis using w good cmd_wait_answers by blast
  qed (use again d2 in auto)
qed simp

lemma command_attempts:
  assumes "command cmd d ts = (Done reply, d', ts')"
  shows "\<exists>e. settings e = settings d \<and> attempts_loop cmd 0 (cmd_attempts cmd) e ts = (Done reply, d', ts')"
  using assms
  by (cases "cmd_mutates cmd"; cases "require_write (settings d)")
    (auto simp: command_def bind_def intro: exI [of _ "d\<lparr>changed := True\<rparr>"])

section \<open>Initialisation\<close>

lemma begin_stream_returns:
  "on_return (in_verified s b) (begin_stream go)
     (\<lambda>_ d. settings d = s \<and> is_open d \<and> is_replay (transport d) = b \<and> verified s d \<and>
        dev_state d = (if go then STREAMING else CONNECTED))"
proof -
  have last: "on_return (in_verified s b) (goto st)
     (\<lambda>_ d. settings d = s \<and> is_open d \<and> is_replay (transport d) = b \<and> verified s d \<and> dev_state d = st)" for st
    unfolding goto_def by (rule on_return_modify) (simp add: verified_def)
  have start: "on_return (in_verified s b) (goto STARTING) (\<lambda>_. in_verified s b)"
    "on_return (in_verified s b) (modify (\<lambda>d. d\<lparr>stream_since := clock d\<rparr>)) (\<lambda>_. in_verified s b)"
    unfolding goto_def by (auto intro!: on_return_modify simp: verified_def)
  have "on_return (in_verified s b) (bind (goto STARTING) (\<lambda>_. bind (run_mode CONTINUOUS p) (\<lambda>_.
      bind (modify (\<lambda>d. d\<lparr>stream_since := clock d\<rparr>)) (\<lambda>_. goto STREAMING))))
     (\<lambda>_ d. settings d = s \<and> is_open d \<and> is_replay (transport d) = b \<and> verified s d \<and> dev_state d = STREAMING)" for p
    by (rule on_return_bind [OF start(1)], rule on_return_bind [OF on_return_ends [OF verified_run_mode]],
        rule on_return_bind [OF start(2)], rule last)
  then show ?thesis unfolding begin_stream_def using last by simp
qed

lemma initialize_scanner_returns:
  "on_return (in_session s b) (initialize_scanner go)
     (\<lambda>_ d. settings d = s \<and> is_open d \<and> is_replay (transport d) = b \<and> verified s d \<and>
        dev_state d = (if go then STREAMING else CONNECTED))"
  unfolding initialize_scanner_def case_prod_unfold
  by (rule on_return_bind [OF on_return_ends [OF ends_read_state]], assumption,
      rule on_return_bind [OF on_return_ends [OF keeps_from_result]],
      rule on_return_bind [OF on_return_ends [OF ends_read_state]], assumption,
      rule on_return_bind [OF on_return_ends [OF keeps_from_result]],
      rule on_return_bind [OF on_return_ends [OF linked.session_run_mode]],
      rule on_return_bind [OF configure_returns],
      rule on_return_bind [OF on_return_ends [OF verified_run_mode]], rule begin_stream_returns)

lemma initialize_Done:
  assumes "initialize go d ts = (Done (), d', ts')" "idle d"
  shows "require_write (settings d) = Inr () \<and> initialize_body go d ts = (Done (), d', ts')"
proof (cases "require_write (settings d)")
  case (Inr u)
  then have "catch (initialize_body go) (\<lambda>_. True)
      (\<lambda>e. bind close_unlocked (\<lambda>_. bind (goto FAULTED) (\<lambda>_. raise e))) d ts = (Done (), d', ts')"
    using assms by (simp add: initialize_def)
  then show ?thesis using Inr by (auto simp: catch_eq bind_Done_eq)
qed (use assms in \<open>simp add: initialize_def\<close>)

text \<open>What is known after a close that returns.\<close>

lemma close_returns:
  assumes "close_unlocked d ts = (Done (), d', ts')" "is_open d"
  shows "\<not> is_open d' \<and> \<not> changed d' \<and> reader d' = NoReader \<and> dev_state d' = DISCONNECTED"
proof -
  have NoReader: "on_return P stop_reader (\<lambda>_ d. reader d = NoReader)" for P
    unfolding stop_reader_def
    by (auto simp: on_return_def bind_Done_eq)
  have idle_reader: "keeps (\<lambda>d. reader d = NoReader) suspend"
  proof (rule endsI)
    show "reader d' = NoReader" if "reader d = NoReader" "suspend d ts = (out, d', ts')" for d ts out d' ts'
      using that(2,1) by (induction d ts rule: suspend.induct) (auto simp: reader_step_def)
  qed
  have shut: "on_return (\<lambda>d. reader d = NoReader) close_transport (\<lambda>_ d. reader d = NoReader)"
    unfolding close_transport_def
    by (rule on_return_bind [OF on_return_ends [OF idle_reader]])
      (auto simp: on_return_def from_result_def split: sum.splits)
  have "on_return (\<lambda>_. True) close_session (\<lambda>_ d. \<not> is_open d \<and> \<not> changed d \<and> reader d = NoReader \<and>
      dev_state d = DISCONNECTED)"
    unfolding close_session_def
    by (rule on_return_then, rule on_return_then, rule on_return_bind [OF NoReader],
        rule on_return_bind [OF shut])
      (auto simp: on_return_def goto_def)
  moreover have "close_session (transition STOPPING d) ts = (Done (), d', ts')"
    using assms by (simp add: close_unlocked_def goto_def)
  ultimately show ?thesis by (auto dest: on_returnD)
qed

section \<open>Closing\<close>

interpretation silent: reader_invariant "\<lambda>d. settings d = s \<and> sent d = w" s for s w
  by unfold_locales auto

lemma stop_rest_silent:
  "keeps (\<lambda>d. settings d = s \<and> sent d = w) (bind stop_reader (\<lambda>_. bind close_transport (\<lambda>_.
     bind (modify (\<lambda>d. d\<lparr>is_open := False, changed := False\<rparr>)) (\<lambda>_. goto DISCONNECTED))))"
proof -
  have "keeps (\<lambda>d. settings d = s \<and> sent d = w)
     (case a of Raised e \<Rightarrow> if e = CancelledError then ret () else raise e | _ \<Rightarrow> ret ())" for a
    by (cases a) (auto intro!: ends_ret ends_raise)
  then show ?thesis
    unfolding stop_reader_def close_transport_def goto_def
    by (intro keeps_bind keeps_update ends_read_state ends_if ends_ret keeps_when ends_modify
        silent.keeps_suspend) auto
qed

definition stop_command :: Command where
  "stop_command = \<lparr>cmd_name = ''mode ON_REQUEST'', cmd_payload = [0x20, 0x25], cmd_response_id = 0xA0,
     cmd_timeout = 3, cmd_attempts = 1, cmd_mutates = True\<rparr>"

lemma stop_command_eq: "operating_mode ON_REQUEST p = Inr stop_command"
  by (simp add: operating_mode_def stop_command_def)

text \<open>A command with a single attempt to an open transport is sent exactly once.\<close>

lemma single_attempt_sent:
  assumes "telegram cmd (cfg_address (settings d)) = Inr raw" "write_guard (transport d) = Inr ()"
    "attempts_loop cmd n (Suc 0) d ts = (out, d', ts')"
  shows "settings d' = settings d \<and> sent d' = sent d @ [raw]"
proof -
  obtain o1 d1 ts1 where a: "send_attempt cmd n d ts = (o1, d1, ts1)" by (metis surj_pair)
  have d1: "settings d1 = settings d \<and> sent d1 = sent d @ [raw]"
    using a unfolding send_attempt_eq [OF assms(1,2)]
    by (auto simp: bind_eq from_result_eq dest!: suspend_sent)
  show ?thesis
  proof (cases o1)
    case (Done u)
    obtain ack o2 d2 ts2 where w: "cmd_wait cmd False (clock d1 + cfg_ack_timeout (settings d1)) d1 ts1
        = (ack, o2, d2, ts2)" by (metis surj_pair)
    have "d' = d2 \<or> d' = count one_timeout d2"
      using assms(3) a Done w by (auto simp: bind_def handle_attempt_def split: outcome.splits if_splits)
    then show ?thesis using cmd_wait_sent [OF w] d1 by auto
  qed (use assms(3) a d1 in \<open>auto simp: bind_def\<close>)
qed

lemma stop_scanner_sent:
  assumes "telegram stop_command (cfg_address (settings d)) = Inr raw" "write_guard (transport d) = Inr ()"
    "require_write (settings d) = Inr ()" "stop_scanner d ts = (out, d', ts')"
  shows "settings d' = settings d \<and> sent d' = sent d @ [raw]"
proof -
  obtain o1 d1 ts1 where c: "command stop_command d ts = (o1, d1, ts1)" by (metis surj_pair)
  have "attempts_loop stop_command 0 (Suc 0) (d\<lparr>changed := True\<rparr>) ts = (o1, d1, ts1)"
    using c assms(3) by (simp add: command_def bind_def stop_command_def)
  from single_attempt_sent [OF _ _ this, of raw] assms(1,2)
  have "settings d1 = settings d \<and> sent d1 = sent d @ [raw]" by simp
  moreover have "\<exists>m. d' = d1 \<or> d' = device_note m d1"
    using assms(4) c by (cases o1) (auto simp: stop_scanner_def stop_command_eq bind_def catch_def split: if_splits)
  ultimately show ?thesis by auto
qed

end
