(* ===== verification/Device_Exchange.thy ===== *)
theory Device_Exchange
  imports Device_Properties
begin

text \<open>
  The device at work with a scanner that answers: one command, one acknowledgement, one
  reply.  The lemma \<open>command_exchange\<close> is the step from which complete runs are built.
\<close>

section \<open>A device that waits for its scanner\<close>

definition ready :: "Device \<Rightarrow> bool" where
  "ready d \<longleftrightarrow> reader d = Running \<and> buffer (dev_framer d) = [] \<and> tr_opened (transport d) \<and>
     tr_kind (transport d) \<noteq> Replay \<and> dev_state d \<noteq> STREAMING \<and> valid_settings (settings d)"

text \<open>The scanner's acknowledgement and reply, as the bytes on the line.\<close>

definition reply_frame :: "bytes \<Rightarrow> int \<Rightarrow> bytes \<Rightarrow> Frame" where
  "reply_frame payload address raw = \<lparr>frame_address = address, frame_payload = payload, frame_raw = raw\<rparr>"

text \<open>
  The ticks of one exchange: the write completes, the answer arrives, the waiting command
  is woken.
\<close>

definition reading_of :: "seconds \<Rightarrow> bytes \<Rightarrow> tick" where
  "reading_of t data = Read \<lparr>read_at = t, utc_now = [], stamp_now = None, got = Chunk data\<rparr>"

definition exchange :: "seconds \<Rightarrow> bytes \<Rightarrow> tick list" where
  "exchange t raw = [Resume t Completed, reading_of t (control_byte ACK # raw), Resume t Completed]"

text \<open>A reply the command accepts.\<close>

definition good_reply :: "Settings \<Rightarrow> Command \<Rightarrow> bytes \<Rightarrow> Response \<Rightarrow> bool" where
  "good_reply s cmd raw reply \<longleftrightarrow>
     (\<exists>frame. genuine (EvFrame frame) \<and> frame_raw frame = raw \<and>
        response frame (cfg_address s) = Inr reply) \<and>
     resp_command reply = cmd_response_id cmd \<and> resp_command reply \<notin> {0xB0, 0x90, 0x91} \<and>
     confirm reply (cmd_payload cmd) = Inr ()"

lemma reader_step_exchange:
  assumes "ready d" "events d = []" "good_reply (settings d) cmd raw reply"
  shows "\<exists>d'. reader_step \<lparr>read_at = t, utc_now = u, stamp_now = x, got = Chunk (control_byte ACK # raw)\<rparr> d = d' \<and>
    ready d' \<and> events d' = [QControl ACK, QResponse reply] \<and> settings d' = settings d"
proof -
  from assms(3) obtain frame where frame: "genuine (EvFrame frame)" "frame_raw frame = raw"
    "response frame (cfg_address (settings d)) = Inr reply" and id: "resp_command reply \<notin> {0xB0, 0x90, 0x91}"
    by (auto simp: good_reply_def)
  define data where "data = control_byte ACK # raw"
  let ?r = "\<lparr>read_at = t, utc_now = u, stamp_now = x, got = Chunk (data)\<rparr>"
  let ?d = "set_clock t d"
  have start: "begin_read ?r d = ?d"
    using assms(1) by (simp add: begin_read_def Let_def ready_def is_replay_def)
  have "\<exists>g cs. feed_loop (Framing.extend (dev_framer d) (data)) = (g, [EvControl ACK, EvFrame frame], cs) \<and> buffer g = []"
    by (rule feed_loop_wire) (use assms(1) frame in \<open>auto simp: ready_def data_def\<close>)
  then obtain g cs where feed: "feed (dev_framer d) (data) = (g, [EvControl ACK, EvFrame frame], cs)"
    "buffer g = []" by (auto simp: feed_def)
  let ?e = "handle_all u [EvControl ACK, EvFrame frame] (?d\<lparr>last_bytes := clock ?d, dev_framer := g\<rparr>)"
  have e: "?e = ?d\<lparr>last_bytes := clock ?d, dev_framer := g, events := [QControl ACK, QResponse reply]\<rparr>"
    using frame id assms(2) by (simp add: handle_all_def queue_event_def)
  have read: "read_data u (data) ?d = ?e"
    using feed(1) by (simp add: read_data_def) (simp add: data_def)
  have "transport_read (transport ?d) (Chunk (data)) = Inr (data)"
    using assms(1) by (simp add: transport_read_def ready_def data_def)
  then have "reader_step ?r d = check_stream ?e"
    using assms(1) by (simp add: reader_step_def start finish_read_def read ready_def)
  also have "\<dots> = ?e" using assms(1) unfolding e by (simp add: check_stream_def Let_def ready_def)
  finally show ?thesis using e assms(1) feed(2) unfolding data_def by (auto simp: ready_def)
qed

lemma cmd_wait_exchange:
  assumes "ready d" "events d = []" "good_reply (settings d) cmd raw reply" "0 < cmd_timeout cmd" "clock d < dl"
  shows "\<exists>d'. (\<forall>ts. cmd_wait cmd False dl d
      (reading_of t (control_byte ACK # raw) # Resume t' Completed # ts) = (True, Done reply, d', ts)) \<and> ready d'"
proof -
  obtain d1 where d1: "reader_step \<lparr>read_at = t, utc_now = [], stamp_now = None,
      got = Chunk (control_byte ACK # raw)\<rparr> d = d1"
    "ready d1" "events d1 = [QControl ACK, QResponse reply]" "settings d1 = settings d"
    using reader_step_exchange [OF assms(1-3)] by blast
  let ?d2 = "(set_clock t' d1)\<lparr>events := [QResponse reply]\<rparr>"
  let ?dl = "clock ?d2 + cmd_timeout cmd * cfg_timeout_scale (settings ?d2)"
  have "cmd_wait cmd False dl d (reading_of t (control_byte ACK # raw) # Resume t' Completed # ts) =
      (True, Done reply, ?d2\<lparr>events := []\<rparr>, ts)" for ts
  proof -
  have "get_event dl d (reading_of t (control_byte ACK # raw) # Resume t' Completed # ts) = (Done (QControl ACK), ?d2, ts)"
    using assms(2) d1 by (simp add: get_event_def reading_of_def)
  then have "cmd_wait cmd False dl d (reading_of t (control_byte ACK # raw) # Resume t' Completed # ts) =
      cmd_wait cmd True ?dl ?d2 ts"
    using assms(5) by (simp add: cmd_wait.simps [of cmd False dl d])
  also have "\<dots> = (True, Done reply, ?d2\<lparr>events := []\<rparr>, ts)"
  proof -
    have "0 < cmd_timeout cmd * cfg_timeout_scale (settings ?d2)"
      using assms(1,4) d1(4) by (simp add: ready_def valid_settings_def field_constraints_def)
    then have "\<not> ?dl \<le> clock ?d2" by simp
    moreover have "get_event ?dl ?d2 ts = (Done (QResponse reply), ?d2\<lparr>events := []\<rparr>, ts)"
      by (simp add: get_event_def)
    ultimately show ?thesis
      using assms(3) by (simp add: cmd_wait.simps [of cmd True] good_reply_def del: Device.select_convs)
  qed
  finally show ?thesis .
  qed
  moreover have "ready (?d2\<lparr>events := []\<rparr>)" using d1(2) by (simp add: ready_def)
  ultimately show ?thesis by blast
qed

lemma scanner_command_timeout: "scanner_command cmd \<Longrightarrow> 0 < cmd_timeout cmd"
  by (cases rule: scanner_command.cases)
    (auto simp: command_defs try_bind_eq_Inr split: if_splits option.splits)

text \<open>One exchange with an answering scanner: the command returns the reply and the device is ready again.\<close>

lemma command_exchange:
  assumes "ready d" "scanner_command cmd" "cmd_mutates cmd \<longrightarrow> require_write (settings d) = Inr ()"
    "good_reply (settings d) cmd raw reply"
  shows "\<exists>d'. (\<forall>ts. command cmd d (exchange t raw @ ts) = (Done reply, d', ts)) \<and> ready d' \<and>
    essentials d' = essentials d \<and>
    (\<exists>tele. telegram cmd (cfg_address (settings d)) = Inr tele \<and> sent d' = sent d @ [tele])"
proof -
  note shape = scanner_command_shape [OF assms(2)]
  have valid: "valid_settings (settings d)" and idle: "idle d" using assms(1) by (simp_all add: ready_def)
  obtain tele where tele: "telegram cmd (cfg_address (settings d)) = Inr tele"
    using shape valid_address [OF valid]
    by (elim command_shapeE) (use telegram_Inr [of cmd "cfg_address (settings d)"] in auto)
  obtain left where left: "cmd_attempts cmd = Suc left"
    using shape by (elim command_shapeE) (cases "cmd_mutates cmd"; simp)
  let ?d = "if cmd_mutates cmd then d\<lparr>changed := True\<rparr> else d"
  have guard: "write_guard (transport ?d) = Inr ()"
    using assms(1) by (cases "tr_kind (transport d)") (auto simp: ready_def write_guard_def)
  let ?d1 = "set_clock t (sending cmd 0 tele ?d)"
  let ?dl = "clock ?d1 + cfg_ack_timeout (settings ?d1)"
  have sent: "send_attempt cmd 0 ?d (exchange t raw @ ts) =
      (Done (), ?d1, reading_of t (control_byte ACK # raw) # Resume t Completed # ts)" for ts
    using tele guard by (simp add: send_attempt_eq exchange_def bind_def plain_answer_def)
  have "ready ?d1" "events ?d1 = []" "settings ?d1 = settings d"
    using assms(1) by (auto simp: ready_def)
  moreover have "clock ?d1 < ?dl"
    using valid by (simp add: valid_settings_def field_constraints_def)
  ultimately obtain d' where w: "\<And>ts. cmd_wait cmd False ?dl ?d1
      (reading_of t (control_byte ACK # raw) # Resume t Completed # ts) = (True, Done reply, d', ts)" "ready d'"
    using cmd_wait_exchange [of ?d1 cmd raw reply ?dl t t] assms(4) scanner_command_timeout [OF assms(2)]
    by (metis (no_types, lifting))
  have "attempts_loop cmd 0 (cmd_attempts cmd) ?d (exchange t raw @ ts) = (Done reply, d', ts)" for ts
    unfolding left attempts_loop.simps bind_def sent using w(1) by (simp add: handle_attempt_def)
  then have c: "command cmd d (exchange t raw @ ts) = (Done reply, d', ts)" for ts
    using assms(3) by (cases "cmd_mutates cmd") (simp_all add: command_def bind_def)
  have "essentials d' = essentials d"
    using endsD [OF quiet.keeps_command [OF assms(2)] _ c, of "essentials d"] idle by simp
  moreover have "sent d' = sent d @ [tele]" using cmd_wait_sent [OF w(1)] by simp
  ultimately show ?thesis using c w(2) tele by blast
qed

end
