(* ===== verification/Simulator.thy ===== *)
theory Simulator
  imports Transports
begin

text \<open>
  The synthetic scanner of \<^verbatim>\<open>transports/simulator.py\<close>.  Its answers are the bytes it puts
  into its queue; \<^verbatim>\<open>await queue.put\<close> waits for room, so nothing is lost and the order is
  kept.  The delays (\<^verbatim>\<open>response_delay\<close>, the scan period) only take time.
\<close>

section \<open>State\<close>

definition default_raw :: bytes where
  "default_raw =
     (let data = replicate 34 0;
          data = data[2 := 0x46];
          data = data[5 := 2, 6 := 1];
          data = data[9 := 2, 10 := 2, 11 := 2];
          data = data[14 := 10, 15 := 10, 16 := 80, 17 := 100];
          data = data[19 := 10, 20 := 10, 21 := 80, 22 := 100];
          data = data[24 := 10, 25 := 10, 26 := 80, 27 := 100]
      in data[32 := 2])"

definition default_configuration :: Configuration where
  "default_configuration = \<lparr>conf_raw = default_raw\<rparr>"

record Simulator =
  sim_baud :: int
  sim_device_baud :: int
  sim_realtime :: bool
  sim_angle :: int
  sim_resolution :: rat
  sim_config :: Configuration
  sim_mode :: byte
  sim_status :: byte
  sim_commands :: "bytes list"
  nak_next :: nat
  silence_next :: nat
  omit_ack :: bool
  sim_incoming :: Framer
  sim_queue :: "bytes list"
  sim_pending :: bytes
  producing :: bool
  sim_scan_index :: nat
  sim_telegram_index :: nat

definition new_simulator :: "int \<Rightarrow> int \<Rightarrow> bool \<Rightarrow> Simulator" where
  "new_simulator baud device_baud realtime =
     \<lparr>sim_baud = baud, sim_device_baud = device_baud, sim_realtime = realtime, sim_angle = 180,
      sim_resolution = 1 / 2, sim_config = default_configuration, sim_mode = 0x25,
      sim_status = 0x10, sim_commands = [], nak_next = 0, silence_next = 0, omit_ack = False,
      sim_incoming = new_framer, sim_queue = [], sim_pending = [], producing = False,
      sim_scan_index = 0, sim_telegram_index = 0\<rparr>"

definition sim_open :: "Simulator \<Rightarrow> Simulator" where
  "sim_open m = m\<lparr>sim_queue := [], sim_pending := [], producing := True\<rparr>"

text \<open>An empty queue is waited for, in vain: \<^verbatim>\<open>wait_for\<close> times out and the read is empty.\<close>

definition sim_read :: "nat \<Rightarrow> Simulator \<Rightarrow> bytes result \<times> Simulator" where
  "sim_read limit m =
     (if \<not> producing m then (Inl (EOFError ''Simulator closed''), m)
      else if sim_pending m = [] \<and> sim_queue m = [] then (Inr [], m)
      else
        let available = (if sim_pending m = [] then hd (sim_queue m) else sim_pending m);
            rest = (if sim_pending m = [] then tl (sim_queue m) else sim_queue m) in
        (Inr (take limit available), m\<lparr>sim_pending := drop limit available, sim_queue := rest\<rparr>))"

section \<open>Emitting\<close>

fun fragments :: "nat list \<Rightarrow> bytes \<Rightarrow> bytes list" where
  "fragments [] data = (if data = [] then [] else [data])"
| "fragments (step # steps) data =
     (if data = [] then [] else take step data # fragments steps (drop step data))"

definition EMIT_STEPS :: "nat list" where
  "EMIT_STEPS = [1, 2, 7, 31, 128]"

definition emit :: "bytes \<Rightarrow> Simulator \<Rightarrow> Simulator" where
  "emit data m = m\<lparr>sim_queue := sim_queue m @ fragments EMIT_STEPS data\<rparr>"

section \<open>Answering\<close>

definition firmware_bytes :: bytes where
  "firmware_bytes = encode_ascii ''V02.10 ''"

text \<open>\<^verbatim>\<open>data[i : i + len(new)] = new\<close>\<close>

definition overwrite :: "nat \<Rightarrow> bytes \<Rightarrow> bytes \<Rightarrow> bytes" where
  "overwrite i new data = take i data @ new @ drop (i + length new) data"

definition status_baud_code :: "int \<Rightarrow> int option" where
  "status_baud_code baud = map_option fst (find (\<lambda>(k, v). v = baud) STATUS_BAUD_CODES)"

definition status_data :: "Simulator \<Rightarrow> bytes result" where
  "status_data m =
     (case status_baud_code (sim_device_baud m) of
        None \<Rightarrow> Inl StopIteration
      | Some code \<Rightarrow>
          try_bind (conf_unit (sim_config m)) (\<lambda>unit.
          let data = replicate 152 0;
              data = overwrite 0 firmware_bytes data;
              data = data[7 := sim_mode m];
              data = data[8 := (if uint (sim_status m) mod 8 \<ge> 3 then 1 else 0)];
              data = data[101 := conf_raw (sim_config m) ! 5];
              data = overwrite 106 (to_bytes2 (sim_angle m) @ to_bytes2 (py_round (sim_resolution m * 100))) data;
              data = overwrite 115 (to_bytes2 code) data;
              data = data[121 := (if unit = ''mm'' then 1 else 0)]
          in Inr (overwrite 123 firmware_bytes data)))"

definition identity_bytes :: bytes where
  "identity_bytes = 0xBA # encode_ascii ''LMS200;301063;V02.10 ''"

definition baud_of_code :: "byte \<Rightarrow> int option" where
  "baud_of_code code = map_option fst (find (\<lambda>(b, c). c = code) BAUD_CODES)"

text \<open>The \<^verbatim>\<open>20h\<close> telegrams: operating mode or baud rate.\<close>

definition answer_mode :: "bytes \<Rightarrow> Simulator \<Rightarrow> bytes \<times> int option \<times> Simulator" where
  "answer_mode payload m =
     (let code = payload ! 1 in
      if code = 0 \<and> drop 2 payload = encode_ascii ''SICK_LMS''
      then ([0xA0, 0], None, m\<lparr>sim_mode := 0\<rparr>)
      else if code \<in> {0x24, 0x25} \<and> length payload = 2
      then ([0xA0, 0], None, m\<lparr>sim_mode := code\<rparr>)
      else if code \<in> snd ` set BAUD_CODES \<and> length payload = 2
      then ([0xA0, 0], baud_of_code code, m)
      else ([0xA0, 1], None, m))"

definition answer_variant :: "bytes \<Rightarrow> Simulator \<Rightarrow> bytes \<times> Simulator" where
  "answer_variant payload m =
     (let angle = from_bytes (slice 1 3 payload);
          resolution = of_int (from_bytes (slice 3 5 payload)) / 100 in
      case validate_geometry angle resolution of
        Inr _ \<Rightarrow> ([0xBB, 1] @ drop 1 payload, m\<lparr>sim_angle := angle, sim_resolution := resolution\<rparr>)
      | Inl _ \<Rightarrow> ([0xBB, 0] @ drop 1 payload, m))"

text \<open>The reply without its status byte, the baud rate to change to, and the new state.\<close>

definition sim_answer :: "bytes \<Rightarrow> Simulator \<Rightarrow> (bytes \<times> int option \<times> Simulator) result" where
  "sim_answer payload m =
     (if payload = [0x31] then try_bind (status_data m) (\<lambda>data. Inr (0xB1 # data, None, m))
      else if payload = [0x3A] then Inr (identity_bytes, None, m)
      else if payload = [0x74] then Inr (0xF4 # conf_raw (sim_config m), None, m)
      else if take 1 payload = [0x20] \<and> 2 \<le> length payload then Inr (answer_mode payload m)
      else if take 1 payload = [0x3B] \<and> length payload = 5 \<and> sim_mode m \<in> {0, 0x25}
      then (case answer_variant payload m of (reply, m') \<Rightarrow> Inr (reply, None, m'))
      else if take 1 payload = [0x77] \<and> length payload \<in> {33, 35} \<and> sim_mode m = 0
      then try_bind (make_configuration (drop 1 payload)) (\<lambda>c.
             Inr ([0xF7, 1] @ conf_raw c, None, m\<lparr>sim_config := c\<rparr>))
      else Inr ([0x92], None, m))"

definition new_device_baud :: "int option \<Rightarrow> Simulator \<Rightarrow> Simulator" where
  "new_device_baud b m = (case b of None \<Rightarrow> m | Some baud \<Rightarrow> m\<lparr>sim_device_baud := baud\<rparr>)"

definition reply_to :: "bytes \<Rightarrow> Simulator \<Rightarrow> Simulator result" where
  "reply_to payload m =
     try_bind (sim_answer payload m) (\<lambda>(reply, baud, m1).
     let m2 = (if omit_ack m1 then m1 else emit [control_byte ACK] m1) in
     try_bind (encode (reply @ [sim_status m2]) 0x81) (\<lambda>raw.
     Inr (new_device_baud baud (emit raw m2))))"

fun sim_event :: "event \<Rightarrow> Simulator \<Rightarrow> Simulator result" where
  "sim_event (EvControl c) m = Inr m"
| "sim_event (EvFrame frame) m =
     (if frame_address frame \<notin> {0, 1} then Inr m
      else
        let m1 = m\<lparr>sim_commands := sim_commands m @ [frame_payload frame]\<rparr> in
        if silence_next m1 \<noteq> 0 then Inr (m1\<lparr>silence_next := silence_next m1 - 1\<rparr>)
        else if nak_next m1 \<noteq> 0
        then Inr (emit [control_byte NAK] (m1\<lparr>nak_next := nak_next m1 - 1\<rparr>))
        else reply_to (frame_payload frame) m1)"

fun sim_events :: "event list \<Rightarrow> Simulator \<Rightarrow> Simulator result" where
  "sim_events [] m = Inr m"
| "sim_events (e # es) m = try_bind (sim_event e m) (sim_events es)"

definition sim_write :: "bytes \<Rightarrow> Simulator \<Rightarrow> Simulator result" where
  "sim_write data m =
     (if sim_baud m \<noteq> sim_device_baud m then Inr m
      else case feed (sim_incoming m) data of
        (f, es, cs) \<Rightarrow> sim_events es (m\<lparr>sim_incoming := f\<rparr>))"

definition sim_set_baud :: "int \<Rightarrow> Simulator \<Rightarrow> Simulator" where
  "sim_set_baud baud m = m\<lparr>sim_baud := baud\<rparr>"

definition sim_close :: "Simulator \<Rightarrow> Simulator" where
  "sim_close m = m\<lparr>producing := False\<rparr>"

section \<open>Scans\<close>

text \<open>\<^verbatim>\<open>round\<close> on a float, to the even neighbour at a tie.\<close>

definition round_real :: "real \<Rightarrow> int" where
  "round_real x =
     (if x - of_int \<lfloor>x\<rfloor> = 1 / 2 then (if even \<lfloor>x\<rfloor> then \<lfloor>x\<rfloor> else \<lfloor>x\<rfloor> + 1) else round x)"

definition sim_distance :: "Simulator \<Rightarrow> nat \<Rightarrow> real" where
  "sim_distance m i =
     (let theta = radians (of_rat (of_int (180 - sim_angle m) / 2 + of_nat i * sim_resolution m));
          phase = real (sim_telegram_index m) / 30 in
      38 / 10 + 11 / 10 * sin (3 * theta + phase) + 35 / 100 * cos (7 * theta))"

definition sim_value :: "Simulator \<Rightarrow> real \<Rightarrow> nat \<Rightarrow> int" where
  "sim_value m scale i = round_real (sim_distance m i * scale)"

definition sim_count :: "Simulator \<Rightarrow> int" where
  "sim_count m = py_round (of_int (sim_angle m) / sim_resolution m) + 1"

definition scan_payload :: "Simulator \<Rightarrow> bytes result" where
  "scan_payload m =
     try_bind (conf_unit (sim_config m)) (\<lambda>unit.
     let header = (if unit = ''mm'' then sim_count m OR 0x4000 else sim_count m);
         scale = (if unit = ''mm'' then 1000 else 100) in
     Inr (0xB0 # to_bytes2 header @
        concat (map (\<lambda>i. to_bytes2 (sim_value m scale i)) [0..<nat (sim_count m)]) @
        (if conf_indices (sim_config m)
         then [word_of_nat (sim_scan_index m), word_of_nat (sim_telegram_index m)] else []) @
        [sim_status m]))"

definition scan_bytes :: "Simulator \<Rightarrow> (bytes \<times> Simulator) result" where
  "scan_bytes m =
     try_bind (scan_payload m) (\<lambda>payload.
     try_bind (encode payload 0x81) (\<lambda>raw.
     Inr (raw, m\<lparr>sim_scan_index := (sim_scan_index m + nat (py_round (1 / sim_resolution m))) mod 256,
                 sim_telegram_index := (sim_telegram_index m + 1) mod 256\<rparr>)))"

text \<open>One turn of \<^verbatim>\<open>_produce\<close>.\<close>

definition produce :: "Simulator \<Rightarrow> Simulator result" where
  "produce m =
     (if sim_mode m = 0x24 \<and> sim_baud m = sim_device_baud m
      then try_bind (scan_bytes m) (\<lambda>(raw, m'). Inr (emit raw m'))
      else Inr m)"

section \<open>Lemmas\<close>

lemma concat_fragments [simp]: "concat (fragments steps data) = data"
  by (induction steps data rule: fragments.induct) auto

lemma fragments_nonempty: "0 \<notin> set steps \<Longrightarrow> [] \<notin> set (fragments steps data)"
  by (induction steps data rule: fragments.induct) auto

lemma length_overwrite [simp]: "i + length new \<le> length data \<Longrightarrow> length (overwrite i new data) = length data"
  by (simp add: overwrite_def)

lemma nth_overwrite:
  "i + length new \<le> length data \<Longrightarrow>
   overwrite i new data ! k = (if i \<le> k \<and> k < i + length new then new ! (k - i) else data ! k)"
  by (auto simp: overwrite_def nth_append)

definition sim_ok :: "Simulator \<Rightarrow> bool" where
  "sim_ok m \<longleftrightarrow>
     well_formed_configuration (sim_config m) \<and> (\<exists>u. conf_unit (sim_config m) = Inr u) \<and>
     validate_geometry (sim_angle m) (sim_resolution m) = Inr () \<and>
     sim_device_baud m \<in> {9600, 19200, 38400, 500000} \<and> uint (sim_status m) mod 8 \<le> 4"

lemma sim_ok_new: "b \<in> {9600, 19200, 38400, 500000} \<Longrightarrow> sim_ok (new_simulator a b r)"
  by (simp add: sim_ok_def new_simulator_def default_configuration_def default_raw_def Let_def
      well_formed_configuration_def conf_unit_def geometry_cases)

lemma status_baud_code_Some:
  "b \<in> {9600, 19200, 38400, 500000} \<Longrightarrow>
   \<exists>code. status_baud_code b = Some code \<and> map_of STATUS_BAUD_CODES code = Some b \<and> 0 \<le> code \<and> code < 65536"
  by (auto simp: status_baud_code_def STATUS_BAUD_CODES_def)

lemma geometry_bytes:
  "validate_geometry a r = Inr () \<Longrightarrow> 0 \<le> a \<and> a < 65536 \<and>
   0 \<le> py_round (r * 100) \<and> py_round (r * 100) < 65536 \<and> of_int (py_round (r * 100)) / 100 = r"
  by (erule geometryE; hypsubst; simp)

lemma to_bytes2_value: "0 \<le> n \<Longrightarrow> n < 65536 \<Longrightarrow> uint (to_bytes2 n ! 0) + 256 * uint (to_bytes2 n ! 1) = n"
  using from_to_bytes2 [of n] by (simp add: to_bytes2_def)

lemma length_firmware [simp]: "length firmware_bytes = 7"
  by (simp add: firmware_bytes_def)

lemma decode_firmware: "decode_ascii firmware_bytes = Inr ''V02.10 ''"
  unfolding firmware_bytes_def by (rule decode_encode_ascii) simp

lemma status_data_layout:
  assumes "status_baud_code (sim_device_baud m) = Some code" "conf_unit (sim_config m) = Inr unit"
  obtains data where "status_data m = Inr data" "length data = 152" "take 7 data = firmware_bytes"
    "data ! 7 = sim_mode m" "data ! 8 = (if uint (sim_status m) mod 8 \<ge> 3 then 1 else 0)"
    "data ! 101 = conf_raw (sim_config m) ! 5"
    "data ! 106 = to_bytes2 (sim_angle m) ! 0" "data ! 107 = to_bytes2 (sim_angle m) ! 1"
    "data ! 108 = to_bytes2 (py_round (sim_resolution m * 100)) ! 0"
    "data ! 109 = to_bytes2 (py_round (sim_resolution m * 100)) ! 1"
    "data ! 115 = to_bytes2 code ! 0" "data ! 116 = to_bytes2 code ! 1"
    "data ! 118 = 0" "data ! 119 = 0" "data ! 121 = (if unit = ''mm'' then 1 else 0)"
proof -
  define d0 where "d0 = (overwrite 0 firmware_bytes (replicate 152 0))[7 := sim_mode m,
    8 := (if uint (sim_status m) mod 8 \<ge> 3 then 1 else 0), 101 := conf_raw (sim_config m) ! 5]"
  define d1 where "d1 = overwrite 106 (to_bytes2 (sim_angle m) @ to_bytes2 (py_round (sim_resolution m * 100))) d0"
  define d2 where "d2 = (overwrite 115 (to_bytes2 code) d1)[121 := (if unit = ''mm'' then 1 else 0)]"
  define data where "data = overwrite 123 firmware_bytes d2"
  have len: "length d0 = 152" "length d1 = 152" "length d2 = 152" "length data = 152"
    by (simp_all add: d0_def d1_def d2_def data_def)
  have "status_data m = Inr data"
    using assms by (simp add: status_data_def Let_def d0_def d1_def d2_def data_def)
  moreover have "take 7 data = firmware_bytes"
  proof (rule nth_equalityI)
    show "take 7 data ! i = firmware_bytes ! i" if "i < length (take 7 data)" for i
      using that len
      by (simp add: data_def d2_def d1_def nth_overwrite)
        (simp add: d0_def nth_overwrite)
  qed (simp add: len)
  ultimately show ?thesis
    by (rule that [OF _ len(4)])
      (use len in \<open>simp_all add: data_def d2_def d1_def nth_overwrite nth_append\<close>,
       simp_all add: d0_def nth_overwrite)
qed

definition sim_reported :: "Simulator \<Rightarrow> bytes \<Rightarrow> DeviceStatus" where
  "sim_reported m data =
     \<lparr>firmware = ''V02.10'', operating_mode_code = uint (sim_mode m),
      device_error = (if uint (sim_status m) mod 8 \<ge> 3 then 1 else 0), dev_angle = sim_angle m,
      dev_resolution = sim_resolution m, dev_baud = sim_device_baud m,
      dev_unit = (if conf_raw (sim_config m) ! 6 \<noteq> 0 then ''mm'' else ''cm''),
      measuring_mode = conf_mode (sim_config m), permanent_baud = False, dev_address = 0,
      raw_hex = hex data\<rparr>"

lemma strip_firmware: "strip ''V02.10 '' = ''V02.10''"
  by (simp add: strip_def is_space_def)

lemma status_decodes:
  assumes "sim_ok m"
  obtains data where "status_data m = Inr data" "length data = 152"
    "\<And>reply. resp_command reply = 0xB1 \<Longrightarrow> resp_data reply = data \<Longrightarrow>
       decode_status reply = Inr (sim_reported m data)"
proof -
  from assms obtain unit where unit: "conf_unit (sim_config m) = Inr unit"
    and geo: "validate_geometry (sim_angle m) (sim_resolution m) = Inr ()"
    and baud: "sim_device_baud m \<in> {9600, 19200, 38400, 500000}" by (auto simp: sim_ok_def)
  obtain code where code: "status_baud_code (sim_device_baud m) = Some code"
    "map_of STATUS_BAUD_CODES code = Some (sim_device_baud m)" "0 \<le> code" "code < 65536"
    using status_baud_code_Some [OF baud] by blast
  have name: "unit = (if conf_raw (sim_config m) ! 6 \<noteq> 0 then ''mm'' else ''cm'')"
    using unit by (auto simp: conf_unit_def split: if_splits)
  from code(1) unit obtain data where data: "status_data m = Inr data" "length data = 152"
    "take 7 data = firmware_bytes" "data ! 7 = sim_mode m"
    "data ! 8 = (if uint (sim_status m) mod 8 \<ge> 3 then 1 else 0)"
    "data ! 101 = conf_raw (sim_config m) ! 5"
    "data ! 106 = to_bytes2 (sim_angle m) ! 0" "data ! 107 = to_bytes2 (sim_angle m) ! 1"
    "data ! 108 = to_bytes2 (py_round (sim_resolution m * 100)) ! 0"
    "data ! 109 = to_bytes2 (py_round (sim_resolution m * 100)) ! 1"
    "data ! 115 = to_bytes2 code ! 0" "data ! 116 = to_bytes2 code ! 1"
    "data ! 118 = 0" "data ! 119 = 0" "data ! 121 = (if unit = ''mm'' then 1 else 0)"
    by (rule status_data_layout) blast
  note g = geometry_bytes [OF geo]
  have H: "unpack_H data 106 = sim_angle m" "unpack_H data 108 = py_round (sim_resolution m * 100)"
    "unpack_H data 115 = code"
    using to_bytes2_value [of "sim_angle m"] to_bytes2_value [of "py_round (sim_resolution m * 100)"]
      to_bytes2_value [of code] g code(3,4)
    by (simp_all add: unpack_H_def data(7-12))
  have "decode_status reply = Inr (sim_reported m data)"
    if "resp_command reply = 0xB1" "resp_data reply = data" for reply
    using that g geo
    by (simp add: decode_status_def data H code(2) decode_firmware strip_firmware sim_reported_def
        conf_mode_def name)
  with data(1,2) show ?thesis by (rule that)
qed

section \<open>Properties\<close>

text \<open>
  The simulator's status block and the device's decoder agree: in every well-formed
  state the block decodes to the simulator's own mode, geometry, baud rate, unit and
  measuring mode.
\<close>

theorem simulator_status_roundtrip:
  assumes "sim_ok m"
  shows "\<exists>data. status_data m = Inr data \<and>
    (\<forall>status frame. decode_status \<lparr>resp_command = 0xB1, resp_data = data, resp_status = status, resp_frame = frame\<rparr> =
       Inr \<lparr>firmware = ''V02.10'', operating_mode_code = uint (sim_mode m),
         device_error = (if uint (sim_status m) mod 8 \<ge> 3 then 1 else 0), dev_angle = sim_angle m,
         dev_resolution = sim_resolution m, dev_baud = sim_device_baud m,
         dev_unit = (if conf_raw (sim_config m) ! 6 \<noteq> 0 then ''mm'' else ''cm''),
         measuring_mode = conf_mode (sim_config m), permanent_baud = False, dev_address = 0,
         raw_hex = hex data\<rparr>)"
proof -
  obtain data where "status_data m = Inr data"
    "\<And>reply. resp_command reply = 0xB1 \<Longrightarrow> resp_data reply = data \<Longrightarrow>
       decode_status reply = Inr (sim_reported m data)"
    using status_decodes [OF assms] by metis
  then show ?thesis by (simp add: sim_reported_def)
qed

theorem simulator_status_roundtrip_witness:
  "\<exists>data. status_data (new_simulator 9600 9600 True) = Inr data \<and>
    (\<forall>status frame. decode_status \<lparr>resp_command = 0xB1, resp_data = data, resp_status = status, resp_frame = frame\<rparr> =
       Inr \<lparr>firmware = ''V02.10'', operating_mode_code = 0x25, device_error = 0, dev_angle = 180,
         dev_resolution = 1 / 2, dev_baud = 9600, dev_unit = ''mm'', measuring_mode = 2,
         permanent_baud = False, dev_address = 0, raw_hex = hex data\<rparr>)"
proof -
  have "sim_ok (new_simulator 9600 9600 True)" by (rule sim_ok_new) simp
  from simulator_status_roundtrip [OF this] show ?thesis
    by (simp add: new_simulator_def default_configuration_def default_raw_def Let_def conf_mode_def)
qed

end
