(* ===== verification/Device_Simulation.thy ===== *)
theory Device_Simulation
  imports Device_Exchange Simulator
begin

text \<open>
  The device and the simulated scanner, run against each other.  The telegrams the device
  writes are given to the simulator, the bytes the simulator emits are what the device
  reads; \<open>plays\<close> is this coupling, and the lemmas follow the code of \<^verbatim>\<open>initialize\<close> command by
  command.
\<close>

section \<open>Runs of the device and the simulator together\<close>

fun sim_run :: "bytes list \<Rightarrow> Simulator \<Rightarrow> Simulator result" where
  "sim_run [] m = Inr m"
| "sim_run (w # ws) m = try_bind (sim_write w m) (sim_run ws)"

lemma sim_run_append: "sim_run (v @ w) m = try_bind (sim_run v m) (sim_run w)"
  by (induction v arbitrary: m) (auto simp: try_bind_def split: sum.split)

fun received :: "tick list \<Rightarrow> bytes" where
  "received [] = []"
| "received (Read r # ts) = (case got r of Chunk data \<Rightarrow> data | _ \<Rightarrow> []) @ received ts"
| "received (Resume t a # ts) = received ts"

lemma received_append [simp]: "received (xs @ ys) = received xs @ received ys"
  by (induction xs rule: received.induct) auto

text \<open>
  \<open>plays p x d m d' m'\<close>: on some ticks the operation \<open>p\<close> returns \<open>x\<close> and takes the device
  from \<open>d\<close> to \<open>d'\<close>; the telegrams it writes take the simulator from \<open>m\<close> to \<open>m'\<close>, and the
  bytes it reads are those the simulator emits.
\<close>

definition plays :: "'a op \<Rightarrow> 'a \<Rightarrow> Device \<Rightarrow> Simulator \<Rightarrow> Device \<Rightarrow> Simulator \<Rightarrow> bool" where
  "plays p x d m d' m' \<longleftrightarrow>
     (\<exists>tape ws. (\<forall>ts. p d (tape @ ts) = (Done x, d', ts)) \<and> sent d' = sent d @ ws \<and>
        sim_run ws m = Inr m' \<and> concat (sim_queue m') = concat (sim_queue m) @ received tape)"

lemma playsI:
  "(\<And>ts. p d (tape @ ts) = (Done x, d', ts)) \<Longrightarrow> sent d' = sent d @ ws \<Longrightarrow> sim_run ws m = Inr m' \<Longrightarrow>
   concat (sim_queue m') = concat (sim_queue m) @ received tape \<Longrightarrow> plays p x d m d' m'"
  unfolding plays_def by blast

lemma plays_silent:
  "(\<And>ts. p d (tape @ ts) = (Done x, d', ts)) \<Longrightarrow> received tape = [] \<Longrightarrow> sent d' = sent d \<Longrightarrow> plays p x d m d' m"
  by (rule playsI [where tape = tape and ws = "[]"]) simp_all

lemma plays_bind:
  assumes "plays p x d m d1 m1" "plays (f x) y d1 m1 d2 m2"
  shows "plays (bind p f) y d m d2 m2"
proof -
  from assms(1) obtain tape ws where 1: "\<And>ts. p d (tape @ ts) = (Done x, d1, ts)" "sent d1 = sent d @ ws"
    "sim_run ws m = Inr m1" "concat (sim_queue m1) = concat (sim_queue m) @ received tape"
    unfolding plays_def by blast
  from assms(2) obtain tape' ws' where 2: "\<And>ts. f x d1 (tape' @ ts) = (Done y, d2, ts)" "sent d2 = sent d1 @ ws'"
    "sim_run ws' m1 = Inr m2" "concat (sim_queue m2) = concat (sim_queue m1) @ received tape'"
    unfolding plays_def by blast
  show ?thesis
    by (rule playsI [where tape = "tape @ tape'" and ws = "ws @ ws'"])
      (use 1 2 in \<open>simp_all add: bind_Done sim_run_append\<close>)
qed

lemma plays_ret: "plays (ret x) x d m d m"
  by (rule plays_silent [where tape = "[]"]) simp_all

lemma plays_result: "r = Inr x \<Longrightarrow> plays (from_result r) x d m d m"
  by (simp add: plays_ret)

lemma plays_read: "plays (read_state g) (g d) d m d m"
  by (rule plays_silent [where tape = "[]"]) simp_all

lemma plays_bind_read: "plays (f (g d)) y d m d' m' \<Longrightarrow> plays (bind (read_state g) f) y d m d' m'"
  by (rule plays_bind [OF plays_read])

lemma plays_modify: "f d = d' \<Longrightarrow> sent d' = sent d \<Longrightarrow> plays (modify f) () d m d' m"
  by (rule plays_silent [where tape = "[]"]) simp_all

lemma plays_modify_ret:
  "f d = d' \<Longrightarrow> sent d' = sent d \<Longrightarrow> plays (bind (modify f) (\<lambda>_. ret x)) x d m d' m"
  by (rule plays_silent [where tape = "[]"]) simp_all

lemma plays_goto: "plays (goto st) () d m (transition st d) m"
  unfolding goto_def by (rule plays_modify) simp_all

section \<open>The simulator answers\<close>

text \<open>A simulator on the right baud rate, without injected faults, between two telegrams.\<close>

definition listening :: "Simulator \<Rightarrow> bool" where
  "listening m \<longleftrightarrow> sim_ok m \<and> sim_baud m = sim_device_baud m \<and> nak_next m = 0 \<and> silence_next m = 0 \<and>
     \<not> omit_ack m \<and> buffer (sim_incoming m) = []"

definition sim_core :: "Simulator \<Rightarrow> int \<times> int \<times> int \<times> rat \<times> Configuration \<times> byte \<times> byte" where
  "sim_core m = (sim_baud m, sim_device_baud m, sim_angle m, sim_resolution m, sim_config m, sim_mode m, sim_status m)"

definition sim_line :: "Simulator \<Rightarrow> nat \<times> nat \<times> bool \<times> bytes list \<times> Framer" where
  "sim_line m = (nak_next m, silence_next m, omit_ack m, sim_queue m, sim_incoming m)"

lemma sim_ok_core: "sim_core m = sim_core m' \<Longrightarrow> sim_ok m = sim_ok m'"
  by (simp add: sim_ok_def sim_core_def)

lemma emit_sel [simp]:
  "sim_core (emit data m) = sim_core m" "sim_incoming (emit data m) = sim_incoming m"
  "nak_next (emit data m) = nak_next m" "silence_next (emit data m) = silence_next m"
  "omit_ack (emit data m) = omit_ack m" "sim_status (emit data m) = sim_status m"
  "concat (sim_queue (emit data m)) = concat (sim_queue m) @ data"
  by (simp_all add: emit_def sim_core_def)

text \<open>One telegram to a listening simulator: it is acknowledged and answered.\<close>

lemma sim_write_answers:
  assumes "listening m" "telegram cmd address = Inr tele" "address \<in> {0, 1}"
    and ans: "\<And>h. sim_core h = sim_core m \<Longrightarrow> sim_answer (cmd_payload cmd) h = Inr (reply, None, upd h)"
    and line: "\<And>h. sim_line (upd h) = sim_line h"
    and core: "\<And>h. sim_core h = sim_core m \<Longrightarrow> sim_core (upd h) = sim_core (upd m)"
    and ok: "sim_ok (upd m)" "sim_baud (upd m) = sim_device_baud (upd m)"
    and raw: "encode (reply @ [sim_status (upd m)]) 0x81 = Inr raw"
  shows "\<exists>m'. sim_write tele m = Inr m' \<and> listening m' \<and> sim_core m' = sim_core (upd m) \<and>
    concat (sim_queue m') = concat (sim_queue m) @ control_byte ACK # raw"
proof -
  let ?p = "cmd_payload cmd"
  define frame where "frame = \<lparr>frame_address = address, frame_payload = ?p, frame_raw = tele\<rparr>"
  have "encode ?p address = Inr tele" using assms(2) by (simp add: telegram_def split: if_splits)
  then have "\<exists>g cs. feed_loop (Framing.extend (sim_incoming m) tele) = (g, [EvFrame frame], cs) \<and> buffer g = []"
    using assms(1) by (intro feed_loop_wire) (simp_all add: frame_def listening_def)
  then obtain f cs where feed: "feed (sim_incoming m) tele = (f, [EvFrame frame], cs)" "buffer f = []"
    by (auto simp: feed_def)
  define h where "h = m\<lparr>sim_incoming := f, sim_commands := sim_commands m @ [?p]\<rparr>"
  have h: "sim_core h = sim_core m" by (simp add: h_def sim_core_def)
  have "sim_line (upd h) = sim_line h" by (rule line)
  then have u: "sim_queue (upd h) = sim_queue m" "sim_incoming (upd h) = f" "nak_next (upd h) = 0"
    "silence_next (upd h) = 0" "\<not> omit_ack (upd h)"
    using assms(1) by (simp_all add: sim_line_def h_def listening_def)
  have uc: "sim_core (upd h) = sim_core (upd m)" using core [OF h] .
  then have st: "sim_status (upd h) = sim_status (upd m)" "sim_baud (upd h) = sim_device_baud (upd h)"
    using ok(2) by (simp_all add: sim_core_def)
  let ?m' = "emit raw (emit [control_byte ACK] (upd h))"
  have "reply_to ?p h = Inr ?m'"
    using raw u(5) by (simp add: reply_to_def ans [OF h] st new_device_baud_def)
  moreover have "sim_write tele m = reply_to ?p h"
    using assms(1,3) feed by (auto simp: sim_write_def listening_def frame_def Let_def h_def try_bind_def split: sum.split)
  moreover have "listening ?m'"
  proof -
    have "sim_ok ?m'" using ok(1) sim_ok_core [of ?m' "upd m"] uc by simp
    moreover have "sim_baud ?m' = sim_device_baud ?m'" using st(2) by (simp add: emit_def)
    ultimately show ?thesis using u feed(2) by (simp add: listening_def)
  qed
  ultimately show ?thesis using u uc by (intro exI [of _ ?m']) simp
qed

lemma received_exchange [simp]: "received (exchange t raw) = control_byte ACK # raw"
  by (simp add: exchange_def reading_of_def)

lemma reply_encodes:
  "length reply \<le> 200 \<Longrightarrow> \<exists>raw. encode (reply @ [st]) 0x81 = Inr raw"
  using encode_Inr_iff [of "reply @ [st]" "0x81"] by (simp add: well_sized_def MAX_PAYLOAD_def)

text \<open>A command of the device, answered by the simulator.\<close>

lemma plays_command:
  assumes "ready d" "listening m" "scanner_command cmd" "require_write (settings d) = Inr ()"
    "cfg_address (settings d) \<in> {0, 1}"
    and ans: "\<And>h. sim_core h = sim_core m \<Longrightarrow> sim_answer (cmd_payload cmd) h = Inr (b # data, None, upd h)"
    and line: "\<And>h. sim_line (upd h) = sim_line h"
    and core: "\<And>h. sim_core h = sim_core m \<Longrightarrow> sim_core (upd h) = sim_core (upd m)"
    and ok: "sim_ok (upd m)" "sim_baud (upd m) = sim_device_baud (upd m)"
    and id: "uint b = cmd_response_id cmd" "uint b \<notin> {0xB0, 0x90, 0x91, 0x92}" "0x80 \<le> uint b"
    and size: "length data < 200"
    and confirm: "\<And>reply. resp_command reply = uint b \<Longrightarrow> resp_data reply = data \<Longrightarrow>
      status_decode (uint (sim_status (upd m))) = Inr (resp_status reply) \<Longrightarrow> confirm reply (cmd_payload cmd) = Inr ()"
  shows "\<exists>reply d' m'. plays (command cmd) reply d m d' m' \<and> resp_command reply = uint b \<and> resp_data reply = data \<and>
    ready d' \<and> essentials d' = essentials d \<and> listening m' \<and> sim_core m' = sim_core (upd m)"
proof -
  let ?s = "settings d" and ?st = "sim_status (upd m)"
  obtain raw where raw: "encode ((b # data) @ [?st]) 0x81 = Inr raw"
    using reply_encodes [of "b # data"] size by auto
  define frame where "frame = \<lparr>frame_address = 0x81, frame_payload = (b # data) @ [?st], frame_raw = raw\<rparr>"
  have "uint ?st mod 8 \<le> 4" using ok(1) by (simp add: sim_ok_def)
  then obtain reply where reply: "response frame (cfg_address ?s) = Inr reply"
    using response_Inr_if [of frame "cfg_address ?s"] assms(5) id
    by (auto simp: frame_def expected_addresses_def)
  note r = response_InrD [OF reply]
  have cmd: "resp_command reply = uint b" using r(3) by (simp add: frame_def)
  then have data: "resp_data reply = data" using r(6) by (simp add: frame_def)
  have good: "good_reply ?s cmd raw reply"
    using reply raw cmd data id r(7) confirm [of reply]
    unfolding good_reply_def by (auto simp: frame_def intro!: exI [of _ frame])
  obtain d' tele where d': "\<And>ts. command cmd d (exchange 0 raw @ ts) = (Done reply, d', ts)" "ready d'"
    "essentials d' = essentials d" "telegram cmd (cfg_address ?s) = Inr tele" "sent d' = sent d @ [tele]"
    using command_exchange [OF assms(1,3) _ good] assms(4) by blast
  obtain m' where m': "sim_write tele m = Inr m'" "listening m'" "sim_core m' = sim_core (upd m)"
    "concat (sim_queue m') = concat (sim_queue m) @ control_byte ACK # raw"
    using sim_write_answers [OF assms(2) d'(4) assms(5) ans line core ok raw] by auto
  have "plays (command cmd) reply d m d' m'"
    by (rule playsI [where tape = "exchange 0 raw" and ws = "[tele]"]) (use d' m' in simp_all)
  with d' m' cmd data show ?thesis by blast
qed

text \<open>Device and simulator in step, between two commands.\<close>

definition in_step :: "Device \<Rightarrow> Simulator \<Rightarrow> bool" where
  "in_step d m \<longleftrightarrow> ready d \<and> listening m \<and> require_write (settings d) = Inr () \<and>
     cfg_address (settings d) \<in> {0, 1} \<and> uint (sim_status m) mod 8 < 3"

lemma in_step_next:
  "in_step d m \<Longrightarrow> ready d' \<Longrightarrow> listening m' \<Longrightarrow> settings d' = settings d \<Longrightarrow> sim_status m' = sim_status m \<Longrightarrow> in_step d' m'"
  by (simp add: in_step_def)

lemma healthy_status:
  "status_decode n = Inr (resp_status reply) \<Longrightarrow> n mod 8 < 3 \<Longrightarrow> require_healthy reply = Inr ()"
proof -
  assume "n mod 8 < 3" "status_decode n = Inr (resp_status reply)"
  moreover from this have "n mod 8 \<in> {0, 1, 2}" using pos_mod_sign [of 8 n] by auto
  ultimately show ?thesis
    by (auto simp: status_decode_def and_7_mod SEVERITIES_def require_healthy_def split: if_splits dest: sym)
qed

text \<open>The same for a command whose reply is a constant of the simulator's state.\<close>

lemma in_step_command:
  assumes "in_step d m" "scanner_command cmd"
    and ans: "\<And>h. sim_core h = sim_core m \<Longrightarrow> sim_answer (cmd_payload cmd) h = Inr (b # data, None, upd h)"
    and line: "\<And>h. sim_line (upd h) = sim_line h"
    and core: "\<And>h. sim_core h = sim_core m \<Longrightarrow> sim_core (upd h) = sim_core (upd m)"
    and ok: "sim_ok (upd m)" "sim_baud (upd m) = sim_baud m" "sim_device_baud (upd m) = sim_device_baud m"
      "sim_status (upd m) = sim_status m"
    and id: "uint b = cmd_response_id cmd" "uint b \<notin> {0xB0, 0x90, 0x91, 0x92}" "0x80 \<le> uint b"
    and size: "length data < 200"
    and confirm: "\<And>reply. resp_command reply = uint b \<Longrightarrow> resp_data reply = data \<Longrightarrow>
      require_healthy reply = Inr () \<Longrightarrow> confirm reply (cmd_payload cmd) = Inr ()"
  obtains reply d' m' where "plays (command cmd) reply d m d' m'" "resp_command reply = uint b" "resp_data reply = data"
    "in_step d' m'" "essentials d' = essentials d" "sim_core m' = sim_core (upd m)"
proof -
  have d: "ready d" "listening m" "require_write (settings d) = Inr ()" "cfg_address (settings d) \<in> {0, 1}"
    and healthy: "uint (sim_status m) mod 8 < 3" using assms(1) by (simp_all add: in_step_def)
  have baud: "sim_baud (upd m) = sim_device_baud (upd m)" using d(2) ok by (simp add: listening_def)
  have conf: "confirm reply (cmd_payload cmd) = Inr ()" if "resp_command reply = uint b" "resp_data reply = data"
    "status_decode (uint (sim_status (upd m))) = Inr (resp_status reply)" for reply
    using confirm [OF that(1,2)] healthy_status [OF that(3)] healthy ok(4) by simp
  obtain reply d' m' where r: "plays (command cmd) reply d m d' m'" "resp_command reply = uint b" "resp_data reply = data"
    "ready d'" "essentials d' = essentials d" "listening m'" "sim_core m' = sim_core (upd m)"
    using plays_command [OF d(1,2) assms(2) d(3,4) ans line core ok(1) baud id size conf] by blast
  have "settings d' = settings d" "sim_status m' = sim_status m"
    using r(5,7) ok(4) by (simp_all add: essentials_def sim_core_def)
  with in_step_next [OF assms(1) r(4,6)] r show ?thesis using that by blast
qed

lemma confirm_read: "resp_command reply \<notin> {0xA0, 0xBB, 0xF7} \<Longrightarrow> confirm reply p = Inr ()"
  by (simp add: confirm_def)

lemma confirm_mode: "resp_command reply = 0xA0 \<Longrightarrow> resp_data reply = [0] \<Longrightarrow> require_healthy reply = Inr () \<Longrightarrow>
  confirm reply p = Inr ()"
  by (simp add: confirm_def)

lemma plays_type:
  assumes "in_step d m"
  obtains d' m' where "plays identify () d m d' m'" "in_step d' m'"
    "essentials d' = essentials (d\<lparr>model := Some ''LMS200;301063;V02.10''\<rparr>)"
    "sim_core m' = sim_core m"
proof -
  let ?name = "''LMS200;301063;V02.10 ''"
  obtain reply d1 m' where r: "plays (command type_request) reply d m d1 m'" "resp_data reply = encode_ascii ?name"
    "in_step d1 m'" "essentials d1 = essentials d" "sim_core m' = sim_core m"
    by (rule in_step_command [OF assms scanner_command.intros(2), where b = "0xBA"
        and data = "encode_ascii ?name" and upd = "\<lambda>h. h"])
      (use assms in \<open>auto simp: sim_answer_def identity_bytes_def command_defs confirm_read in_step_def listening_def\<close>)
  have "decode_ascii (encode_ascii ?name) = Inr ?name" by (rule decode_encode_ascii) simp
  moreover have "strip ?name = ''LMS200;301063;V02.10''" by (simp add: strip_def is_space_def)
  ultimately have "plays identify () d m (d1\<lparr>model := Some ''LMS200;301063;V02.10''\<rparr>) m'"
    unfolding identify_def by (intro plays_bind [OF r(1)]) (simp add: r(2) plays_modify)
  then show ?thesis
    by (rule that) (use r in \<open>auto simp: in_step_def ready_def essentials_def\<close>)
qed

lemma plays_status:
  assumes "in_step d m"
  obtains data d' m' where "plays read_status (sim_reported m data) d m d' m'" "in_step d' m'"
    "essentials d' = essentials (d\<lparr>info := Some (sim_reported m data)\<rparr>)" "sim_core m' = sim_core m"
proof -
  let ?d = "transition STATUS d"
  have step: "in_step ?d m" using assms by (simp add: in_step_def ready_def)
  have ok: "sim_ok m" using assms by (simp add: in_step_def listening_def)
  obtain data where data: "status_data m = Inr data" "length data = 152"
    "\<And>reply. resp_command reply = 0xB1 \<Longrightarrow> resp_data reply = data \<Longrightarrow>
       decode_status reply = Inr (sim_reported m data)"
    using status_decodes [OF ok] by metis
  have ans: "sim_answer (cmd_payload status_request) h = Inr (0xB1 # data, None, h)"
    if "sim_core h = sim_core m" for h
  proof -
    have eqs: "sim_device_baud h = sim_device_baud m" "sim_config h = sim_config m" "sim_mode h = sim_mode m"
      "sim_status h = sim_status m" "sim_angle h = sim_angle m" "sim_resolution h = sim_resolution m"
      using that by (simp_all add: sim_core_def)
    have "status_data h = status_data m" unfolding status_data_def eqs ..
    then show ?thesis using data(1) by (simp add: sim_answer_def command_defs)
  qed
  obtain reply d1 m' where r: "plays (command status_request) reply ?d m d1 m'" "resp_command reply = 0xB1"
    "resp_data reply = data" "in_step d1 m'" "essentials d1 = essentials ?d" "sim_core m' = sim_core m"
    by (rule in_step_command [OF step scanner_command.intros(1), where b = "0xB1" and data = data and upd = "\<lambda>h. h"])
      (use data(2) ans ok in \<open>auto simp: confirm_read\<close>, simp add: command_defs)
  have "plays read_status (sim_reported m data) d m (d1\<lparr>info := Some (sim_reported m data)\<rparr>) m'"
    unfolding read_status_def
    by (intro plays_bind [OF plays_goto] plays_bind [OF r(1)] plays_bind [OF plays_result]
        plays_modify_ret) (simp_all add: data(3) r, rule plays_modify_ret, simp_all)
  then show ?thesis
    by (rule that) (use r in \<open>auto simp: in_step_def ready_def essentials_def\<close>)
qed

lemma plays_configuration:
  assumes "in_step d m"
  obtains d' m' where "plays read_configuration () d m d' m'" "in_step d' m'"
    "essentials d' = essentials (d\<lparr>configuration := Some (sim_config m)\<rparr>)" "sim_core m' = sim_core m"
proof -
  have ok: "sim_ok m" using assms by (simp add: in_step_def listening_def)
  then have wf: "length (conf_raw (sim_config m)) \<in> {32, 34}"
    by (simp add: sim_ok_def well_formed_configuration_def)
  obtain reply d1 m' where r: "plays (command configuration_request) reply d m d1 m'"
    "resp_data reply = conf_raw (sim_config m)" "in_step d1 m'" "essentials d1 = essentials d" "sim_core m' = sim_core m"
    by (rule in_step_command [OF assms scanner_command.intros(3), where b = "0xF4"
        and data = "conf_raw (sim_config m)" and upd = "\<lambda>h. h"])
      (use wf ok in \<open>auto simp: sim_answer_def command_defs confirm_read sim_core_def\<close>)
  have "make_configuration (resp_data reply) = Inr (sim_config m)"
    using wf r(2) by (simp add: make_configuration_Inr)
  then have "plays read_configuration () d m (d1\<lparr>configuration := Some (sim_config m)\<rparr>) m'"
    unfolding read_configuration_def
    by (intro plays_bind [OF r(1)] plays_bind [OF plays_result]
        plays_modify) simp_all
  then show ?thesis
    by (rule that) (use r in \<open>auto simp: in_step_def ready_def essentials_def\<close>)
qed

lemma plays_mode:
  assumes "in_step d m" "mode = Mode.INSTALLATION \<longrightarrow> password = ''SICK_LMS''"
  obtains d' m' where "plays (run_mode mode password) () d m d' m'" "in_step d' m'"
    "essentials d' = essentials d" "sim_core m' = sim_core (m\<lparr>sim_mode := mode_value mode\<rparr>)"
proof -
  have ok: "sim_ok (m\<lparr>sim_mode := mode_value mode\<rparr>)" using assms by (simp add: in_step_def listening_def sim_ok_def)
  have chars: "password_char c" if "c \<in> set ''SICK_LMS''" for c using that by (auto simp: password_char_def)
  obtain cmd where cmd: "operating_mode mode password = Inr cmd"
    "cmd_payload cmd = [0x20, mode_value mode] @ (if mode = Mode.INSTALLATION then encode_ascii ''SICK_LMS'' else [])"
    "cmd_response_id cmd = 0xA0"
    using assms(2) chars by (cases mode) (auto simp: operating_mode_def list_all_iff)
  have ans: "sim_answer (cmd_payload cmd) h = Inr ([0xA0, 0], None, h\<lparr>sim_mode := mode_value mode\<rparr>)" for h
    by (cases mode) (simp_all add: sim_answer_def answer_mode_def cmd(2))
  obtain reply d' m' where r: "plays (command cmd) reply d m d' m'" "in_step d' m'" "essentials d' = essentials d"
    "sim_core m' = sim_core (m\<lparr>sim_mode := mode_value mode\<rparr>)"
    by (rule in_step_command [OF assms(1) scanner_command.intros(4) [OF cmd(1)], where b = "0xA0" and data = "[0]"
        and upd = "\<lambda>h. h\<lparr>sim_mode := mode_value mode\<rparr>"])
      (use ans ok cmd(3) in \<open>auto simp: sim_line_def sim_core_def confirm_mode\<close>)
  have "plays (run_mode mode password) () d m d' m'"
    unfolding run_mode_def by (intro plays_bind [OF plays_result [OF cmd(1)]] plays_bind [OF r(1)] plays_ret)
  then show ?thesis using r that by blast
qed

lemma plays_run_command:
  assumes "c = Inr cmd" "plays (command cmd) reply d m d' m'"
  shows "plays (run_command c) () d m d' m'"
  unfolding run_command_def
  by (intro plays_bind [OF plays_result [OF assms(1)]] plays_bind [OF assms(2)] plays_ret)

lemma plays_variant:
  assumes "in_step d m" "validate_geometry a r = Inr ()" "sim_mode m \<in> {0, 0x25}"
  obtains d' m' where "plays (run_command (variant a r)) () d m d' m'" "in_step d' m'"
    "essentials d' = essentials d" "sim_core m' = sim_core (m\<lparr>sim_angle := a, sim_resolution := r\<rparr>)"
proof -
  let ?data = "to_bytes2 a @ to_bytes2 (py_round (r * 100))"
  let ?upd = "\<lambda>h. h\<lparr>sim_angle := a, sim_resolution := r\<rparr>"
  have ok: "sim_ok (?upd m)" using assms by (simp add: in_step_def listening_def sim_ok_def)
  obtain cmd where cmd: "variant a r = Inr cmd" "cmd_payload cmd = 0x3B # ?data" "cmd_response_id cmd = 0xBB"
    using assms(2) by (auto simp: variant_def)
  note g = geometry_bytes [OF assms(2)]
  have "from_bytes (to_bytes2 a) = a" "from_bytes (to_bytes2 (py_round (r * 100))) = py_round (r * 100)"
    using g by (simp_all add: from_to_bytes2)
  moreover have "slice 1 3 (cmd_payload cmd) = to_bytes2 a" "slice 3 5 (cmd_payload cmd) = to_bytes2 (py_round (r * 100))"
    by (simp_all add: cmd(2) slice_def to_bytes2_def)
  ultimately have ans: "sim_answer (cmd_payload cmd) h = Inr (0xBB # 1 # ?data, None, ?upd h)"
    if "sim_core h = sim_core m" for h
    using that assms(2,3) g cmd(2) by (simp add: sim_answer_def answer_variant_def Let_def sim_core_def)
  have conf: "confirm reply (cmd_payload cmd) = Inr ()"
    if "resp_command reply = 0xBB" "resp_data reply = 1 # ?data" "require_healthy reply = Inr ()" for reply
    using that by (simp add: confirm_def cmd(2))
  obtain reply d' m' where p: "plays (command cmd) reply d m d' m'" "in_step d' m'" "essentials d' = essentials d"
    "sim_core m' = sim_core (?upd m)"
    by (rule in_step_command [OF assms(1) scanner_command.intros(6) [OF cmd(1)], where b = "0xBB"
        and data = "1 # ?data" and upd = ?upd])
      (use ans ok conf cmd(3) in \<open>auto simp: sim_line_def sim_core_def\<close>)
  show ?thesis using plays_run_command [OF cmd(1) p(1)] p(2-4) by (rule that)
qed

lemma plays_write_configuration:
  assumes "in_step d m" "well_formed_configuration c" "conf_unit c = Inr u" "sim_mode m = 0"
  obtains d' m' where "plays (run_command (write_configuration (conf_raw c))) () d m d' m'" "in_step d' m'"
    "essentials d' = essentials d" "sim_core m' = sim_core (m\<lparr>sim_config := c\<rparr>)"
proof -
  let ?upd = "\<lambda>h. h\<lparr>sim_config := c\<rparr>"
  have len: "length (conf_raw c) \<in> {32, 34}" using assms(2) by (simp add: well_formed_configuration_def)
  have ok: "sim_ok (?upd m)" using assms by (simp add: in_step_def listening_def sim_ok_def)
  obtain cmd where cmd: "write_configuration (conf_raw c) = Inr cmd" "cmd_payload cmd = 0x77 # conf_raw c"
    "cmd_response_id cmd = 0xF7"
    using len by (auto simp: write_configuration_def)
  have ans: "sim_answer (cmd_payload cmd) h = Inr (0xF7 # 1 # conf_raw c, None, ?upd h)"
    if "sim_core h = sim_core m" for h
    using that len assms(4) by (auto simp: sim_answer_def cmd(2) make_configuration_def sim_core_def)
  have conf: "confirm reply (cmd_payload cmd) = Inr ()"
    if "resp_command reply = 0xF7" "resp_data reply = 1 # conf_raw c" "require_healthy reply = Inr ()" for reply
    using that by (simp add: confirm_def cmd(2))
  obtain reply d' m' where p: "plays (command cmd) reply d m d' m'" "in_step d' m'" "essentials d' = essentials d"
    "sim_core m' = sim_core (?upd m)"
    by (rule in_step_command [OF assms(1) scanner_command.intros(7) [OF cmd(1)], where b = "0xF7"
        and data = "1 # conf_raw c" and upd = ?upd])
      (use ans ok conf cmd(3) len in \<open>auto simp: sim_line_def sim_core_def\<close>)
  show ?thesis using plays_run_command [OF cmd(1) p(1)] p(2-4) by (rule that)
qed

section \<open>Connecting to the simulator\<close>

lemma plays_catch: "plays p x d m d' m' \<Longrightarrow> plays (catch p P h) x d m d' m'"
proof -
  assume "plays p x d m d' m'"
  then obtain tape ws where "\<And>ts. p d (tape @ ts) = (Done x, d', ts)" "sent d' = sent d @ ws"
    "sim_run ws m = Inr m'" "concat (sim_queue m') = concat (sim_queue m) @ received tape"
    unfolding plays_def by blast
  then show ?thesis by (intro playsI [where tape = tape and ws = ws]) (simp_all add: catch_def)
qed

lemma plays_if: "(b \<Longrightarrow> plays p x d m d' m') \<Longrightarrow> (\<not> b \<Longrightarrow> plays q x d m d' m') \<Longrightarrow> plays (if b then p else q) x d m d' m'"
  by simp

definition simulated :: "Settings \<Rightarrow> bool" where
  "simulated s \<longleftrightarrow> valid_settings s \<and> cfg_transport s = transport_kind.Simulator \<and> cfg_address s \<in> {0, 1} \<and>
     (cfg_detect_baud s \<or> cfg_baud s = 9600) \<and> cfg_target_baud s \<in> {None, Some 9600} \<and>
     cfg_password s = ''SICK_LMS''"

definition sim_start :: "Settings \<Rightarrow> Simulator" where
  "sim_start s = sim_set_baud 9600 (sim_open (new_simulator (cfg_baud s) 9600 True))"

definition sim_transport :: "Settings \<Rightarrow> Transport" where
  "sim_transport s = new_transport transport_kind.Simulator [] (cfg_baud s) True"

lemma sim_transport_created: "simulated s \<Longrightarrow> create_transport s ports = Inr (sim_transport s)"
  by (simp add: simulated_def create_transport_def sim_transport_def)

lemma listening_start: "listening (sim_start s)"
  using sim_ok_new [of 9600 "cfg_baud s" True]
  by (simp add: listening_def sim_start_def sim_set_baud_def sim_open_def new_simulator_def sim_ok_def new_framer_def)

lemma plays_change_baud:
  assumes "tr_kind (transport d) = transport_kind.Simulator"
  shows "plays (change_baud rate) () d m (set_clock 0 (d\<lparr>transport := (transport d)\<lparr>tr_baud := rate\<rparr>\<rparr>)) m"
  by (rule plays_silent [where tape = "[Resume 0 Completed]"])
    (use assms in \<open>simp_all add: change_baud_def set_baud_guard_def bind_def transport_set_baud_def plain_answer_def set_clock_def\<close>)

lemma plays_open:
  assumes "tr_kind (transport d) = transport_kind.Simulator"
  shows "plays open_transport () d m
    (set_clock 0 (d\<lparr>transport := (transport d)\<lparr>tr_opened := True\<rparr>, is_open := True\<rparr>)) m"
  by (rule plays_silent [where tape = "[Resume 0 Completed]"])
    (use assms in \<open>simp_all add: open_transport_def bind_def transport_open_def plain_answer_def set_clock_def\<close>)

lemma plays_startup:
  obtains d' where "plays startup_delay () d m d' m" "essentials d' = essentials d" "dev_framer d' = dev_framer d"
    "transport d' = transport d" "reader d' = reader d" "events d' = events d" "dev_state d' = dev_state d"
proof (cases "cfg_startup_wait (settings d) = 0")
  case True
  then have "plays startup_delay () d m d m"
    by (intro plays_silent [where tape = "[]"]) (simp_all add: startup_delay_def)
  then show ?thesis by (rule that) simp_all
next
  case False
  let ?d = "set_clock 0 (device_note ''Waiting for externally powered scanner startup'' d)"
  have "plays startup_delay () d m ?d m"
    by (rule plays_silent [where tape = "[Resume 0 Completed]"])
      (use False in \<open>simp_all add: startup_delay_def sleep_def bind_def\<close>)
  then show ?thesis by (rule that) (simp_all add: essentials_def)
qed

lemma plays_detect:
  assumes "in_step (reset_framer (set_clock 0 (d\<lparr>transport := (transport d)\<lparr>tr_baud := rate\<rparr>\<rparr>))) m"
    "tr_kind (transport d) = transport_kind.Simulator"
  obtains data d' m' where "plays (detect (rate # rates)) (sim_reported m data) d m d' m'" "in_step d' m'"
    "essentials d' = essentials (d\<lparr>transport := (transport d)\<lparr>tr_baud := rate\<rparr>, info := Some (sim_reported m data)\<rparr>)"
    "sim_core m' = sim_core m"
proof -
  let ?d = "set_clock 0 (d\<lparr>transport := (transport d)\<lparr>tr_baud := rate\<rparr>\<rparr>)"
  obtain data d' m' where r: "plays read_status (sim_reported m data) (reset_framer ?d) m d' m'" "in_step d' m'"
    "essentials d' = essentials ((reset_framer ?d)\<lparr>info := Some (sim_reported m data)\<rparr>)" "sim_core m' = sim_core m"
    using plays_status [OF assms(1)] by metis
  have found: "plays (catch (bind read_status (\<lambda>status. ret (Some status))) P h) (Some (sim_reported m data))
      (reset_framer ?d) m d' m'" for P h
    by (rule plays_catch, rule plays_bind [OF r(1)], rule plays_ret)
  have "plays (detect (rate # rates)) (sim_reported m data) d m d' m'"
    unfolding detect.simps
    by (rule plays_bind [OF plays_change_baud [OF assms(2)]], rule plays_bind [OF plays_modify [OF refl]],
        simp add: reset_framer_def, rule plays_bind [OF found]) (simp add: plays_ret)
  then show ?thesis
    by (rule that) (use r in \<open>auto simp: essentials_def reset_framer_def\<close>)
qed

lemma detection_rates_start:
  "cfg_detect_baud (settings d) \<or> tr_baud (transport d) = 9600 \<Longrightarrow> tr_can_set_baud (transport d) \<Longrightarrow>
   \<exists>rates. detection_rates d = 9600 # rates"
  by (auto simp: detection_rates_def)

lemma plays_connect_scanner:
  assumes start: "simulated (settings d)" "tr_kind (transport d) = transport_kind.Simulator" "tr_opened (transport d)"
    "tr_can_set_baud (transport d)" "tr_baud (transport d) = cfg_baud (settings d)"
    and sim: "listening m" "sim_device_baud m = 9600" "uint (sim_status m) mod 8 < 3"
    and buffer: "buffer (dev_framer d) = []" "idle d"
  obtains data d' m' where "plays connect_scanner () d m d' m'" "in_step d' m'" "sim_core m' = sim_core m"
    "essentials d' = (settings d, Some (sim_config m), Some (sim_reported m data),
       Some ''LMS200;301063;V02.10'', is_open d, transport_kind.Simulator, 9600, True)"
proof -
  let ?d1 = "start_reader d" let ?d2 = "transition DETECTING ?d1"
  obtain rates where rates: "detection_rates ?d2 = 9600 # rates"
    using detection_rates_start [of ?d2] start by (auto simp: simulated_def start_reader_def)
  have d2: "settings ?d2 = settings d" "transport ?d2 = transport d" "reader ?d2 = Running" "dev_framer ?d2 = dev_framer d"
    "is_open ?d2 = is_open d" "model ?d2 = model d" "configuration ?d2 = configuration d"
    by (simp_all add: start_reader_def)
  have may: "require_write (settings d) = Inr ()"
    using start(1) by (simp add: simulated_def require_write_def physical_def)
  have "in_step (reset_framer (set_clock 0 (?d2\<lparr>transport := (transport ?d2)\<lparr>tr_baud := 9600\<rparr>\<rparr>))) m"
    using start sim buffer may unfolding in_step_def ready_def
    by (simp add: reset_framer_def reset_def simulated_def start_reader_def)
  then obtain data d3 m3 where r3: "plays (detect (9600 # rates)) (sim_reported m data) ?d2 m d3 m3" "in_step d3 m3"
    "essentials d3 = essentials (?d2\<lparr>transport := (transport ?d2)\<lparr>tr_baud := 9600\<rparr>, info := Some (sim_reported m data)\<rparr>)"
    "sim_core m3 = sim_core m"
    by (rule plays_detect) (use start(2) d2 in simp)
  have e3: "essentials d3 = (settings d, configuration d, Some (sim_reported m data), model d, is_open d,
      transport_kind.Simulator, 9600, True)"
    using r3(3) start(2,3) by (simp add: essentials_def start_reader_def)
  have step4: "in_step (transition CONNECTED d3) m3" using r3(2) by (simp add: in_step_def ready_def)
  obtain d5 m5 where r5: "plays identify () (transition CONNECTED d3) m3 d5 m5" "in_step d5 m5"
    "essentials d5 = essentials ((transition CONNECTED d3)\<lparr>model := Some ''LMS200;301063;V02.10''\<rparr>)" "sim_core m5 = sim_core m3"
    using plays_type [OF step4] by metis
  obtain d6 m6 where r6: "plays read_configuration () d5 m5 d6 m6" "in_step d6 m6"
    "essentials d6 = essentials (d5\<lparr>configuration := Some (sim_config m5)\<rparr>)" "sim_core m6 = sim_core m5"
    using plays_configuration [OF r5(2)] by metis
  have "dev_baud (sim_reported m data) = tr_baud (transport d3)"
    using e3 sim(2) by (simp add: sim_reported_def essentials_def)
  then have "plays connect_scanner () d m (transition CONNECTED d6) m6"
    unfolding connect_scanner_def
    by (intro plays_bind [OF plays_modify [OF refl]] plays_bind [OF plays_goto] plays_bind [OF plays_read]
        plays_bind [OF r3(1) [folded rates]] plays_bind [OF plays_result] plays_bind [OF r5(1)] plays_bind [OF r6(1)]
        plays_goto) (simp_all add: start_reader_def)
  then show ?thesis
    by (rule that [where data = data])
      (use r6 r5 r3(4) e3 in \<open>auto simp: in_step_def ready_def essentials_def sim_core_def\<close>)
qed

section \<open>Configuring the simulator\<close>

lemma plays_when:
  assumes "b \<Longrightarrow> plays p () d m d1 m1" "\<not> b \<Longrightarrow> d1 = d \<and> m1 = m"
  shows "plays (op_when b p) () d m d1 m1"
  using assms by (cases b) (simp_all add: plays_ret)

lemma plays_switch_baud:
  assumes "cfg_target_baud (settings d) \<in> {None, Some 9600}" "tr_baud (transport d) = 9600"
  shows "plays switch_baud () d m d m"
  by (rule plays_silent [where tape = "[]"]) (use assms in \<open>auto simp: switch_baud_def\<close>)

text \<open>Entering installation mode when something is to be changed.\<close>

lemma plays_enter:
  assumes "in_step d m" "sim_mode m = 0x25" "password = ''SICK_LMS''"
  obtains d' m' where "plays (op_when b (bind (goto State.INSTALLATION) (\<lambda>_. run_mode Mode.INSTALLATION password))) () d m d' m'"
    "in_step d' m'" "essentials d' = essentials d" "sim_core m' = sim_core (m\<lparr>sim_mode := (if b then 0 else 0x25)\<rparr>)"
proof (cases b)
  case True
  have "in_step (transition State.INSTALLATION d) m" using assms(1) by (simp add: in_step_def ready_def)
  then obtain d' m' where p: "plays (run_mode Mode.INSTALLATION password) () (transition State.INSTALLATION d) m d' m'"
    "in_step d' m'" "essentials d' = essentials (transition State.INSTALLATION d)" "sim_core m' = sim_core (m\<lparr>sim_mode := 0\<rparr>)"
    using plays_mode [of "transition State.INSTALLATION d" m Mode.INSTALLATION password] assms(3)
    by (metis mode_value.simps(1))
  show ?thesis
    by (rule that [of d' m']) (use True p in \<open>simp_all add: plays_bind [OF plays_goto] essentials_def\<close>)
next
  case False
  then show ?thesis using assms by (intro that [of d m]) (simp_all add: plays_ret sim_core_def)
qed

lemma plays_geometry:
  assumes "in_step d m" "b \<longrightarrow> sim_mode m = 0" "validate_geometry a r = Inr ()"
    "\<not> b \<longrightarrow> sim_angle m = a \<and> sim_resolution m = r"
  obtains d' m' where "plays (op_when b (run_command (variant a r))) () d m d' m'" "in_step d' m'"
    "essentials d' = essentials d" "sim_core m' = sim_core (m\<lparr>sim_angle := a, sim_resolution := r\<rparr>)"
proof (cases b)
  case True
  then obtain d' m' where "plays (run_command (variant a r)) () d m d' m'" "in_step d' m'"
    "essentials d' = essentials d" "sim_core m' = sim_core (m\<lparr>sim_angle := a, sim_resolution := r\<rparr>)"
    using plays_variant [OF assms(1,3)] assms(2) by (metis insertCI)
  then show ?thesis using True by (intro that [of d' m']) simp_all
next
  case False
  then show ?thesis using assms by (intro that [of d m]) (auto simp: plays_ret sim_core_def)
qed

lemma plays_update:
  assumes "in_step d m" "b \<longrightarrow> sim_mode m = 0" "well_formed_configuration c" "conf_unit c = Inr u"
    "\<not> b \<longrightarrow> sim_config m = c"
  obtains d' m' where "plays (op_when b (run_command (write_configuration (conf_raw c)))) () d m d' m'" "in_step d' m'"
    "essentials d' = essentials d" "sim_core m' = sim_core (m\<lparr>sim_config := c\<rparr>)"
proof (cases b)
  case True
  then obtain d' m' where "plays (run_command (write_configuration (conf_raw c))) () d m d' m'" "in_step d' m'"
    "essentials d' = essentials d" "sim_core m' = sim_core (m\<lparr>sim_config := c\<rparr>)"
    using plays_write_configuration [OF assms(1,3,4)] assms(2) by metis
  then show ?thesis using True by (intro that [of d' m']) simp_all
next
  case False
  then show ?thesis using assms by (intro that [of d m]) (auto simp: plays_ret sim_core_def)
qed

lemma plays_verify:
  assumes "in_step d m" "sim_config m = desired" "sim_angle m = cfg_angle (settings d)"
    "sim_resolution m = cfg_resolution (settings d)"
  obtains d' m' where "plays (verify desired) () d m d' m'" "in_step d' m'" "settings d' = settings d" "sim_core m' = sim_core m"
proof -
  let ?d1 = "transition VERIFYING d"
  have "in_step ?d1 m" using assms(1) by (simp add: in_step_def ready_def)
  then obtain d2 m2 where r2: "plays read_configuration () ?d1 m d2 m2" "in_step d2 m2"
    "essentials d2 = essentials (?d1\<lparr>configuration := Some (sim_config m)\<rparr>)" "sim_core m2 = sim_core m"
    using plays_configuration by metis
  obtain data d3 m3 where r3: "plays read_status (sim_reported m2 data) d2 m2 d3 m3" "in_step d3 m3"
    "essentials d3 = essentials (d2\<lparr>info := Some (sim_reported m2 data)\<rparr>)" "sim_core m3 = sim_core m2"
    using plays_status [OF r2(2)] by metis
  have "sim_ok m" using assms(1) by (simp add: in_step_def listening_def)
  then have unit: "conf_unit desired = Inr (if conf_raw desired ! 6 \<noteq> 0 then ''mm'' else ''cm'')"
    using assms(2) by (auto simp: sim_ok_def conf_unit_def split: if_splits)
  have d3: "settings d3 = settings d" "configuration d3 = Some desired"
    using r3(3) r2(3) assms(2) by (simp_all add: essentials_def)
  have "readback_matches (settings d3) desired (configuration d3) (sim_reported m2 data)"
    using d3 r2(4) assms unit by (simp add: readback_matches_def sim_reported_def sim_core_def)
  then have "plays (verify desired) () d m d3 m3"
    unfolding verify_def
    by (intro plays_bind [OF plays_goto] plays_bind [OF r2(1)] plays_bind [OF r3(1)] plays_bind [OF plays_read]
        plays_result) simp
  then show ?thesis by (rule that) (use r3 r2 d3 in simp_all)
qed

lemma plays_configure:
  assumes "in_step d m" "simulated (settings d)" "tr_baud (transport d) = 9600" "sim_mode m = 0x25"
    and status: "dev_angle status = sim_angle m" "dev_resolution status = sim_resolution m"
  obtains desired d' m' where "plays (configure (sim_config m) status) () d m d' m'" "in_step d' m'"
    "settings d' = settings d" "sim_angle m' = cfg_angle (settings d)" "sim_resolution m' = cfg_resolution (settings d)"
    "sim_config m' = desired" "updated (sim_config m) (cfg_unit (settings d)) (cfg_indices (settings d)) = Inr desired"
proof -
  let ?s = "settings d"
  have geo: "validate_geometry (cfg_angle ?s) (cfg_resolution ?s) = Inr ()"
    using assms(2) valid_geometry by (simp add: simulated_def)
  have target: "cfg_target_baud ?s \<in> {None, Some 9600}" and password: "cfg_password ?s = ''SICK_LMS''"
    and unit: "cfg_unit ?s \<in> {''mm'', ''cm''}"
    using assms(2) by (simp_all add: simulated_def valid_settings_def field_constraints_def)
  have wf: "well_formed_configuration (sim_config m)" using assms(1) by (simp add: in_step_def listening_def sim_ok_def)
  then obtain desired where des: "updated (sim_config m) (cfg_unit ?s) (cfg_indices ?s) = Inr desired"
    using unit by (simp add: updated_Inr)
  note fields = updated_fields [OF des]
  define changes where "changes = (conf_raw desired \<noteq> conf_raw (sim_config m))"
  define geometry where "geometry = ((dev_angle status, dev_resolution status) \<noteq> (cfg_angle ?s, cfg_resolution ?s))"
  obtain d1 m1 where r1: "plays (op_when (changes \<or> geometry) (bind (goto State.INSTALLATION)
      (\<lambda>_. run_mode Mode.INSTALLATION (cfg_password ?s)))) () d m d1 m1" "in_step d1 m1" "essentials d1 = essentials d"
    "sim_core m1 = sim_core (m\<lparr>sim_mode := (if changes \<or> geometry then 0 else 0x25)\<rparr>)"
    using plays_enter [OF assms(1,4) password] by metis
  have s1: "settings d1 = ?s" "tr_baud (transport d1) = 9600" using r1(3) assms(3) by (simp_all add: essentials_def)
  let ?d2 = "transition CONFIGURING d1"
  have step2: "in_step ?d2 m1" using r1(2) by (simp add: in_step_def ready_def)
  obtain d3 m3 where r3: "plays (op_when geometry (run_command (variant (cfg_angle ?s) (cfg_resolution ?s)))) () ?d2 m1 d3 m3"
    "in_step d3 m3" "essentials d3 = essentials ?d2"
    "sim_core m3 = sim_core (m1\<lparr>sim_angle := cfg_angle ?s, sim_resolution := cfg_resolution ?s\<rparr>)"
    by (rule plays_geometry [OF step2 _ geo, of geometry])
      (use r1(4) status in \<open>auto simp: sim_core_def geometry_def\<close>)
  obtain d4 m4 where r4: "plays (op_when changes (run_command (write_configuration (conf_raw desired)))) () d3 m3 d4 m4"
    "in_step d4 m4" "essentials d4 = essentials d3" "sim_core m4 = sim_core (m3\<lparr>sim_config := desired\<rparr>)"
    by (rule plays_update [OF r3(2) _ fields(1,3), of changes])
      (use r1(4) r3(4) in \<open>auto simp: sim_core_def changes_def\<close>)
  have s4: "settings d4 = ?s" using r4(3) r3(3) s1 by (simp add: essentials_def)
  have c4: "sim_config m4 = desired" "sim_angle m4 = cfg_angle ?s" "sim_resolution m4 = cfg_resolution ?s"
    using r4(4) r3(4) by (simp_all add: sim_core_def)
  obtain d5 m5 where r5: "plays (verify desired) () d4 m4 d5 m5" "in_step d5 m5" "settings d5 = settings d4" "sim_core m5 = sim_core m4"
    using plays_verify [OF r4(2) c4(1)] c4 s4 by metis
  have "plays (configure (sim_config m) status) () d m d5 m5"
    unfolding configure_def Let_def
    by (rule plays_bind [OF plays_read], rule plays_bind [OF plays_result [OF des]],
        rule plays_bind [OF r1(1) [unfolded changes_def geometry_def]],
        rule plays_bind [OF plays_switch_baud], use target s1 in simp, use s1 in simp,
        rule plays_bind [OF plays_goto], rule plays_bind [OF r3(1) [unfolded geometry_def]],
        rule plays_bind [OF r4(1) [unfolded changes_def]], rule r5(1))
  then show ?thesis
    by (rule that) (use r5 s4 c4 des in \<open>simp_all add: sim_core_def\<close>)
qed

lemma plays_begin:
  assumes "in_step d m"
  obtains d' m' where "plays (begin_stream True) () d m d' m'" "listening m'"
    "sim_core m' = sim_core (m\<lparr>sim_mode := 0x24\<rparr>)" "dev_state d' = STREAMING"
proof -
  have "in_step (transition STARTING d) m" using assms by (simp add: in_step_def ready_def)
  then obtain d1 m1 where r: "plays (run_mode CONTINUOUS ''SICK_LMS'') () (transition STARTING d) m d1 m1" "in_step d1 m1"
    "sim_core m1 = sim_core (m\<lparr>sim_mode := 0x24\<rparr>)"
    using plays_mode [of "transition STARTING d" m CONTINUOUS] by (metis Mode.distinct(1) mode_value.simps(2))
  have "plays (begin_stream True) () d m (transition STREAMING (d1\<lparr>stream_since := clock d1\<rparr>)) m1"
    unfolding begin_stream_def if_True
    by (rule plays_bind [OF plays_goto], rule plays_bind [OF r(1)], rule plays_bind [OF plays_modify [OF refl]], simp,
        rule plays_goto)
  then show ?thesis by (rule that) (use r in \<open>simp_all add: in_step_def\<close>)
qed

lemma plays_connect:
  assumes "simulated s"
  obtains data d' m' where "plays connect () (new_device s (sim_transport s) now) (sim_start s) d' m'" "in_step d' m'"
    "sim_core m' = sim_core (sim_start s)"
    "essentials d' = (s, Some (sim_config m'), Some (sim_reported m' data),
       Some ''LMS200;301063;V02.10'', True, transport_kind.Simulator, 9600, True)"
proof -
  let ?d = "new_device s (sim_transport s) now" and ?m = "sim_start s"
  let ?d1 = "prepare_connect ?d"
  obtain d2 where r2: "plays startup_delay () ?d1 ?m d2 ?m" "essentials d2 = essentials ?d1" "dev_framer d2 = dev_framer ?d1"
    "transport d2 = transport ?d1" "dev_state d2 = dev_state ?d1"
    using plays_startup [of ?d1 ?m] by metis
  have t1: "transport ?d1 = sim_transport s" "settings ?d1 = s" "buffer (dev_framer ?d1) = []" "dev_state ?d1 = OPENING"
    by (simp_all add: prepare_connect_def reset_framer_def new_device_def reset_def)
  let ?d3 = "set_clock 0 (d2\<lparr>transport := (transport d2)\<lparr>tr_opened := True\<rparr>, is_open := True\<rparr>)"
  have s2: "settings d2 = s" using r2(2) t1 by (simp add: essentials_def)
  have "tr_kind (transport d2) = transport_kind.Simulator" using r2(4) t1 by (simp add: sim_transport_def new_transport_def)
  note r3 = plays_open [OF this, of ?m]
  have tr: "transport d2 = sim_transport s" "buffer (dev_framer d2) = []" "dev_state d2 = OPENING"
    using r2(3-5) t1 by simp_all
  have d3: "simulated (settings ?d3)" "tr_kind (transport ?d3) = transport_kind.Simulator" "tr_opened (transport ?d3)"
    "tr_can_set_baud (transport ?d3)" "tr_baud (transport ?d3) = cfg_baud (settings ?d3)"
    "buffer (dev_framer ?d3) = []" "idle ?d3"
    using assms s2 tr by (simp_all add: sim_transport_def new_transport_def)
  have m: "listening ?m" "sim_device_baud ?m = 9600" "uint (sim_status ?m) mod 8 < 3"
    using listening_start by (simp_all add: sim_start_def sim_set_baud_def sim_open_def new_simulator_def)
  obtain data d' m' where r4: "plays connect_scanner () ?d3 ?m d' m'" "in_step d' m'" "sim_core m' = sim_core ?m"
    "essentials d' = (settings ?d3, Some (sim_config ?m), Some (sim_reported ?m data),
       Some ''LMS200;301063;V02.10'', is_open ?d3, transport_kind.Simulator, 9600, True)"
    using plays_connect_scanner [OF d3(1-5) m d3(6,7)] by metis
  have link: "plays (bind (read_state transport) (\<lambda>tr. if is_replay tr
      then bind (from_result (required (tr_metadata tr))) connect_replay else connect_scanner)) () ?d3 ?m d' m'"
    by (rule plays_bind [OF plays_read])
      (use r4(1) r2(4) t1 in \<open>simp add: is_replay_def sim_transport_def new_transport_def\<close>)
  have closed: "is_open ?d = False" by (simp add: new_device_def)
  have "plays connect () ?d ?m d' m'"
    unfolding connect_def
    by (rule plays_bind_read, unfold closed if_False,
        rule plays_bind [OF plays_modify [OF refl]], simp add: prepare_connect_def reset_framer_def,
        rule plays_bind [OF r2(1)], rule plays_bind [OF r3], rule link)
  moreover have "sim_reported m' data = sim_reported ?m data" "sim_config m' = sim_config ?m"
    using r4(3) by (simp_all add: sim_core_def sim_reported_def)
  ultimately show ?thesis
    by (intro that [of d' m' data]) (use r4 s2 in simp_all)
qed

lemma simulator_model: "supported_model (Some ''LMS200;301063;V02.10'')"
  by (simp add: supported_model_def SUPPORTED_MODELS_def isprefix_def)

lemma plays_initialize:
  assumes "simulated s"
  obtains d' m' where "plays (initialize True) () (new_device s (sim_transport s) now) (sim_start s) d' m'"
    "dev_state d' = STREAMING" "listening m'" "sim_mode m' = 0x24" "sim_angle m' = cfg_angle s"
    "sim_resolution m' = cfg_resolution s"
    "updated default_configuration (cfg_unit s) (cfg_indices s) = Inr (sim_config m')"
proof -
  let ?d = "new_device s (sim_transport s) now" and ?m = "sim_start s"
  obtain data d1 m1 where r1: "plays connect () ?d ?m d1 m1" "in_step d1 m1" "sim_core m1 = sim_core ?m"
    "essentials d1 = (s, Some (sim_config m1), Some (sim_reported m1 data),
       Some ''LMS200;301063;V02.10'', True, transport_kind.Simulator, 9600, True)"
    using plays_connect [OF assms] by metis
  let ?st = "sim_reported m1 data"
  have known: "assert_known d1 = Inr (?st, sim_config m1)" "settings d1 = s" "\<not> is_replay (transport d1)"
    "model d1 = Some ''LMS200;301063;V02.10''" "tr_baud (transport d1) = 9600"
    using r1(4) by (simp_all add: essentials_def assert_known_def is_replay_def)
  have "device_error ?st = 0" using r1(2) by (simp add: sim_reported_def in_step_def)
  then have check: "check_scanner ?st (model d1) = Inr ()"
    using known(4) simulator_model by (simp add: check_scanner_def)
  obtain d2 m2 where r2: "plays (run_mode ON_REQUEST ''SICK_LMS'') () d1 m1 d2 m2" "in_step d2 m2"
    "essentials d2 = essentials d1" "sim_core m2 = sim_core (m1\<lparr>sim_mode := 0x25\<rparr>)"
    using plays_mode [OF r1(2), of ON_REQUEST] by (metis Mode.distinct(3) mode_value.simps(3))
  have m2: "sim_config m2 = sim_config m1" "sim_angle m2 = sim_angle m1" "sim_resolution m2 = sim_resolution m1"
    "sim_mode m2 = 0x25" and d2: "settings d2 = s" "tr_baud (transport d2) = 9600"
    using r2(3,4) r1(4) by (simp_all add: sim_core_def essentials_def)
  have st: "dev_angle ?st = sim_angle m2" "dev_resolution ?st = sim_resolution m2" and sd2: "simulated (settings d2)"
    using m2 assms d2 by (simp_all add: sim_reported_def)
  obtain desired d3 m3 where r3: "plays (configure (sim_config m2) ?st) () d2 m2 d3 m3" "in_step d3 m3"
    "settings d3 = settings d2" "sim_angle m3 = cfg_angle s" "sim_resolution m3 = cfg_resolution s"
    "sim_config m3 = desired" "updated (sim_config m2) (cfg_unit s) (cfg_indices s) = Inr desired"
    using plays_configure [OF r2(2) sd2 d2(2) m2(4) st] d2(1) by metis
  obtain d4 m4 where r4: "plays (run_mode ON_REQUEST ''SICK_LMS'') () d3 m3 d4 m4" "in_step d4 m4"
    "sim_core m4 = sim_core (m3\<lparr>sim_mode := 0x25\<rparr>)"
    using plays_mode [OF r3(2), of ON_REQUEST] by (metis Mode.distinct(3) mode_value.simps(3))
  obtain d5 m5 where r5: "plays (begin_stream True) () d4 m4 d5 m5" "listening m5"
    "sim_core m5 = sim_core (m4\<lparr>sim_mode := 0x24\<rparr>)" "dev_state d5 = STREAMING"
    using plays_begin [OF r4(2)] by metis
  have scanner: "plays (initialize_scanner True) () d1 m1 d5 m5"
    unfolding initialize_scanner_def
    by (rule plays_bind [OF plays_read], rule plays_bind [OF plays_result [OF known(1)]], unfold prod.case,
        rule plays_bind [OF plays_read], rule plays_bind [OF plays_result [OF check]], rule plays_bind [OF r2(1)],
        rule plays_bind [OF r3(1) [unfolded m2(1)]], rule plays_bind [OF r4(1)], rule r5(1))
  have body: "plays (initialize_body True) () ?d ?m d5 m5"
    unfolding initialize_body_def
    by (rule plays_bind [OF r1(1)], rule plays_bind [OF plays_read]) (use known(3) scanner in simp)
  have "require_write (settings ?d) = Inr ()"
    using assms by (simp add: simulated_def require_write_def physical_def new_device_def)
  then have "plays (initialize True) () ?d ?m d5 m5"
    unfolding initialize_def
    by (intro plays_bind [OF plays_read] plays_bind [OF plays_result])
      (simp_all add: new_device_def plays_catch [OF body [unfolded new_device_def]])
  moreover have "sim_config m1 = default_configuration"
    using r1(3) by (simp add: sim_core_def sim_start_def sim_set_baud_def sim_open_def new_simulator_def)
  ultimately show ?thesis
    using r5 r4(3) r3 m2 by (intro that [of d5 m5]) (simp_all add: sim_core_def)
qed

section \<open>Properties\<close>



end
