(* ===== verification/Device_Guarantees.thy ===== *)
theory Device_Guarantees
  imports Device_Simulation
begin

text \<open>
  What a client of the device may rely on, with runs on the simulated scanner as the
  examples.
\<close>

section \<open>Further lemmas\<close>

interpretation wired: device_invariant "\<lambda>d. settings d = s \<and> tr_kind (transport d) = k" s for s k
  by unfold_locales auto

lemma run_mode_changes: "on_return P (run_mode mode p) (\<lambda>_. changed)"
proof (rule on_returnI)
  fix d ts d' ts' and x :: unit
  assume "run_mode mode p d ts = (Done x, d', ts')"
  then obtain cmd reply where cmd: "operating_mode mode p = Inr cmd" "command cmd d ts = (Done reply, d', ts')"
    by (cases "operating_mode mode p") (auto simp: run_mode_def bind_Done_eq)
  have "cmd_mutates cmd" using cmd(1) by (auto simp: operating_mode_def split: if_splits)
  then have c: "attempts_loop cmd 0 (cmd_attempts cmd) (d\<lparr>changed := True\<rparr>) ts = (Done reply, d', ts')"
    using cmd(2) by (cases "require_write (settings d)") (auto simp: command_def bind_def)
  obtain raw where "telegram cmd (cfg_address (settings d)) = Inr raw"
    using c by (cases "cmd_attempts cmd"; cases "telegram cmd (cfg_address (settings d))")
      (auto simp: bind_Done_eq send_attempt_def drain_events_def)
  with attempts_sent [OF _ c, of raw] show "changed d'" by (simp add: sends_def)
qed

lemma begin_stream_changes: "on_return changed (begin_stream go) (\<lambda>_. changed)"
proof -
  have keep: "on_return changed (goto st) (\<lambda>_. changed)" for st
    unfolding goto_def by (rule on_return_modify) simp
  have since: "on_return changed (modify (\<lambda>d. d\<lparr>stream_since := clock d\<rparr>)) (\<lambda>_. changed)"
    by (rule on_return_modify) simp
  have "on_return changed (bind (goto STARTING) (\<lambda>_. bind (run_mode CONTINUOUS p) (\<lambda>_.
      bind (modify (\<lambda>d. d\<lparr>stream_since := clock d\<rparr>)) (\<lambda>_. goto STREAMING)))) (\<lambda>_. changed)" for p
    by (rule on_return_bind [OF keep], rule on_return_bind [OF run_mode_changes], rule on_return_bind [OF since], rule keep)
  then show ?thesis unfolding begin_stream_def using keep by simp
qed

lemma initialize_scanner_changes: "on_return P (initialize_scanner go) (\<lambda>_. changed)"
  unfolding initialize_scanner_def case_prod_unfold
  by (rule on_return_then, rule on_return_then, rule on_return_then, rule on_return_then, rule on_return_then,
      rule on_return_then, rule on_return_bind [OF run_mode_changes], rule begin_stream_changes)

lemma initialize_result:
  assumes "initialize go d ts = (Done (), d', ts')" "idle d" "\<not> is_replay (transport d)"
  shows "is_open d' \<and> changed d' \<and> dev_state d' = (if go then STREAMING else CONNECTED) \<and> verified (settings d) d'"
proof -
  let ?s = "settings d"
  have body: "initialize_body go d ts = (Done (), d', ts')"
    using initialize_Done [OF assms(1)] assms(2) by simp
  then obtain d1 ts1 where c: "connect d ts = (Done (), d1, ts1)"
    and r: "(if is_replay (transport d1) then start_replay else initialize_scanner go) d1 ts1 = (Done (), d', ts')"
    by (auto simp: initialize_body_def bind_Done_eq)
  have d1: "in_session ?s False d1"
    using on_returnD [OF connect_returns _ c, of ?s False] assms(2,3) by simp
  then have i: "initialize_scanner go d1 ts1 = (Done (), d', ts')" using r by simp
  show ?thesis
    using on_returnD [OF initialize_scanner_returns d1 i]
      on_returnD [OF initialize_scanner_changes [of "\<lambda>_. True"] TrueI i] by blast
qed

lemma index_gap_step:
  assumes "a < b" "b \<le> a + 256"
  shows "index_gap (Some (int (b mod 256))) (Some (int (a mod 256))) = b - a - 1"
proof -
  have "(int (b mod 256) - int (a mod 256) - 1) mod 256 = (int b - int a - 1) mod 256"
    unfolding of_nat_mod of_nat_numeral by (intro mod_diff_cong mod_mod_trivial refl)
  also have "\<dots> = int b - int a - 1" using assms by (intro mod_pos_pos_trivial) simp_all
  finally show ?thesis using assms by (simp add: index_gap_def)
qed

lemma accept_scan_dropped:
  "dropped_scans (counters (accept_scan x d)) =
     dropped_scans (counters d) + index_gap (telegram_index x) (last_telegram_index d)"
  by (simp add: accept_scan_def)

lemma fold_accept_gap:
  assumes "successively (\<lambda>a b. a < b \<and> b \<le> a + 256) ks" "ks \<noteq> []"
    "map telegram_index scans = map (\<lambda>k. Some (int (k mod 256))) ks" "last_telegram_index d = None"
  shows "last_telegram_index (fold accept_scan scans d) = Some (int (last ks mod 256)) \<and> hd ks \<le> last ks \<and>
    dropped_scans (counters (fold accept_scan scans d)) + length ks = dropped_scans (counters d) + (last ks - hd ks + 1)"
  using assms(2,1,3,4)
proof (induction ks arbitrary: scans rule: rev_nonempty_induct)
  case (single k)
  then obtain x where "scans = [x]" "telegram_index x = Some (int (k mod 256))"
    by (cases scans) (auto simp: map_eq_Cons_conv)
  then show ?case using single by (simp add: accept_scan_dropped index_gap_def)
next
  case (snoc k ks)
  from snoc.prems(2) obtain xs x where scans: "scans = xs @ [x]" "map telegram_index xs = map (\<lambda>k. Some (int (k mod 256))) ks"
    "telegram_index x = Some (int (k mod 256))"
    by (auto simp: map_eq_append_conv map_eq_Cons_conv)
  have ks: "successively (\<lambda>a b. a < b \<and> b \<le> a + 256) ks" "last ks < k" "k \<le> last ks + 256"
    using snoc.prems(1) snoc.hyps by (auto simp: successively_append_iff)
  note IH = snoc.IH [OF ks(1) scans(2) snoc.prems(3)]
  then have "dropped_scans (counters (fold accept_scan scans d)) =
      dropped_scans (counters (fold accept_scan xs d)) + (k - last ks - 1)"
    using index_gap_step [OF ks(2,3)] by (simp add: scans accept_scan_dropped)
  then show ?case using IH ks(2) snoc.hyps by (simp add: scans) linarith
qed

text \<open>A concrete run on the simulator, for the examples.\<close>

lemma default_simulated: "simulated default_settings"
  by (simp add: simulated_def valid_settings_def field_constraints_def validate_settings_def validate_geometry_def
      default_settings_def BAUD_LITERALS_def)

definition default_device :: Device where
  "default_device = new_device default_settings (sim_transport default_settings) 0"

lemma default_device_sel [simp]:
  "settings default_device = default_settings" "dev_state default_device = DISCONNECTED"
  "tr_kind (transport default_device) = transport_kind.Simulator" "is_open default_device = False"
  by (simp_all add: default_device_def new_device_def sim_transport_def new_transport_def)

lemma default_run:
  obtains ts d' where "initialize True default_device ts = (Done (), d', [])"
proof -
  obtain d' m' where "plays (initialize True) () default_device (sim_start default_settings) d' m'"
    using plays_initialize [OF default_simulated] unfolding default_device_def by metis
  then show ?thesis unfolding plays_def using that by (metis append_Nil2)
qed

lemma default_exchange:
  obtains d ts reply d' where "command status_request d ts = (Done reply, d', [])" "settings d = default_settings"
proof -
  obtain d m where d: "in_step d m" "settings d = default_settings"
    using plays_connect [OF default_simulated] by (metis essentials_def fst_conv)
  have "in_step (transition CONNECTED d) m" using d(1) by (simp add: in_step_def ready_def)
  then obtain data d' m' where "plays read_status (sim_reported m data) (transition CONNECTED d) m d' m'"
    using plays_status by metis
  then obtain tape where "read_status (transition CONNECTED d) tape = (Done (sim_reported m data), d', [])"
    unfolding plays_def by (metis append_Nil2)
  then obtain reply d1 ts1 where "command status_request (transition STATUS (transition CONNECTED d)) tape = (Done reply, d1, ts1)"
    and "bind (from_result (decode_status reply)) (\<lambda>status. bind (modify (\<lambda>d. d\<lparr>info := Some status\<rparr>)) (\<lambda>_. ret status)) d1 ts1
      = (Done (sim_reported m data), d', [])"
    by (auto simp: read_status_def goto_def bind_Done_eq)
  moreover from this(2) have "ts1 = []" by (cases "decode_status reply") auto
  ultimately show ?thesis using that d(2) by auto
qed

section \<open>Properties\<close>

text \<open>
  C7: a command returns only a genuine answer: the reply was decoded from a telegram
  with a valid checksum and an expected address, it is the reply to this command, and it
  confirms what was requested.
\<close>

theorem command_reply_confirmed:
  assumes "command cmd d ts = (Done reply, d', ts')"
  shows "\<exists>frame. encode (frame_payload frame) (frame_address frame) = Inr (frame_raw frame) \<and>
    frame_address frame \<in> expected_addresses (cfg_address (settings d)) \<and>
    response frame (cfg_address (settings d)) = Inr reply \<and>
    resp_command reply = cmd_response_id cmd \<and> confirm reply (cmd_payload cmd) = Inr ()"
proof -
  obtain e where e: "settings e = settings d"
    "attempts_loop cmd 0 (cmd_attempts cmd) e ts = (Done reply, d', ts')"
    using command_attempts [OF assms] by blast
  have "answers cmd (settings d) reply" using attempts_answers [OF e(2)] e(1) by simp
  then obtain frame where "genuine (EvFrame frame)" "response frame (cfg_address (settings d)) = Inr reply"
    and "resp_command reply = cmd_response_id cmd" "confirm reply (cmd_payload cmd) = Inr ()"
    by (auto simp: answers_def)
  with response_InrD(2) show ?thesis by auto
qed

theorem command_reply_confirmed_witness:
  "\<exists>d ts reply d'. settings d = default_settings \<and> command status_request d ts = (Done reply, d', []) \<and>
    resp_command reply = 0xB1 \<and> (\<exists>frame. encode (frame_payload frame) (frame_address frame) = Inr (frame_raw frame) \<and>
      response frame 0 = Inr reply)"
proof -
  obtain d ts reply d' where c: "command status_request d ts = (Done reply, d', [])" "settings d = default_settings"
    by (rule default_exchange)
  from command_reply_confirmed [OF c(1)] c show ?thesis
    by (auto simp: default_settings_def command_defs)
qed





text \<open>
  C5: a scanner that may have been changed is never left running silently.  Closing an
  open device that is marked as changed sends the stop telegram, exactly once and
  nothing else, whatever happens during the close.
\<close>

theorem close_sends_stop:
  assumes "at_rest s d" "valid_settings s" "is_open d" "changed d" "\<not> is_replay (transport d)"
    "write_guard (transport d) = Inr ()" "close d ts = (out, d', ts')"
  shows "\<exists>raw. telegram stop_command (cfg_address s) = Inr raw \<and> sent d' = sent d @ [raw]"
proof -
  have "only_reads s d"
    by (rule reading.at_rest_ok [OF assms(1)]) (simp add: only_reads_def new_device_def)
  then have d: "settings d = s" "require_write s = Inr ()" using assms(4) by (auto simp: only_reads_def)
  obtain raw where raw: "telegram stop_command (cfg_address s) = Inr raw"
    using telegram_Inr [of stop_command "cfg_address s"] valid_address [OF assms(2)] by (auto simp: stop_command_def)
  let ?d = "transition STOPPING d"
  let ?rest = "bind stop_reader (\<lambda>_. bind close_transport (\<lambda>_.
     bind (modify (\<lambda>d. d\<lparr>is_open := False, changed := False\<rparr>)) (\<lambda>_. goto DISCONNECTED)))"
  have c: "bind stop_scanner (\<lambda>_. ?rest) ?d ts = (out, d', ts')"
    using assms(3-5,7) by (simp add: close_def close_unlocked_def close_session_def goto_def)
  obtain o1 d1 ts1 where st: "stop_scanner ?d ts = (o1, d1, ts1)" by (metis surj_pair)
  have d1: "settings d1 = s \<and> sent d1 = sent d @ [raw]"
    using stop_scanner_sent [OF _ _ _ st] raw d assms(6) by simp
  have "sent d' = sent d @ [raw]"
  proof (cases o1)
    case (Done u)
    then have "?rest d1 ts1 = (out, d', ts')" using c st by (simp add: bind_def)
    then show ?thesis using endsD [OF stop_rest_silent] d1 by blast
  qed (use c st d1 in \<open>auto simp: bind_def\<close>)
  with raw show ?thesis by blast
qed

theorem close_sends_stop_witness:
  "\<exists>d raw. at_rest default_settings d \<and> is_open d \<and> changed d \<and> telegram stop_command 0 = Inr raw \<and>
     sent (fst (snd (close d []))) = sent d @ [raw]"
proof -
  obtain ts d where r: "initialize True default_device ts = (Done (), d, [])" by (rule default_run)
  have start: "at_rest default_settings default_device"
    unfolding default_device_def by (rule at_rest.created)
  have rest: "at_rest default_settings d"
    using at_rest.finished [OF start, of "Initialize True" ts "Done ()" d "[]"] r by simp
  have d: "is_open d" "changed d" using initialize_result [OF r] by (simp_all add: is_replay_def)
  have "tr_kind (transport d) = transport_kind.Simulator"
    using endsD [OF wired.initialize_ok _ r, of default_settings transport_kind.Simulator] by simp
  then have guard: "\<not> is_replay (transport d)" "write_guard (transport d) = Inr ()"
    by (simp_all add: is_replay_def write_guard_def)
  have valid: "valid_settings default_settings" using default_simulated by (simp add: simulated_def)
  obtain out d' ts' where c: "close d [] = (out, d', ts')" by (metis surj_pair)
  from close_sends_stop [OF rest valid d guard c] c show ?thesis
    using rest d by (auto simp: default_settings_def)
qed

text \<open>
  C4: a device that streams a physical or simulated scanner streams what was asked for:
  in every state between and during requests, streaming implies that the transport is
  open and that the last readback of the scanner agrees with the settings (or that a
  recording is replayed).
\<close>

theorem streaming_is_verified:
  assumes "at_rest s d" "valid_request req" "perform req d ts = (out, d', ts')" "dev_state d' = STREAMING"
  shows "is_open d' \<and> (is_replay (transport d') \<or> verified s d')"
proof -
  have "settings d' = s \<and> stream_verified s d'"
    by (rule streaming.throughout [OF assms(1-3)]) (simp add: stream_verified_def new_device_def)
  with assms(4) show ?thesis by (simp add: stream_verified_def)
qed

theorem streaming_is_verified_witness:
  "\<exists>ts d'. perform (Initialize True) default_device ts = (Done (), d', []) \<and> dev_state d' = STREAMING \<and>
     is_open d' \<and> verified default_settings d'"
proof -
  obtain ts d' where r: "initialize True default_device ts = (Done (), d', [])" by (rule default_run)
  have start: "at_rest default_settings default_device"
    unfolding default_device_def by (rule at_rest.created)
  have st: "dev_state d' = STREAMING" using initialize_result [OF r] by (simp add: is_replay_def)
  have p: "perform (Initialize True) default_device ts = (Done (), d', [])" using r by simp
  have "tr_kind (transport d') = transport_kind.Simulator"
    using endsD [OF wired.initialize_ok _ r, of default_settings transport_kind.Simulator] by simp
  with streaming_is_verified [OF start _ p st] p st show ?thesis by (auto simp: is_replay_def)
qed

text \<open>
  C11: the device keeps bounded buffers and an honest history: in every state between and
  during requests the log holds at most 200 lines, the event queue at most 64 events and
  the scan times at most 150 entries, and the history starts with \<open>DISCONNECTED\<close> and ends
  with the current state.
\<close>

theorem device_stays_bounded:
  assumes "at_rest s d" "valid_request req" "perform req d ts = (out, d', ts')"
  shows "length (dev_log d') \<le> 200 \<and> length (events d') \<le> 64 \<and> length (scan_times d') \<le> 150 \<and>
    hd (history d') = DISCONNECTED \<and> last (history d') = dev_state d'"
proof -
  have "settings d' = s \<and> in_bounds d'"
    by (rule bounded.throughout [OF assms]) (simp add: in_bounds_def new_device_def)
  moreover have "settings d' = s \<and> traced d'"
    by (rule tracing.throughout [OF assms]) (simp add: traced_def new_device_def)
  ultimately show ?thesis by (simp add: in_bounds_def traced_def)
qed

theorem device_stays_bounded_witness:
  "\<exists>ts d'. perform (Initialize True) default_device ts = (Done (), d', []) \<and> length (dev_log d') \<le> 200 \<and>
     length (events d') \<le> 64 \<and> last (history d') = STREAMING"
proof -
  obtain ts d' where r: "initialize True default_device ts = (Done (), d', [])" by (rule default_run)
  have start: "at_rest default_settings default_device"
    unfolding default_device_def by (rule at_rest.created)
  have st: "dev_state d' = STREAMING" using initialize_result [OF r] by (simp add: is_replay_def)
  have p: "perform (Initialize True) default_device ts = (Done (), d', [])" using r by simp
  from device_stays_bounded [OF start _ p] p st show ?thesis by auto
qed

text \<open>
  C9: the scans a client gets are complete and in order: their sequence numbers are
  1, 2, 3 and so on, the latest is the last, each has a point for every step of a
  supported field of view, and each carries a telegram with a valid checksum.
\<close>

theorem scans_in_sequence:
  assumes "at_rest s d" "valid_request req" "perform req d ts = (out, d', ts')"
  shows "map sequence (delivered d') = map Suc [0..<received_scans (counters d')] \<and>
    latest d' = (if delivered d' = [] then None else Some (last (delivered d'))) \<and>
    (\<forall>scan \<in> set (delivered d'). complete_scan scan)"
proof -
  have "settings d' = s \<and> in_sequence d'"
    by (rule sequencing.throughout [OF assms]) (simp add: in_sequence_def new_device_def zero_counters_def)
  then show ?thesis by (simp add: in_sequence_def)
qed

theorem scans_in_sequence_witness:
  "\<exists>ts d'. perform (Initialize True) default_device ts = (Done (), d', []) \<and>
     map sequence (delivered d') = map Suc [0..<received_scans (counters d')]"
proof -
  obtain ts d' where r: "initialize True default_device ts = (Done (), d', [])" by (rule default_run)
  have start: "at_rest default_settings default_device"
    unfolding default_device_def by (rule at_rest.created)
  have p: "perform (Initialize True) default_device ts = (Done (), d', [])" using r by simp
  from scans_in_sequence [OF start _ p] p show ?thesis by auto
qed

text \<open>
  C10: lost scans are counted exactly.  When the scanner numbers its telegrams modulo 256
  and the device receives those with the absolute numbers \<open>ks\<close>, never losing 256 or
  more in a row, the counter of dropped scans grows by exactly the number of telegrams
  missing between the first and the last.
\<close>

theorem dropped_scans_exact:
  assumes "successively (\<lambda>a b. a < b \<and> b \<le> a + 256) ks" "ks \<noteq> []"
    "map telegram_index scans = map (\<lambda>k. Some (int (k mod 256))) ks" "last_telegram_index d = None"
  shows "dropped_scans (counters (fold accept_scan scans d)) + length ks =
    dropped_scans (counters d) + (last ks - hd ks + 1)"
  using fold_accept_gap [OF assms] by blast

theorem dropped_scans_exact_witness:
  "\<exists>scans. length scans = 3 \<and> dropped_scans (counters (fold accept_scan scans default_device)) = 4"
proof -
  let ?scan = "\<lambda>k. undefined\<lparr>telegram_index := Some (int (k mod 256))\<rparr> :: Scan"
  let ?ks = "[254, 256, 260 :: nat]"
  have "dropped_scans (counters (fold accept_scan (map ?scan ?ks) default_device)) + length ?ks =
      dropped_scans (counters default_device) + (last ?ks - hd ?ks + 1)"
    by (rule dropped_scans_exact) (simp_all add: default_device_def new_device_def)
  then have "dropped_scans (counters (fold accept_scan (map ?scan ?ks) default_device)) = 4"
    by (simp add: default_device_def new_device_def zero_counters_def)
  then show ?thesis by (intro exI [of _ "map ?scan ?ks"]) simp
qed

text \<open>
  A stream that falls silent is noticed.  When the reader of a streaming device
  gets nothing and the last scan is older than the stream timeout, the device faults,
  counts a timeout and says why; while the last scan is recent enough it goes on.
\<close>

theorem silent_stream_faults:
  assumes "reader d = Running" "dev_state d = STREAMING" "tr_opened (transport d)" "buffer (dev_framer d) = []"
    "got r = TimedOut"
  defines "waited \<equiv> max (clock d) (read_at r) - (if scan_times d = [] then stream_since d else last (scan_times d))"
  shows "if cfg_stream_timeout (settings d) < waited
    then dev_state (reader_step r d) = FAULTED \<and>
      timeouts (counters (reader_step r d)) = timeouts (counters d) + 1 \<and>
      last_error (reader_step r d) = Some ''Measurement timeout; reconnect required''
    else dev_state (reader_step r d) = STREAMING"
proof -
  have "transport_read (transport (begin_read r d)) (got r) = Inr []"
    using assms(3,5) by (auto simp: begin_read_def Let_def transport_read_def)
  moreover have "read_data u [] (begin_read r d) = begin_read r d" for u
    using assms(4) by (simp add: read_data_def begin_read_def Let_def)
  ultimately have "reader_step r d = check_stream (begin_read r d)"
    using assms(1) by (simp add: reader_step_def finish_read_def)
  then show ?thesis
    using assms(2) by (auto simp: check_stream_def begin_read_def Let_def waited_def one_timeout_def)
qed

theorem silent_stream_faults_witness:
  "let d = default_device\<lparr>reader := Running, dev_state := STREAMING, transport := (transport default_device)\<lparr>tr_opened := True\<rparr>\<rparr>;
       r = \<lparr>read_at = 5, utc_now = [], stamp_now = None, got = TimedOut\<rparr> in
   dev_state (reader_step r d) = FAULTED \<and> timeouts (counters (reader_step r d)) = 1"
  using silent_stream_faults [of "default_device\<lparr>reader := Running, dev_state := STREAMING,
      transport := (transport default_device)\<lparr>tr_opened := True\<rparr>\<rparr>"
      "\<lparr>read_at = 5, utc_now = [], stamp_now = None, got = TimedOut\<rparr>"]
  by (simp add: default_device_def new_device_def new_framer_def zero_counters_def default_settings_def)

end
