(* ===== verification/Recording.thy ===== *)
theory Recording
  imports Device
begin

text \<open>
  Recordings: \<^verbatim>\<open>recording.py\<close> writes the raw telegrams of the scans with a timing index, an
  optional decoded copy and a metadata sidecar; \<^verbatim>\<open>transports/replay.py\<close> plays them back as
  a byte stream.  The two meet in the recording folder, a map from file names to
  contents.  JSON text is represented by the values it denotes: an index line is the
  entry that \<^verbatim>\<open>json.loads\<close> gives, text that is no JSON, or an object without one of the keys.  The keys of
  the sidecar that no code reads back (\<^verbatim>\<open>created\<close>, \<^verbatim>\<open>coordinate_frame\<close>) are left out.

  A failure of the disk is an argument: \<open>disk stage\<close> is the exception, if any, that the
  file operation of that stage raises.
\<close>

section \<open>Files\<close>

record index_entry =
  ix_offset :: int
  ix_length :: int
  ix_timestamp :: string
  ix_sequence :: nat

datatype index_line = Line index_entry | NotJson | MissingKey

datatype stored =
    RawFile bytes
  | IndexFile "index_line list"
  | DecodedFile "(Metadata \<times> Scan) list"
  | MetaFile Metadata

type_synonym folder = "string \<rightharpoonup> stored"

text \<open>\<^verbatim>\<open>path.open("x")\<close> refuses a file that exists.\<close>

fun create_files :: "(string \<times> stored) list \<Rightarrow> folder \<Rightarrow> folder \<times> unit result" where
  "create_files [] fs = (fs, Inr ())"
| "create_files ((name, content) # rest) fs =
     (case fs name of
        Some _ \<Rightarrow> (fs, Inl (OSError ''File exists''))
      | None \<Rightarrow> create_files rest (fs(name \<mapsto> content)))"

definition raw_of :: "folder \<Rightarrow> string \<Rightarrow> bytes" where
  "raw_of fs name = (case fs name of Some (RawFile bs) \<Rightarrow> bs | _ \<Rightarrow> [])"

definition lines_of :: "folder \<Rightarrow> string \<Rightarrow> index_line list" where
  "lines_of fs name = (case fs name of Some (IndexFile ls) \<Rightarrow> ls | _ \<Rightarrow> [])"

definition decoded_of :: "folder \<Rightarrow> string \<Rightarrow> (Metadata \<times> Scan) list" where
  "decoded_of fs name = (case fs name of Some (DecodedFile ds) \<Rightarrow> ds | _ \<Rightarrow> [])"

text \<open>\<^verbatim>\<open>Path.with_suffix\<close> on a file name: the last suffix is replaced.\<close>

definition with_suffix :: "string \<Rightarrow> string \<Rightarrow> string" where
  "with_suffix name suffix =
     (let ext = takeWhile (\<lambda>c. c \<noteq> CHR ''.'') (rev name);
          rest = dropWhile (\<lambda>c. c \<noteq> CHR ''.'') (rev name)
      in if rest \<noteq> [] \<and> ext \<noteq> [] \<and> tl rest \<noteq> [] then rev (tl rest) @ suffix else name @ suffix)"

lemma with_suffix_bin: "n \<noteq> [] \<Longrightarrow> with_suffix (n @ ''.bin'') suffix = n @ suffix"
  by (simp add: with_suffix_def)

section \<open>Recorder\<close>

record Recorder =
  rec_name :: string
  rec_jsonl :: bool
  rec_metadata :: Metadata
  rec_count :: nat
  rec_closed :: bool

definition rec_path :: "Recorder \<Rightarrow> string" where
  "rec_path r = rec_name r @ ''.bin''"

text \<open>\<^verbatim>\<open>Path(name).name == name\<close>, and the name is none of the special ones.\<close>

definition filename_stem :: "string \<Rightarrow> bool" where
  "filename_stem name \<longleftrightarrow> CHR ''/'' \<notin> set name \<and> name \<notin> {[], ''.'', ''..''}"

text \<open>\<open>stamp\<close> is the name made of the current time, used when none is given.\<close>

definition recording_name :: "string option \<Rightarrow> string \<Rightarrow> string" where
  "recording_name name stamp =
     (case name of None \<Rightarrow> stamp | Some n \<Rightarrow> if n = [] then stamp else n)"

definition recording_metadata :: "Metadata \<Rightarrow> Metadata" where
  "recording_metadata meta =
     meta\<lparr>meta_format := (case meta_format meta of None \<Rightarrow> Some ''lms200-raw-v1'' | Some f \<Rightarrow> Some f)\<rparr>"

definition new_recorder ::
  "folder \<Rightarrow> Metadata \<Rightarrow> string option \<Rightarrow> string \<Rightarrow> bool \<Rightarrow> folder \<times> Recorder result"
where
  "new_recorder fs meta name stamp jsonl =
     (let n = recording_name name stamp; path = n @ ''.bin'' in
      if \<not> filename_stem n then (fs, Inl (ValueError ''Recording name must be a filename stem''))
      else case create_files
          ([(path, RawFile []), (with_suffix path ''.index.jsonl'', IndexFile [])] @
           (if jsonl then [(with_suffix path ''.jsonl'', DecodedFile [])] else [])) fs of
        (fs', Inl e) \<Rightarrow> (fs', Inl e)
      | (fs', Inr _) \<Rightarrow>
          (let m = recording_metadata meta in
           (fs'(with_suffix path ''.metadata.json'' \<mapsto> MetaFile m),
            Inr \<lparr>rec_name = n, rec_jsonl = jsonl, rec_metadata = m, rec_count = 0, rec_closed = False\<rparr>)))"

datatype write_stage = RawWrite | IndexWrite | DecodedWrite | Flush

type_synonym disk = "write_stage \<Rightarrow> error option"

definition write_raw :: "bytes \<Rightarrow> Recorder \<Rightarrow> folder \<Rightarrow> folder" where
  "write_raw raw r fs = fs(rec_path r \<mapsto> RawFile (raw_of fs (rec_path r) @ raw))"

definition write_index :: "int \<Rightarrow> int \<Rightarrow> Scan \<Rightarrow> Recorder \<Rightarrow> folder \<Rightarrow> folder" where
  "write_index start len scan r fs =
     (let name = with_suffix (rec_path r) ''.index.jsonl'' in
      fs(name \<mapsto> IndexFile (lines_of fs name @
        [Line \<lparr>ix_offset = start, ix_length = len, ix_timestamp = timestamp scan,
               ix_sequence = sequence scan\<rparr>])))"

definition write_decoded :: "Scan \<Rightarrow> Recorder \<Rightarrow> folder \<Rightarrow> folder" where
  "write_decoded scan r fs =
     (let name = with_suffix (rec_path r) ''.jsonl'' in
      if rec_jsonl r
      then fs(name \<mapsto> DecodedFile (decoded_of fs name @ [(rec_metadata r, scan)]))
      else fs)"

text \<open>
  \<^verbatim>\<open>Recorder.write\<close>.  The offset is the position of the append-only raw file.  What was
  written before a failing stage stays written.
\<close>

definition record_scan :: "disk \<Rightarrow> Scan \<Rightarrow> Recorder \<Rightarrow> folder \<Rightarrow> folder \<times> Recorder \<times> unit result" where
  "record_scan disk scan r fs =
     (if rec_closed r then (fs, r, Inl (ValueError ''Recording is closed''))
      else case fromhex (raw_telegram_hex scan) of
        Inl e \<Rightarrow> (fs, r, Inl e)
      | Inr raw \<Rightarrow>
          (let start = int (length (raw_of fs (rec_path r)));
               fs1 = write_raw raw r fs;
               fs2 = write_index start (int (length raw)) scan r fs1;
               fs3 = write_decoded scan r fs2;
               r' = r\<lparr>rec_count := rec_count r + 1\<rparr> in
           case disk RawWrite of Some e \<Rightarrow> (fs, r, Inl e) | None \<Rightarrow>
           (case disk IndexWrite of Some e \<Rightarrow> (fs1, r, Inl e) | None \<Rightarrow>
           (case (if rec_jsonl r then disk DecodedWrite else None) of
              Some e \<Rightarrow> (fs2, r, Inl e) | None \<Rightarrow>
           (case disk Flush of Some e \<Rightarrow> (fs3, r', Inl e) | None \<Rightarrow> (fs3, r', Inr ()))))))"

definition close_recorder :: "Recorder \<Rightarrow> Recorder" where
  "close_recorder r = r\<lparr>rec_closed := True\<rparr>"

section \<open>Replay\<close>

text \<open>An open file is its content and the position of the next read.\<close>

record Player =
  rp_speed :: seconds
  rp_file :: "(bytes \<times> nat) option"
  rp_index :: "index_line list option"
  rp_remaining :: int
  rp_previous :: "seconds option"
  rp_timestamp :: "string option"

definition new_player :: "seconds \<Rightarrow> Player" where
  "new_player speed = \<lparr>rp_speed = speed, rp_file = None, rp_index = None, rp_remaining = 0,
     rp_previous = None, rp_timestamp = None\<rparr>"

definition load_metadata :: "folder \<Rightarrow> string \<Rightarrow> Metadata result" where
  "load_metadata fs path =
     (case fs (with_suffix path ''.metadata.json'') of
        None \<Rightarrow> Inl (ValueError ''Raw replay needs a .metadata.json sidecar; see docs/PROTOCOL.md'')
      | Some (MetaFile meta) \<Rightarrow> Inr meta
      | Some _ \<Rightarrow> Inl (ValueError ''Expecting value''))"

definition open_files :: "folder \<Rightarrow> string \<Rightarrow> Player \<Rightarrow> Player result" where
  "open_files fs path p =
     (case fs path of
        Some (RawFile content) \<Rightarrow>
          Inr (p\<lparr>rp_file := Some (content, 0),
                 rp_index := (case fs (with_suffix path ''.index.jsonl'') of
                                Some (IndexFile ls) \<Rightarrow> Some ls
                              | Some _ \<Rightarrow> Some [NotJson]
                              | None \<Rightarrow> None),
                 rp_remaining := 0, rp_previous := None\<rparr>)
      | Some _ \<Rightarrow> Inl (OSError ''Not a raw recording'')
      | None \<Rightarrow> Inl (OSError ''No such file or directory''))"

text \<open>\<^verbatim>\<open>ReplayTransport.open\<close>, with the part that \<open>transport_open\<close> sees.\<close>

definition open_replay :: "folder \<Rightarrow> string \<Rightarrow> Transport \<Rightarrow> Player \<Rightarrow> (Transport \<times> Player) result" where
  "open_replay fs path tr p =
     try_bind (load_metadata fs path) (\<lambda>meta.
     try_bind (replay_open meta tr) (\<lambda>tr'.
     try_bind (open_files fs path p) (\<lambda>p'. Inr (tr', p'))))"

text \<open>\<^verbatim>\<open>file.read(n)\<close>: at most \<open>n\<close> bytes, everything for a negative \<open>n\<close>.\<close>

definition file_read :: "int \<Rightarrow> bytes \<times> nat \<Rightarrow> bytes \<times> bytes \<times> nat" where
  "file_read n f =
     (case f of (content, pos) \<Rightarrow>
        let data = (if n < 0 then drop pos content else take (nat n) (drop pos content))
        in (data, content, pos + length data))"

text \<open>
  The beginning of \<^verbatim>\<open>read\<close>: at the end of a telegram the next index line is taken; the
  value is the number of seconds to sleep.  \<open>epoch\<close> is \<^verbatim>\<open>datetime.fromisoformat(t).timestamp()\<close>,
  which has no value on text that is no ISO timestamp.
\<close>

definition check_end :: "bytes \<times> nat \<Rightarrow> Player \<Rightarrow> Player \<times> seconds result" where
  "check_end f p =
     (case file_read 1 f of (data, f') \<Rightarrow>
        (p\<lparr>rp_file := Some f'\<rparr>,
         Inl (if data \<noteq> [] then ValueError ''Recording contains data beyond its timing index''
              else EOFError ''Replay complete'')))"

definition take_entry ::
  "(string \<Rightarrow> seconds option) \<Rightarrow> nat \<Rightarrow> index_entry \<Rightarrow> Player \<Rightarrow> Player \<times> seconds result"
where
  "take_entry epoch pos entry p0 =
     (let p = p0\<lparr>rp_remaining := ix_length entry\<rparr>;
          p' = p\<lparr>rp_timestamp := Some (ix_timestamp entry)\<rparr> in
      if \<not> (1 \<le> ix_length entry \<and> ix_length entry \<le> 814) \<or> ix_offset entry \<noteq> int pos
      then (p, Inl (ValueError ''Invalid recording index''))
      else case epoch (ix_timestamp entry) of
        None \<Rightarrow> (p', Inl (ValueError ''Invalid isoformat string''))
      | Some now \<Rightarrow>
          (p'\<lparr>rp_previous := Some now\<rparr>,
           Inr (case rp_previous p of None \<Rightarrow> 0 | Some before \<Rightarrow> max 0 (now - before) / rp_speed p)))"

definition next_entry ::
  "(string \<Rightarrow> seconds option) \<Rightarrow> bytes \<times> nat \<Rightarrow> Player \<Rightarrow> Player \<times> seconds result"
where
  "next_entry epoch f p =
     (case rp_index p of
        None \<Rightarrow> (p, Inr 0)
      | Some lines \<Rightarrow>
          if rp_remaining p \<noteq> 0 then (p, Inr 0)
          else case lines of
            [] \<Rightarrow> check_end f p
          | NotJson # rest \<Rightarrow> (p\<lparr>rp_index := Some rest\<rparr>, Inl (ValueError ''Expecting value''))
          | MissingKey # rest \<Rightarrow> (p\<lparr>rp_index := Some rest\<rparr>, Inl KeyError)
          | Line entry # rest \<Rightarrow> take_entry epoch (snd f) entry (p\<lparr>rp_index := Some rest\<rparr>))"

definition read_amount :: "int \<Rightarrow> Player \<Rightarrow> int" where
  "read_amount limit p =
     (if rp_index p \<noteq> None then min limit (min 137 (rp_remaining p)) else min limit 137)"

definition read_file :: "int \<Rightarrow> bytes \<times> nat \<Rightarrow> Player \<Rightarrow> Player \<times> bytes result" where
  "read_file limit f p =
     (case file_read (read_amount limit p) f of (data, f') \<Rightarrow>
        let p' = p\<lparr>rp_file := Some f'\<rparr> in
        if data = [] then
          (p', Inl (if rp_index p \<noteq> None \<and> rp_remaining p \<noteq> 0
                    then ValueError ''Recording ended inside an indexed telegram''
                    else EOFError ''Replay complete''))
        else if rp_index p \<noteq> None
        then (p'\<lparr>rp_remaining := rp_remaining p - int (length data)\<rparr>, Inr data)
        else (p', Inr data))"

definition replay_read ::
  "(string \<Rightarrow> seconds option) \<Rightarrow> int \<Rightarrow> Player \<Rightarrow> Player \<times> (seconds \<times> bytes) result"
where
  "replay_read epoch limit p =
     (case rp_file p of
        None \<Rightarrow> (p, Inl (EOFError ''Replay closed''))
      | Some f \<Rightarrow>
          (case next_entry epoch f p of
             (p1, Inl e) \<Rightarrow> (p1, Inl e)
           | (p1, Inr pause) \<Rightarrow>
               (case read_file limit f p1 of
                  (p2, Inl e) \<Rightarrow> (p2, Inl e)
                | (p2, Inr data) \<Rightarrow> (p2, Inr (pause, data)))))"

definition close_replay :: "Player \<Rightarrow> Player" where
  "close_replay p = p\<lparr>rp_file := None, rp_index := None\<rparr>"

end
