(* ===== verification/Recording_Properties.thy ===== *)
theory Recording_Properties
  imports Recording
begin

text \<open>
  What recordings promise.  \<open>replay_run\<close> reads until a read raises, which it always
  does; \<open>tiles\<close> says what a sound index is, and \<open>heard_between\<close> that a replay is
  complete exactly on a sound one.  The recorder produces sound indices, which gives the
  round trip from the scans of a session to the telegrams the framer finds in a replay.
\<close>

section \<open>Playing a recording to its end\<close>

definition unread :: "Player \<Rightarrow> nat" where
  "unread p = (case rp_file p of None \<Rightarrow> 0 | Some (content, pos) \<Rightarrow> length content - pos)"

lemma file_read_props:
  assumes "file_read n (content, pos) = (data, content', pos')"
  shows "content' = content" "pos' = pos + length data" "data = take (length data) (drop pos content)"
    "data \<noteq> [] \<Longrightarrow> pos < length content"
proof -
  define m where "m = (if n < 0 then length content else nat n)"
  have d: "data = take m (drop pos content)" "content' = content" "pos' = pos + length data"
    using assms by (auto simp: file_read_def Let_def m_def split: if_splits)
  then show "content' = content" "pos' = pos + length data" by simp_all
  show "data = take (length data) (drop pos content)" unfolding d(1) by (cases "m \<le> length content - pos") auto
  show "data \<noteq> [] \<Longrightarrow> pos < length content" using d(1) by auto
qed

lemma next_entry_Inr:
  "next_entry epoch f p = (p', Inr pause) \<Longrightarrow> rp_file p' = rp_file p"
  by (auto simp: next_entry_def take_entry_def check_end_def Let_def
      split: option.splits if_splits list.splits index_line.splits prod.splits)

lemma replay_read_progress:
  assumes "replay_read epoch limit p = (p', Inr (pause, data))"
  obtains content pos where "rp_file p = Some (content, pos)"
    "rp_file p' = Some (content, pos + length data)"
    "data \<noteq> []" "data = take (length data) (drop pos content)" "pos < length content"
proof -
  from assms obtain f p1 where f: "rp_file p = Some f" "next_entry epoch f p = (p1, Inr pause)"
    and r: "read_file limit f p1 = (p', Inr data)"
    by (auto simp: replay_read_def split: option.splits prod.splits sum.splits)
  obtain content pos where fc: "f = (content, pos)" by (cases f)
  obtain d c q where fr: "file_read (read_amount limit p1) f = (d, c, q)"
    by (cases "file_read (read_amount limit p1) f") auto
  from r have "data = d" "data \<noteq> []" "rp_file p' = Some (c, q)"
    unfolding read_file_def fr by (auto simp: Let_def split: if_splits)
  then show thesis using that f(1) file_read_props [OF fr [unfolded fc]] fc by metis
qed

lemma replay_read_unread:
  "replay_read epoch limit p = (p', Inr (pause, data)) \<Longrightarrow> unread p' < unread p"
proof (erule replay_read_progress)
  fix content pos
  assume "rp_file p = Some (content, pos)" "rp_file p' = Some (content, pos + length data)"
    "data \<noteq> []" "pos < length content"
  then show ?thesis by (cases data) (simp_all add: unread_def)
qed

text \<open>
  Reads until one raises: every chunk with the sleep before it and the timestamp at
  that time, and the exception.
\<close>

function replay_run ::
  "(string \<Rightarrow> seconds option) \<Rightarrow> int \<Rightarrow> Player \<Rightarrow> (seconds \<times> string option \<times> bytes) list \<times> error"
where
  "replay_run epoch limit p =
     (case replay_read epoch limit p of
        (p', Inl e) \<Rightarrow> ([], e)
      | (p', Inr (pause, data)) \<Rightarrow>
          (case replay_run epoch limit p' of (out, e) \<Rightarrow> ((pause, rp_timestamp p', data) # out, e)))"
  by pat_completeness auto
termination
  by (relation "measure (\<lambda>(_, _, p). unread p)") (auto dest: replay_read_unread [OF sym])

declare replay_run.simps [simp del]

text \<open>What a listener hears: timestamps and chunks, and how it ended.\<close>

definition heard :: "(string \<Rightarrow> seconds option) \<Rightarrow> int \<Rightarrow> Player \<Rightarrow> (string option \<times> bytes) list \<times> error" where
  "heard epoch limit p = (case replay_run epoch limit p of (out, e) \<Rightarrow> (map snd out, e))"

lemma heard_simps:
  "replay_read epoch limit p = (p', Inl e) \<Longrightarrow> heard epoch limit p = ([], e)"
  "replay_read epoch limit p = (p', Inr (pause, data)) \<Longrightarrow>
     heard epoch limit p =
       (case heard epoch limit p' of (out, e) \<Rightarrow> ((rp_timestamp p', data) # out, e))"
  by (subst heard_def, subst replay_run.simps, simp add: heard_def split: prod.splits)+

function pieces :: "nat \<Rightarrow> 'a list \<Rightarrow> 'a list list" where
  "pieces n xs = (if xs = [] \<or> n = 0 then [] else take n xs # pieces n (drop n xs))"
  by pat_completeness auto
termination
  by (relation "measure (\<lambda>(_, xs). length xs)") auto

declare pieces.simps [simp del]

lemma pieces_Nil [simp]: "pieces n [] = []"
  by (simp add: pieces.simps)

lemma concat_pieces [simp]: "0 < n \<Longrightarrow> concat (pieces n xs) = xs"
  by (induction n xs rule: pieces.induct) (subst pieces.simps, auto)

lemma pieces_sizes: "list_all (\<lambda>d. d \<noteq> [] \<and> length d \<le> n) (pieces n xs)"
  by (induction n xs rule: pieces.induct) (subst pieces.simps, auto)

text \<open>Reading inside a telegram of which \<open>k\<close> bytes are left.\<close>

definition inside :: "bytes \<Rightarrow> nat \<Rightarrow> nat \<Rightarrow> Player \<Rightarrow> bool" where
  "inside content pos k p \<longleftrightarrow>
     rp_file p = Some (content, pos) \<and> rp_index p \<noteq> None \<and> rp_remaining p = int k"

lemma next_inside: "inside content pos k p \<Longrightarrow> 0 < k \<Longrightarrow> next_entry epoch f p = (p, Inr 0)"
  by (auto simp: next_entry_def inside_def)

lemma read_inside:
  assumes "inside content pos k p" "0 < k" "1 \<le> limit" "pos < length content"
  shows "replay_read epoch limit p =
    (let d = take (min (nat (min limit 137)) k) (drop pos content) in
     (p\<lparr>rp_file := Some (content, pos + length d), rp_remaining := int k - int (length d)\<rparr>, Inr (0, d)))"
proof -
  have "read_amount limit p = int (min (nat (min limit 137)) k)"
    using assms by (auto simp: read_amount_def inside_def)
  moreover have "drop pos content \<noteq> []" using assms(4) by simp
  ultimately show ?thesis
    using assms next_inside [OF assms(1,2)]
    by (auto simp: replay_read_def read_file_def file_read_def inside_def Let_def)
qed

lemma heard_inside:
  assumes "inside content pos k p" "1 \<le> limit" "pos + k \<le> length content"
  shows "heard epoch limit p =
    (case heard epoch limit (p\<lparr>rp_file := Some (content, pos + k), rp_remaining := 0\<rparr>) of (out, e) \<Rightarrow>
       (map (Pair (rp_timestamp p)) (pieces (nat (min limit 137)) (take k (drop pos content))) @ out, e))"
  using assms
proof (induction k arbitrary: pos p rule: less_induct)
  case (less k)
  let ?n = "nat (min limit 137)"
  show ?case
  proof (cases "k = 0")
    case True
    then have "p\<lparr>rp_file := Some (content, pos + k), rp_remaining := 0\<rparr> = p"
      using less.prems by (simp add: inside_def)
    then show ?thesis using True by simp
  next
    case False
    define j where "j = min ?n k"
    let ?p = "p\<lparr>rp_file := Some (content, pos + j), rp_remaining := int (k - j)\<rparr>"
    have j: "0 < j" "j \<le> k" "length (take j (drop pos content)) = j"
      using False less.prems(2,3) by (auto simp: j_def)
    have k: "0 < k" "pos < length content" using False less.prems by auto
    have r: "replay_read epoch limit p = (?p, Inr (0, take j (drop pos content)))"
      using read_inside [OF less.prems(1) k(1) less.prems(2) k(2), of epoch] j
      unfolding j_def [symmetric] Let_def j(3) by (simp add: of_nat_diff)
    have IH: "heard epoch limit ?p =
      (case heard epoch limit (?p\<lparr>rp_file := Some (content, pos + j + (k - j)), rp_remaining := 0\<rparr>) of (out, e) \<Rightarrow>
       (map (Pair (rp_timestamp ?p)) (pieces ?n (take (k - j) (drop (pos + j) content))) @ out, e))"
      using less.prems False j by (intro less.IH) (auto simp: inside_def)
    have "pieces ?n (take k (drop pos content)) =
        take j (drop pos content) # pieces ?n (take (k - j) (drop (pos + j) content))"
      using j less.prems unfolding j_def
      by (subst pieces.simps, cases "?n \<le> k") (auto simp: drop_take add.commute min.commute)
    then show ?thesis using heard_simps(2) [OF r] IH j by (simp split: prod.splits)
  qed
qed

lemma heard_truncated:
  assumes "inside content pos k p" "1 \<le> limit" "length content < pos + k" "pos \<le> length content"
  shows "snd (heard epoch limit p) = ValueError ''Recording ended inside an indexed telegram''"
  using assms
proof (induction k arbitrary: pos p rule: less_induct)
  case (less k)
  show ?case
  proof (cases "pos < length content")
    case True
    define d where "d = take (min (nat (min limit 137)) k) (drop pos content)"
    have k: "0 < k" using less.prems by simp
    have d: "0 < length d" "length d < k" "pos + length d \<le> length content"
      using True less.prems k by (auto simp: d_def min_def)
    let ?p = "p\<lparr>rp_file := Some (content, pos + length d), rp_remaining := int k - int (length d)\<rparr>"
    have r: "replay_read epoch limit p = (?p, Inr (0, d))"
      using read_inside [OF less.prems(1) k less.prems(2) True, of epoch] by (simp add: Let_def d_def)
    have "snd (heard epoch limit ?p) = ValueError ''Recording ended inside an indexed telegram''"
      using less.prems d by (intro less.IH [of "k - length d" "pos + length d"]) (auto simp: inside_def)
    then show ?thesis using heard_simps(2) [OF r] by (simp split: prod.splits)
  next
    case False
    then have "replay_read epoch limit p =
        (p, Inl (ValueError ''Recording ended inside an indexed telegram''))"
      using less.prems next_inside [OF less.prems(1)]
      by (auto simp: replay_read_def read_file_def file_read_def inside_def Let_def)
    then show ?thesis using heard_simps(1) by simp
  qed
qed

section \<open>What a sound index is\<close>

text \<open>
  The index lines cover the file from \<open>pos\<close> to its end, telegram by telegram, with
  readable timestamps.
\<close>

fun tiles :: "(string \<Rightarrow> seconds option) \<Rightarrow> nat \<Rightarrow> nat \<Rightarrow> index_line list \<Rightarrow> bool" where
  "tiles epoch size_of pos [] \<longleftrightarrow> pos = size_of"
| "tiles epoch size_of pos (Line entry # rest) \<longleftrightarrow>
     ix_offset entry = int pos \<and> 1 \<le> ix_length entry \<and> ix_length entry \<le> 814 \<and>
     epoch (ix_timestamp entry) \<noteq> None \<and> pos + nat (ix_length entry) \<le> size_of \<and>
     tiles epoch size_of (pos + nat (ix_length entry)) rest"
| "tiles epoch size_of pos (_ # rest) \<longleftrightarrow> False"

text \<open>The telegrams an index cuts out of a file, in pieces of at most \<open>n\<close> bytes.\<close>

fun telegrams_in :: "nat \<Rightarrow> bytes \<Rightarrow> nat \<Rightarrow> index_line list \<Rightarrow> (string option \<times> bytes) list" where
  "telegrams_in n content pos (Line entry # rest) =
     map (Pair (Some (ix_timestamp entry)))
       (pieces n (take (nat (ix_length entry)) (drop pos content))) @
     telegrams_in n content (pos + nat (ix_length entry)) rest"
| "telegrams_in n content pos _ = []"

definition between :: "bytes \<Rightarrow> nat \<Rightarrow> index_line list \<Rightarrow> Player \<Rightarrow> bool" where
  "between content pos ls p \<longleftrightarrow>
     rp_file p = Some (content, pos) \<and> rp_index p = Some ls \<and> rp_remaining p = 0"

lemma heard_same:
  assumes "replay_read epoch limit p = (p', Inr (a, d))" "replay_read epoch limit q = (p', Inr (b, d))"
  shows "heard epoch limit p = heard epoch limit q"
  using heard_simps(2) [OF assms(1)] heard_simps(2) [OF assms(2)] by simp

text \<open>A valid entry puts the player inside its telegram.\<close>

lemma heard_entry:
  assumes "between content pos (Line entry # ls) p" "1 \<le> limit" "pos \<le> length content"
    and "ix_offset entry = int pos" "1 \<le> ix_length entry" "ix_length entry \<le> 814"
    and "epoch (ix_timestamp entry) = Some now"
  obtains q where "inside content pos (nat (ix_length entry)) q" "rp_index q = Some ls"
    "rp_timestamp q = Some (ix_timestamp entry)"
    "pos < length content \<Longrightarrow> heard epoch limit p = heard epoch limit q"
    "pos = length content \<Longrightarrow>
       snd (heard epoch limit p) = ValueError ''Recording ended inside an indexed telegram''"
proof -
  obtain pause where n: "next_entry epoch (content, pos) p =
      (p\<lparr>rp_index := Some ls, rp_remaining := ix_length entry,
         rp_timestamp := Some (ix_timestamp entry), rp_previous := Some now\<rparr>, Inr pause)"
    (is "_ = (?q, _)")
    using assms by (simp add: next_entry_def take_entry_def between_def Let_def)
  let ?k = "nat (ix_length entry)"
  have i: "inside content pos ?k ?q" using assms by (simp add: inside_def between_def)
  have k: "0 < ?k" using assms by simp
  have r: "replay_read epoch limit p =
     (case read_file limit (content, pos) ?q of
        (p2, Inl e) \<Rightarrow> (p2, Inl e) | (p2, Inr data) \<Rightarrow> (p2, Inr (pause, data)))"
    using assms(1) n by (simp add: replay_read_def between_def)
  have "heard epoch limit p = heard epoch limit ?q" if pos: "pos < length content"
  proof -
    define d where "d = take (min (nat (min limit 137)) ?k) (drop pos content)"
    have "replay_read epoch limit ?q = (?q\<lparr>rp_file := Some (content, pos + length d),
        rp_remaining := int ?k - int (length d)\<rparr>, Inr (0, d))" (is "_ = (?q', _)")
      using read_inside [OF i k assms(2) pos, of epoch] by (simp add: Let_def d_def)
    moreover have "read_file limit (content, pos) ?q = (?q', Inr d)"
      using calculation next_inside [OF i k] i
      by (auto simp: replay_read_def inside_def split: prod.splits sum.splits)
    ultimately show ?thesis using r by (intro heard_same) simp_all
  qed
  moreover have "snd (heard epoch limit p) = ValueError ''Recording ended inside an indexed telegram''"
    if "pos = length content"
  proof -
    have "snd (read_file limit (content, pos) ?q) =
        Inl (ValueError ''Recording ended inside an indexed telegram'')"
      using that k by (simp add: read_file_def file_read_def Let_def)
    then obtain p2 where "read_file limit (content, pos) ?q =
        (p2, Inl (ValueError ''Recording ended inside an indexed telegram''))"
      by (cases "read_file limit (content, pos) ?q") auto
    with r show ?thesis using heard_simps(1) by simp
  qed
  ultimately show thesis using that i by simp
qed

lemma heard_stuck:
  assumes "between content pos ls p" "1 \<le> limit"
    and "next_entry epoch (content, pos) p = (p', Inl e)"
  shows "heard epoch limit p = ([], e)"
  using assms by (intro heard_simps(1) [of _ _ _ p']) (simp add: replay_read_def between_def)

lemma heard_between:
  assumes "between content pos ls p" "1 \<le> limit" "pos \<le> length content"
  shows "(snd (heard epoch limit p) = EOFError ''Replay complete'' \<longleftrightarrow> tiles epoch (length content) pos ls) \<and>
    (tiles epoch (length content) pos ls \<longrightarrow>
       fst (heard epoch limit p) = telegrams_in (nat (min limit 137)) content pos ls)"
  using assms
proof (induction ls arbitrary: pos p)
  case Nil
  obtain p' e where n: "next_entry epoch (content, pos) p = (p', Inl e)"
    and e: "e = (if pos = length content then EOFError ''Replay complete''
              else ValueError ''Recording contains data beyond its timing index'')"
    using Nil by (simp add: next_entry_def check_end_def file_read_def between_def Let_def)
  show ?case unfolding heard_stuck [OF Nil.prems(1,2) n] e by simp
next
  case (Cons l ls)
  show ?case
  proof (cases l)
    case (Line entry)
    let ?k = "nat (ix_length entry)"
    note pre = Cons.prems(1) [unfolded Line] Cons.prems(2,3)
    show ?thesis
    proof (cases "ix_offset entry = int pos \<and> 1 \<le> ix_length entry \<and> ix_length entry \<le> 814 \<and>
        epoch (ix_timestamp entry) \<noteq> None")
      case True
      then obtain now where now: "epoch (ix_timestamp entry) = Some now" by auto
      from heard_entry [OF pre, where epoch = epoch and now = now] True now obtain q where q: "inside content pos ?k q"
        "rp_index q = Some ls" "rp_timestamp q = Some (ix_timestamp entry)"
        "pos < length content \<Longrightarrow> heard epoch limit p = heard epoch limit q"
        "pos = length content \<Longrightarrow>
           snd (heard epoch limit p) = ValueError ''Recording ended inside an indexed telegram''"
        by blast
      show ?thesis
      proof (cases "pos + ?k \<le> length content")
        case fits: True
        have "between content (pos + ?k) ls (q\<lparr>rp_file := Some (content, pos + ?k), rp_remaining := 0\<rparr>)"
          using q(2) by (simp add: between_def)
        from Cons.IH [OF this pre(2) fits] heard_inside [OF q(1) pre(2) fits, of epoch]
        show ?thesis using True fits q(3,4) by (auto simp: Line split: prod.splits)
      next
        case False
        then have "snd (heard epoch limit p) = ValueError ''Recording ended inside an indexed telegram''"
          using heard_truncated [OF q(1) pre(2), of epoch] pre(3) q(4,5) by fastforce
        then show ?thesis using False by (simp add: Line)
      qed
    next
      case False
      then have "\<exists>p' e. next_entry epoch (content, pos) p = (p', Inl (ValueError e))"
        using pre by (auto simp: next_entry_def take_entry_def between_def Let_def)
      then show ?thesis using heard_stuck [OF pre(1,2)] False by (auto simp: Line)
    qed
  next
    case NotJson
    then have "\<exists>p'. next_entry epoch (content, pos) p = (p', Inl (ValueError ''Expecting value''))"
      using Cons.prems by (simp add: next_entry_def between_def)
    then show ?thesis using heard_stuck [OF Cons.prems(1,2)] NotJson by fastforce
  next
    case MissingKey
    then have "\<exists>p'. next_entry epoch (content, pos) p = (p', Inl KeyError)"
      using Cons.prems by (simp add: next_entry_def between_def)
    then show ?thesis using heard_stuck [OF Cons.prems(1,2)] MissingKey by fastforce
  qed
qed

lemma concat_telegrams:
  "tiles epoch (length content) pos ls \<Longrightarrow> 0 < n \<Longrightarrow> concat (map snd (telegrams_in n content pos ls)) = drop pos content"
proof (induction ls arbitrary: pos)
  case (Cons l ls)
  then obtain entry where l: "l = Line entry" by (cases l) auto
  let ?k = "nat (ix_length entry)"
  have "map snd (map (Pair a) xs) = xs" for a :: "string option" and xs :: "bytes list"
    by (simp add: comp_def)
  then have "concat (map snd (telegrams_in n content pos (l # ls))) =
      take ?k (drop pos content) @ drop (pos + ?k) content"
    using Cons l by simp
  then show ?case by (metis append_take_drop_id drop_drop add.commute)
qed simp

section \<open>Recording\<close>

fun record_all :: "Scan list \<Rightarrow> Recorder \<Rightarrow> folder \<Rightarrow> folder \<times> Recorder \<times> unit result" where
  "record_all [] r fs = (fs, r, Inr ())"
| "record_all (scan # scans) r fs =
     (case record_scan (\<lambda>_. None) scan r fs of
        (fs', r', Inr _) \<Rightarrow> record_all scans r' fs'
      | (fs', r', Inl e) \<Rightarrow> (fs', r', Inl e))"

text \<open>The index that a list of telegrams gives, from an offset on.\<close>

fun index_from :: "nat \<Rightarrow> (Scan \<times> bytes) list \<Rightarrow> index_line list" where
  "index_from pos [] = []"
| "index_from pos ((scan, raw) # rest) =
     Line \<lparr>ix_offset = int pos, ix_length = int (length raw), ix_timestamp = timestamp scan,
           ix_sequence = sequence scan\<rparr> # index_from (pos + length raw) rest"

definition holds :: "folder \<Rightarrow> Recorder \<Rightarrow> bytes \<Rightarrow> index_line list \<Rightarrow> bool" where
  "holds fs r content ls \<longleftrightarrow>
     rec_name r \<noteq> [] \<and> \<not> rec_closed r \<and>
     fs (rec_path r) = Some (RawFile content) \<and>
     fs (rec_name r @ ''.index.jsonl'') = Some (IndexFile ls) \<and>
     fs (rec_name r @ ''.metadata.json'') = Some (MetaFile (rec_metadata r))"

lemma suffix_names [simp]:
  "n @ ''.bin'' \<noteq> n @ ''.index.jsonl''" "n @ ''.index.jsonl'' \<noteq> n @ ''.bin''"
  "n @ ''.bin'' \<noteq> n @ ''.jsonl''" "n @ ''.jsonl'' \<noteq> n @ ''.bin''"
  "n @ ''.index.jsonl'' \<noteq> n @ ''.jsonl''" "n @ ''.jsonl'' \<noteq> n @ ''.index.jsonl''"
  "n @ ''.metadata.json'' \<noteq> n @ ''.bin''" "n @ ''.bin'' \<noteq> n @ ''.metadata.json''"
  "n @ ''.metadata.json'' \<noteq> n @ ''.index.jsonl''" "n @ ''.index.jsonl'' \<noteq> n @ ''.metadata.json''"
  "n @ ''.metadata.json'' \<noteq> n @ ''.jsonl''" "n @ ''.jsonl'' \<noteq> n @ ''.metadata.json''"
  by simp_all

lemma record_scan_ok:
  assumes "holds fs r content ls" "raw_telegram_hex scan = hex raw"
  obtains fs' r' where "record_scan (\<lambda>_. None) scan r fs = (fs', r', Inr ())"
    "holds fs' r' (content @ raw) (ls @ index_from (length content) [(scan, raw)])"
    "rec_count r' = rec_count r + 1" "rec_name r' = rec_name r" "rec_metadata r' = rec_metadata r"
  using assms
  by (simp add: record_scan_def holds_def fromhex_hex write_raw_def write_index_def write_decoded_def
      raw_of_def lines_of_def with_suffix_bin rec_path_def Let_def)

lemma index_from_append:
  "index_from pos (xs @ ys) = index_from pos xs @ index_from (pos + length (concat (map snd xs))) ys"
  by (induction xs arbitrary: pos) (auto simp: add.assoc)

lemma record_all_ok:
  assumes "holds fs r content ls" "list_all (\<lambda>(scan, raw). raw_telegram_hex scan = hex raw) recs"
  shows "\<exists>fs' r'. record_all (map fst recs) r fs = (fs', r', Inr ()) \<and>
    holds fs' r' (content @ concat (map snd recs)) (ls @ index_from (length content) recs) \<and>
    rec_count r' = rec_count r + length recs \<and> rec_name r' = rec_name r \<and> rec_metadata r' = rec_metadata r"
  using assms
proof (induction recs arbitrary: fs r content ls)
  case (Cons x recs)
  obtain scan raw where x: "x = (scan, raw)" by (cases x)
  then have "raw_telegram_hex scan = hex raw" using Cons.prems by simp
  then obtain fs1 r1 where w: "record_scan (\<lambda>_. None) scan r fs = (fs1, r1, Inr ())"
    "holds fs1 r1 (content @ raw) (ls @ index_from (length content) [(scan, raw)])"
    "rec_count r1 = rec_count r + 1" "rec_name r1 = rec_name r" "rec_metadata r1 = rec_metadata r"
    using record_scan_ok [OF Cons.prems(1)] by metis
  from Cons.IH [OF w(2)] Cons.prems(2) obtain fs2 r2 where
    "record_all (map fst recs) r1 fs1 = (fs2, r2, Inr ())"
    "holds fs2 r2 ((content @ raw) @ concat (map snd recs))
       ((ls @ index_from (length content) [(scan, raw)]) @ index_from (length (content @ raw)) recs)"
    "rec_count r2 = rec_count r1 + length recs" "rec_name r2 = rec_name r1" "rec_metadata r2 = rec_metadata r1"
    by auto
  then show ?case using w by (simp add: x)
qed simp

lemma new_recorder_ok:
  assumes "filename_stem name" "fs (name @ ''.bin'') = None" "fs (name @ ''.index.jsonl'') = None"
    "fs (name @ ''.jsonl'') = None"
  obtains fs' r where "new_recorder fs meta (Some name) stamp jsonl = (fs', Inr r)"
    "holds fs' r [] []" "rec_name r = name" "rec_count r = 0" "rec_metadata r = recording_metadata meta"
proof -
  have "name \<noteq> []" using assms(1) by (auto simp: filename_stem_def)
  then show thesis
    using that assms
    by (cases jsonl) (simp_all add: new_recorder_def recording_name_def with_suffix_bin Let_def holds_def rec_path_def)
qed

lemma tiles_index_from:
  assumes "list_all (\<lambda>(scan, raw). 1 \<le> length raw \<and> length raw \<le> 814 \<and> epoch (timestamp scan) \<noteq> None) recs"
  shows "tiles epoch (pos + length (concat (map snd recs))) pos (index_from pos recs)"
  using assms
proof (induction recs arbitrary: pos)
  case (Cons x recs)
  obtain scan raw where x: "x = (scan, raw)" by (cases x)
  have "tiles epoch (pos + length raw + length (concat (map snd recs))) (pos + length raw)
      (index_from (pos + length raw) recs)"
    using Cons by (intro Cons.IH) simp
  then show ?case using Cons.prems by (auto simp: x add.assoc)
qed simp

lemma telegrams_index_from:
  "telegrams_in n (pre @ concat (map snd recs)) (length pre) (index_from (length pre) recs) =
   concat (map (\<lambda>(scan, raw). map (Pair (Some (timestamp scan))) (pieces n raw)) recs)"
proof (induction recs arbitrary: pre)
  case (Cons x recs)
  obtain scan raw where x: "x = (scan, raw)" by (cases x)
  from Cons.IH [of "pre @ raw"] show ?case by (simp add: x)
qed simp

lemma open_replay_holds:
  assumes "holds fs r content ls" "meta_format (rec_metadata r) = Some ''lms200-raw-v1''"
    "meta_baud (rec_metadata r) = Some baud"
  obtains tr' p where "open_replay fs (rec_path r) tr player = Inr (tr', p)"
    "tr_metadata tr' = Some (rec_metadata r)" "tr_baud tr' = baud" "tr_opened tr'"
    "between content 0 ls p"
  using assms
  by (simp add: open_replay_def load_metadata_def open_files_def replay_open_def holds_def
      rec_path_def with_suffix_bin between_def)

lemma genuine_length: "genuine (EvFrame fr) \<Longrightarrow> 7 \<le> length (frame_raw fr) \<and> length (frame_raw fr) \<le> 814"
  by (auto simp: encode_eq_Inr well_sized_def MAX_PAYLOAD_def dest: encode_length)

section \<open>Examples\<close>

definition sample_index :: "index_line list" where
  "sample_index =
     [Line \<lparr>ix_offset = 0, ix_length = 2, ix_timestamp = ''a'', ix_sequence = 1\<rparr>,
      Line \<lparr>ix_offset = 2, ix_length = 1, ix_timestamp = ''b'', ix_sequence = 2\<rparr>]"

definition sample_folder :: folder where
  "sample_folder = [''r.bin'' \<mapsto> RawFile [1, 2, 3], ''r.index.jsonl'' \<mapsto> IndexFile sample_index]"

definition sample_frame :: Frame where
  "sample_frame = \<lparr>frame_address = 0, frame_payload = [0x31],
     frame_raw = [0x02, 0x00, 0x01, 0x00, 0x31, 0x15, 0x12]\<rparr>"

definition sample_scan :: Scan where
  "sample_scan = \<lparr>timestamp = ''2024-05-01T00:00:00+00:00'', sequence = 1,
     scan_status = \<lparr>status_raw = 0, severity = ''ok'', status_source = ''LMI'', restart_high = False,
       implausible = False, pollution = False\<rparr>,
     field_of_view = 180, scan_resolution = 1, scan_count = 0, starting_angle = 0, angle_increment = 1,
     scan_unit = ''mm'', scan_mode = 0, scan_index = None, telegram_index = None, points = [],
     raw_telegram_hex = hex (frame_raw sample_frame)\<rparr>"

definition sample_metadata :: Metadata where
  "sample_metadata = \<lparr>meta_format = None, meta_model = None, meta_baud = Some 38400,
     meta_device_status = None, meta_configuration_hex = None, meta_transport = None\<rparr>"

lemma sample_frame_genuine: "genuine (EvFrame sample_frame)"
  by (simp add: sample_frame_def encode_def STX_def MAX_PAYLOAD_def crc16_def crc16_step_def
      to_bytes2_def)

section \<open>Properties\<close>

text \<open>
  C13: replaying always comes to an end, whatever the files hold, and it ends with
  \<^verbatim>\<open>Replay complete\<close> exactly when the index covers the raw file telegram by telegram,
  every entry of 1 to 814 bytes, without gap, overlap or surplus.  In that case the chunks
  joined together are the file, byte for byte.
\<close>

theorem replay_complete_iff_index_sound:
  assumes "open_files fs path (new_player speed) = Inr p" "rp_index p = Some ls"
  shows "case heard epoch 4096 p of (out, e) \<Rightarrow>
    (if tiles epoch (length (raw_of fs path)) 0 ls
     then e = EOFError ''Replay complete'' \<and> concat (map snd out) = raw_of fs path \<and>
          out = telegrams_in 137 (raw_of fs path) 0 ls
     else e \<noteq> EOFError ''Replay complete'')"
proof -
  have b: "between (raw_of fs path) 0 ls p"
    using assms by (auto simp: open_files_def between_def raw_of_def split: option.splits stored.splits)
  from heard_between [OF b, of 4096 epoch] concat_telegrams [of epoch "raw_of fs path" 0 ls 137]
  show ?thesis by (cases "heard epoch 4096 p") auto
qed

theorem replay_complete_iff_index_sound_witness:
  "case open_files sample_folder ''r.bin'' (new_player 1) of Inl e \<Rightarrow> False
   | Inr p \<Rightarrow> (case heard (\<lambda>t. Some 0) 4096 p of (out, e) \<Rightarrow>
       e = EOFError ''Replay complete'' \<and> concat (map snd out) = [1, 2, 3] \<and>
       out = [(Some ''a'', [1, 2]), (Some ''b'', [3])])"
proof -
  obtain p where p: "open_files sample_folder ''r.bin'' (new_player 1) = Inr p" "rp_index p = Some sample_index"
    by (simp add: open_files_def sample_folder_def with_suffix_def)
  have "raw_of sample_folder ''r.bin'' = [1, 2, 3]" by (simp add: raw_of_def sample_folder_def)
  then show ?thesis
    using replay_complete_iff_index_sound [OF p, of "\<lambda>t. Some 0"] p(1)
    by (simp add: sample_index_def pieces.simps)
qed

text \<open>
  C12: what is recorded is what is replayed.  Scans whose raw telegrams are telegrams of the
  protocol, recorded under a new name, are replayed to the last byte: the replay takes
  over the recorded baud rate, hands out every telegram with its own timestamp in pieces of
  at most 137 bytes, ends with \<^verbatim>\<open>Replay complete\<close>, and the framer makes of these pieces
  exactly the recorded telegrams, in order, with nothing left over.
\<close>

theorem recording_roundtrip:
  assumes "filename_stem name" "fs (name @ ''.bin'') = None" "fs (name @ ''.index.jsonl'') = None"
    "fs (name @ ''.jsonl'') = None"
    and "meta_format meta = None" "meta_baud meta = Some baud"
    and "recs \<noteq> []"
    and "list_all (\<lambda>(scan, fr). raw_telegram_hex scan = hex (frame_raw fr) \<and> genuine (EvFrame fr) \<and>
           epoch (timestamp scan) \<noteq> None) recs"
  shows "\<exists>fs1 r1 fs2 r2 tr' p out g cs.
    new_recorder fs meta (Some name) stamp jsonl = (fs1, Inr r1) \<and>
    record_all (map fst recs) r1 fs1 = (fs2, r2, Inr ()) \<and> rec_count r2 = length recs \<and>
    open_replay fs2 (name @ ''.bin'') tr (new_player speed) = Inr (tr', p) \<and> tr_baud tr' = baud \<and>
    heard epoch 4096 p = (out, EOFError ''Replay complete'') \<and>
    out = concat (map (\<lambda>(scan, fr). map (Pair (Some (timestamp scan))) (pieces 137 (frame_raw fr))) recs) \<and>
    feed_chunks new_framer (map snd out) = (g, map (EvFrame \<circ> snd) recs, cs) \<and> buffer g = []"
proof -
  let ?raws = "map (\<lambda>(scan, fr). (scan, frame_raw fr)) recs"
  let ?content = "concat (map snd ?raws)" and ?ls = "index_from 0 ?raws"
  obtain fs1 r1 where r1: "new_recorder fs meta (Some name) stamp jsonl = (fs1, Inr r1)"
    "holds fs1 r1 [] []" "rec_name r1 = name" "rec_count r1 = 0" "rec_metadata r1 = recording_metadata meta"
    using new_recorder_ok assms(1-4) by metis
  have "list_all (\<lambda>(scan, raw). raw_telegram_hex scan = hex raw) ?raws"
    using assms(8) by (auto simp: list_all_iff)
  from record_all_ok [OF r1(2) this] r1 obtain fs2 r2 where r2:
    "record_all (map fst recs) r1 fs1 = (fs2, r2, Inr ())" "holds fs2 r2 ?content ?ls"
    "rec_count r2 = length recs" "rec_path r2 = name @ ''.bin''" "rec_metadata r2 = recording_metadata meta"
    by (auto simp: comp_def case_prod_beta rec_path_def)
  have "meta_format (rec_metadata r2) = Some ''lms200-raw-v1''" "meta_baud (rec_metadata r2) = Some baud"
    using assms(5,6) by (simp_all add: r2(5) recording_metadata_def)
  then obtain tr' p where p: "open_replay fs2 (name @ ''.bin'') tr (new_player speed) = Inr (tr', p)"
    "tr_baud tr' = baud" "between ?content 0 ?ls p"
    using open_replay_holds [OF r2(2)] r2(4) by metis
  have "list_all (\<lambda>(scan, raw). 1 \<le> length raw \<and> length raw \<le> 814 \<and> epoch (timestamp scan) \<noteq> None) ?raws"
    using assms(8) genuine_length by (fastforce simp: list_all_iff)
  from tiles_index_from [OF this, of 0] have t: "tiles epoch (length ?content) 0 ?ls" by simp
  define out where "out = fst (heard epoch 4096 p)"
  have h: "heard epoch 4096 p = (out, EOFError ''Replay complete'')" "out = telegrams_in 137 ?content 0 ?ls"
    using heard_between [OF p(3), of 4096 epoch] t by (auto simp: out_def prod_eq_iff)
  then have o: "out = concat (map (\<lambda>(scan, fr). map (Pair (Some (timestamp scan))) (pieces 137 (frame_raw fr))) recs)"
    using telegrams_index_from [of 137 "[]" ?raws] by (simp add: comp_def split_def)
  have c: "concat (map snd out) = concat (map wire_of (map (EvFrame \<circ> snd) recs))"
    using concat_telegrams [OF t, of 137] h(2) by (simp add: comp_def case_prod_beta)
  have g: "list_all genuine (map (EvFrame \<circ> snd) recs)" using assms(8) by (auto simp: list_all_iff)
  have "frame_raw (snd (hd recs)) \<noteq> []"
    using assms(7,8) genuine_length [of "snd (hd recs)"] by (cases recs) auto
  then have "map snd out \<noteq> []" using c assms(7) by (cases recs) (auto simp: comp_def)
  then obtain x xs where "map snd out = x # xs" by (cases "map snd out") auto
  then obtain k cs where "feed_chunks new_framer (map snd out) = (k, map (EvFrame \<circ> snd) recs, cs)" "buffer k = []"
    using feed_chunks_wire [OF _ g, of new_framer x xs] c by (auto simp: new_framer_def)
  then show ?thesis using r1(1) r2(1,3) p(1,2) h(1) o by blast
qed


theorem recording_roundtrip_witness:
  "\<exists>fs1 r1 fs2 r2 tr' p out g cs.
    new_recorder Map.empty sample_metadata (Some ''r'') [] True = (fs1, Inr r1) \<and>
    record_all (map fst [(sample_scan, sample_frame)]) r1 fs1 = (fs2, r2, Inr ()) \<and>
    rec_count r2 = length [(sample_scan, sample_frame)] \<and>
    open_replay fs2 (''r'' @ ''.bin'') (new_transport Replay ''r.bin'' 9600 False) (new_player 1) = Inr (tr', p) \<and>
    tr_baud tr' = 38400 \<and>
    heard (\<lambda>t. Some 0) 4096 p = (out, EOFError ''Replay complete'') \<and>
    out = concat (map (\<lambda>(scan, fr). map (Pair (Some (timestamp scan))) (pieces 137 (frame_raw fr)))
      [(sample_scan, sample_frame)]) \<and>
    feed_chunks new_framer (map snd out) = (g, map (EvFrame \<circ> snd) [(sample_scan, sample_frame)], cs) \<and>
    buffer g = []"
  using sample_frame_genuine
  by (intro recording_roundtrip)
    (simp_all add: sample_scan_def sample_metadata_def filename_stem_def)

end
