(* ===== verification/Service.thy ===== *)
theory Service
  imports Recording_Properties Device_Guarantees "HOL-Library.Sublist"
begin

text \<open>
  The application service, \<^verbatim>\<open>service.py\<close>: it fans the scans of the device out to
  subscribers through queues of two, records them through a queue of 128 and a task that
  writes, and runs one device action at a time.

  The tasks of the service run on one event loop; each function below is what one task
  does between two awaits.  A recording (\<open>Job\<close>) is created with its own recorder, queue
  and task; \<open>sv_recorder\<close>, \<open>sv_record_task\<close> and \<open>sv_record_queue\<close> are the attributes
  that refer to one, by its number.  The last four fields of a \<open>Job\<close> are history
  variables, which no definition reads: the scans put into its queue, those the recorder
  has written, how many the full queue refused, and what a failure counted as lost.
\<close>

section \<open>State\<close>

text \<open>Where the recording task stands: waiting in \<^verbatim>\<open>queue.get()\<close>, writing in a thread, closing the recorder, or returned.\<close>

datatype job_phase = Fetching | Writing Scan | Closing | Finished

record Job =
  job_recorder :: Recorder
  job_queue :: "Scan option list"
  job_phase :: job_phase
  job_taken :: "Scan list"
  job_written :: "Scan list"
  job_refused :: nat
  job_lost :: "Scan option list"

text \<open>
  A call of \<^verbatim>\<open>stop_recording\<close>: blocked in \<^verbatim>\<open>queue.put(None)\<close>, awaiting the task (and
  whether it found a recorder), or returned.
\<close>

datatype stopper = Putting nat | Awaiting nat bool | Returned

text \<open>\<^verbatim>\<open>self._operation\<close>: no task yet, a task running this action, or a finished task.\<close>

datatype operation = NoOperation | Running_Action string | Finished_Action

record Service =
  sv_device :: Device
  sv_subscribers :: "(nat \<times> Scan list) list"
  sv_client_drops :: nat
  sv_record_drops :: nat
  sv_recorder :: "nat option"
  sv_record_queue :: "nat option"
  sv_record_task :: "nat option"
  sv_operation :: operation
  sv_watching :: bool
  sv_jobs :: "Job list"
  sv_stoppers :: "stopper list"
  sv_folder :: folder
  sv_next_queue :: nat

definition new_service :: "Device \<Rightarrow> folder \<Rightarrow> Service" where
  "new_service d fs =
     \<lparr>sv_device = d, sv_subscribers = [], sv_client_drops = 0, sv_record_drops = 0,
      sv_recorder = None, sv_record_queue = None, sv_record_task = None,
      sv_operation = NoOperation, sv_watching = False, sv_jobs = [], sv_stoppers = [],
      sv_folder = fs, sv_next_queue = 0\<rparr>"

definition service_note :: "string \<Rightarrow> Service \<Rightarrow> Service" where
  "service_note m s = s\<lparr>sv_device := device_note m (sv_device s)\<rparr>"

definition update_job :: "nat \<Rightarrow> (Job \<Rightarrow> Job) \<Rightarrow> Service \<Rightarrow> Service" where
  "update_job i f s = s\<lparr>sv_jobs := (sv_jobs s)[i := f (sv_jobs s ! i)]\<rparr>"

section \<open>Fan-out\<close>

definition client_put :: "Scan list \<Rightarrow> Scan \<Rightarrow> Scan list" where
  "client_put q scan = (if 2 \<le> length q then tl q else q) @ [scan]"

definition publish_clients :: "Scan \<Rightarrow> Service \<Rightarrow> Service" where
  "publish_clients scan s =
     s\<lparr>sv_subscribers := map (\<lambda>(k, q). (k, client_put q scan)) (sv_subscribers s),
       sv_client_drops := sv_client_drops s +
         length (filter (\<lambda>(k, q). 2 \<le> length q) (sv_subscribers s))\<rparr>"

definition publish_record :: "Scan \<Rightarrow> Service \<Rightarrow> Service" where
  "publish_record scan s =
     (case sv_recorder s of
        None \<Rightarrow> s
      | Some i \<Rightarrow>
          if rec_closed (job_recorder (sv_jobs s ! i)) then s
          else case sv_record_queue s of
            None \<Rightarrow> s
          | Some k \<Rightarrow>
              if 128 \<le> length (job_queue (sv_jobs s ! k))
              then (update_job k (\<lambda>j. j\<lparr>job_refused := job_refused j + 1\<rparr>) s)
                     \<lparr>sv_record_drops := sv_record_drops s + 1\<rparr>
              else update_job k (\<lambda>j. j\<lparr>job_queue := job_queue j @ [Some scan],
                                       job_taken := job_taken j @ [scan]\<rparr>) s)"

definition publish :: "Scan \<Rightarrow> Service \<Rightarrow> Service" where
  "publish scan s = publish_record scan (publish_clients scan s)"

definition subscribe :: "Service \<Rightarrow> nat \<times> Service" where
  "subscribe s =
     (sv_next_queue s,
      s\<lparr>sv_subscribers := sv_subscribers s @ [(sv_next_queue s, [])],
        sv_next_queue := sv_next_queue s + 1\<rparr>)"

text \<open>What the clients do: \<^verbatim>\<open>queue.get()\<close> and \<^verbatim>\<open>subscribers.discard(queue)\<close>.\<close>

definition client_get :: "nat \<Rightarrow> Service \<Rightarrow> Service" where
  "client_get k s =
     s\<lparr>sv_subscribers := map (\<lambda>(k', q). (k', if k' = k then tl q else q)) (sv_subscribers s)\<rparr>"

definition unsubscribe :: "nat \<Rightarrow> Service \<Rightarrow> Service" where
  "unsubscribe k s = s\<lparr>sv_subscribers := filter (\<lambda>(k', q). k' \<noteq> k) (sv_subscribers s)\<rparr>"

text \<open>
  The device calls \<^verbatim>\<open>publish\<close> for every scan it accepts: an iteration of its reader, seen
  from the service.
\<close>

definition service_read :: "read_tick \<Rightarrow> Service \<Rightarrow> Service" where
  "service_read r s =
     (let d = sv_device s; d' = reader_step r d in
      fold publish (drop (length (delivered d)) (delivered d')) (s\<lparr>sv_device := d'\<rparr>))"

section \<open>Recording\<close>

definition new_job :: "Recorder \<Rightarrow> Job" where
  "new_job r = \<lparr>job_recorder = r, job_queue = [], job_phase = Fetching, job_taken = [], job_written = [],
     job_refused = 0, job_lost = []\<rparr>"

definition start_recording :: "string \<Rightarrow> Service \<Rightarrow> Service \<times> string result" where
  "start_recording stamp s =
     (if dev_state (sv_device s) \<noteq> STREAMING
      then (s, Inl (ValueError ''Start streaming before recording''))
      else case sv_recorder s of
        Some i \<Rightarrow> (s, Inr (rec_name (job_recorder (sv_jobs s ! i))))
      | None \<Rightarrow>
          (case new_recorder (sv_folder s) (device_metadata (sv_device s)) None stamp True of
             (fs, Inl e) \<Rightarrow> (s\<lparr>sv_folder := fs\<rparr>, Inl e)
           | (fs, Inr r) \<Rightarrow>
               (service_note ''Recording started''
                  (s\<lparr>sv_folder := fs, sv_jobs := sv_jobs s @ [new_job r],
                     sv_recorder := Some (length (sv_jobs s)),
                     sv_record_queue := Some (length (sv_jobs s)),
                     sv_record_task := Some (length (sv_jobs s))\<rparr>), Inr (rec_name r))))"

text \<open>\<^verbatim>\<open>_record\<close>: take the next item, write it, and on the way out close the recorder.\<close>

definition record_fetch :: "nat \<Rightarrow> Service \<Rightarrow> Service" where
  "record_fetch i s =
     update_job i (\<lambda>j. case job_queue j of
        [] \<Rightarrow> j
      | Some scan # rest \<Rightarrow> j\<lparr>job_queue := rest, job_phase := Writing scan\<rparr>
      | None # rest \<Rightarrow> j\<lparr>job_queue := rest, job_phase := Closing\<rparr>) s"

definition record_failed :: "nat \<Rightarrow> Scan \<Rightarrow> Service \<Rightarrow> Service" where
  "record_failed i scan s =
     (let s' = service_note ''Recording failed; check free space and volume permissions'' s in
      (update_job i (\<lambda>j. j\<lparr>job_phase := Closing, job_lost := Some scan # job_queue j\<rparr>) s')
        \<lparr>sv_record_drops := sv_record_drops s' + (length (job_queue (sv_jobs s' ! i)) + 1),
         sv_recorder := (if sv_recorder s' = Some i then None else sv_recorder s')\<rparr>)"

definition record_write :: "nat \<Rightarrow> disk \<Rightarrow> Scan \<Rightarrow> Service \<Rightarrow> Service" where
  "record_write i disk scan s =
     (case record_scan disk scan (job_recorder (sv_jobs s ! i)) (sv_folder s) of
        (fs, r, Inr _) \<Rightarrow>
          update_job i (\<lambda>j. j\<lparr>job_recorder := r, job_phase := Fetching,
                              job_written := job_written j @ [scan]\<rparr>) (s\<lparr>sv_folder := fs\<rparr>)
      | (fs, r, Inl e) \<Rightarrow>
          record_failed i scan (update_job i (\<lambda>j. j\<lparr>job_recorder := r\<rparr>) (s\<lparr>sv_folder := fs\<rparr>)))"

definition record_close :: "nat \<Rightarrow> Service \<Rightarrow> Service" where
  "record_close i s =
     update_job i (\<lambda>j. j\<lparr>job_recorder := close_recorder (job_recorder j), job_phase := Finished\<rparr>) s"

text \<open>\<^verbatim>\<open>stop_recording\<close>, up to its first await, and from one await to the next.\<close>

definition stop_recording :: "Service \<Rightarrow> Service" where
  "stop_recording s =
     (let s' = s\<lparr>sv_recorder := None, sv_record_task := None\<rparr> in
      case sv_record_task s of
        None \<Rightarrow>
          (if sv_recorder s \<noteq> None then service_note ''Recording finalized'' s' else s')
            \<lparr>sv_stoppers := sv_stoppers s @ [Returned]\<rparr>
      | Some t \<Rightarrow>
          s'\<lparr>sv_stoppers := sv_stoppers s @
             [if sv_recorder s \<noteq> None \<and> job_phase (sv_jobs s ! t) \<noteq> Finished
              then Putting t else Awaiting t (sv_recorder s \<noteq> None)]\<rparr>)"

definition stop_put :: "nat \<Rightarrow> nat \<Rightarrow> Service \<Rightarrow> Service" where
  "stop_put n t s =
     (update_job t (\<lambda>j. j\<lparr>job_queue := job_queue j @ [None]\<rparr>) s)
       \<lparr>sv_stoppers := (sv_stoppers s)[n := Awaiting t True]\<rparr>"

definition stop_return :: "nat \<Rightarrow> bool \<Rightarrow> Service \<Rightarrow> Service" where
  "stop_return n found s =
     (if found then service_note ''Recording finalized'' s else s)
       \<lparr>sv_stoppers := (sv_stoppers s)[n := Returned]\<rparr>"

section \<open>Actions\<close>

definition busy :: "Service \<Rightarrow> bool" where
  "busy s \<longleftrightarrow> (case sv_operation s of Running_Action _ \<Rightarrow> True | _ \<Rightarrow> False)"

definition action :: "string \<Rightarrow> Service \<Rightarrow> Service result" where
  "action name s =
     (if busy s then Inl (ValueError ''A device operation is already in progress'')
      else try_bind (if name \<in> {''start'', ''reconnect''} then require_write (settings (sv_device s)) else Inr ())
             (\<lambda>_. Inr (s\<lparr>sv_operation := Running_Action name\<rparr>)))"

definition launch :: "Service \<Rightarrow> Service result" where
  "launch s =
     (let s' = s\<lparr>sv_watching := True\<rparr> in
      if cfg_autostart (settings (sv_device s)) then action ''start'' s' else Inr s')"

text \<open>
  \<^verbatim>\<open>_run_action\<close> on the device.  Awaiting \<^verbatim>\<open>stop_recording()\<close> is an await like any other:
  it completes, or an exception comes out of it.
\<close>

definition action_body :: "string \<Rightarrow> unit op" where
  "action_body name =
     (if name = ''start'' then initialize True
      else if name = ''reconnect'' then bind sleep (\<lambda>_. reconnect)
      else if name = ''stop'' then bind close (\<lambda>_. sleep)
      else if name = ''probe'' then connect
      else raise (ValueError ''Unknown action''))"

text \<open>\<^verbatim>\<open>type(exc).__name__\<close>\<close>

fun error_type :: "error \<Rightarrow> string" where
  "error_type (ValueError m) = ''ValueError''"
| "error_type UnicodeDecodeError = ''UnicodeDecodeError''"
| "error_type (ProtocolError m) = ''ProtocolError''"
| "error_type (DeviceError m) = ''DeviceError''"
| "error_type (TimeoutError m) = ''TimeoutError''"
| "error_type (OSError m) = ''OSError''"
| "error_type (RuntimeError m) = ''RuntimeError''"
| "error_type (SubprocessError name) = name"
| "error_type (EOFError m) = ''EOFError''"
| "error_type KeyError = ''KeyError''"
| "error_type IndexError = ''IndexError''"
| "error_type AssertionError = ''AssertionError''"
| "error_type StopIteration = ''StopIteration''"
| "error_type CancelledError = ''CancelledError''"
| "error_type KeyboardInterrupt = ''KeyboardInterrupt''"

definition action_message :: "error \<Rightarrow> string" where
  "action_message e = error_type e @ '': operation failed; see troubleshooting guide''"

definition run_action :: "string \<Rightarrow> unit op" where
  "run_action name =
     catch (action_body name) is_Exception (\<lambda>e.
       bind (modify (\<lambda>d. device_note (action_message e) (d\<lparr>last_error := Some (action_message e)\<rparr>))) (\<lambda>_.
       bind close (\<lambda>_. goto FAULTED)))"

text \<open>
  One round of \<^verbatim>\<open>_watch\<close> on the device, when it finds a fault and no operation; the state
  is set without a transition.
\<close>

definition watch_round :: "Service \<Rightarrow> bool" where
  "watch_round s \<longleftrightarrow> dev_state (sv_device s) = FAULTED \<and> \<not> busy s"

definition watch_device :: "unit op" where
  "watch_device =
     bind sleep (\<lambda>_. bind close (\<lambda>_. modify (\<lambda>d. d\<lparr>dev_state := FAULTED\<rparr>)))"

text \<open>\<^verbatim>\<open>Service.close\<close>: the watcher and a running operation are cancelled first.\<close>

definition stop_tasks :: "Service \<Rightarrow> Service" where
  "stop_tasks s =
     s\<lparr>sv_watching := False, sv_operation := (if busy s then Finished_Action else sv_operation s)\<rparr>"

definition close_service :: "unit op" where
  "close_service = bind close (\<lambda>_. sleep)"

section \<open>What clients see\<close>

record Service_Snapshot =
  ssnap_device :: Snapshot
  ssnap_busy :: bool
  client_queue_drops :: nat
  record_queue_drops :: nat
  ssnap_recording :: "string option"

definition service_snapshot :: "Service \<Rightarrow> Service_Snapshot" where
  "service_snapshot s =
     \<lparr>ssnap_device = snapshot (sv_device s), ssnap_busy = busy s,
      client_queue_drops = sv_client_drops s, record_queue_drops = sv_record_drops s,
      ssnap_recording =
        (case sv_recorder s of
           None \<Rightarrow> None
         | Some i \<Rightarrow> let r = job_recorder (sv_jobs s ! i) in
             if rec_closed r then None else Some (rec_name r))\<rparr>"

end
