(* ===== verification/Service_Properties.thy ===== *)
theory Service_Properties
  imports Service
begin

text \<open>
  What the service promises.  \<open>service_step\<close> is the interleaving of its tasks, and
  \<open>service_ok\<close> an invariant of every state they reach: queues are bounded, order is kept,
  every scan a recording has taken is accounted for, and the drop counter is exact.  The
  queue of a subscriber is an instance of \<open>drop_oldest\<close>.  The actions keep every invariant
  of the device, which is proved once in the locale \<open>device_invariant\<close>.
\<close>

section \<open>Steps of the service\<close>

text \<open>
  Everything that happens between two awaits of any task: the reader of the device, an
  operation on the device (which delivers no scan itself), the clients, the recording
  tasks and the calls of \<^verbatim>\<open>stop_recording\<close>.
\<close>

inductive service_step :: "Service \<Rightarrow> Service \<Rightarrow> bool" where
  Reads: "service_step s (service_read r s)"
| Operates: "delivered d = delivered (sv_device s) \<Longrightarrow> service_step s (s\<lparr>sv_device := d\<rparr>)"
| Subscribes: "service_step s (snd (subscribe s))"
| Gets: "service_step s (client_get k s)"
| Unsubscribes: "service_step s (unsubscribe k s)"
| Starts: "service_step s (fst (start_recording stamp s))"
| Fetches: "i < length (sv_jobs s) \<Longrightarrow> job_phase (sv_jobs s ! i) = Fetching \<Longrightarrow>
    job_queue (sv_jobs s ! i) \<noteq> [] \<Longrightarrow> service_step s (record_fetch i s)"
| Writes: "i < length (sv_jobs s) \<Longrightarrow> job_phase (sv_jobs s ! i) = Writing scan \<Longrightarrow>
    service_step s (record_write i disk scan s)"
| Closes: "i < length (sv_jobs s) \<Longrightarrow> job_phase (sv_jobs s ! i) = Closing \<Longrightarrow>
    service_step s (record_close i s)"
| Stops: "service_step s (stop_recording s)"
| Puts: "n < length (sv_stoppers s) \<Longrightarrow> sv_stoppers s ! n = Putting t \<Longrightarrow>
    length (job_queue (sv_jobs s ! t)) < 128 \<Longrightarrow> service_step s (stop_put n t s)"
| Returns: "n < length (sv_stoppers s) \<Longrightarrow> sv_stoppers s ! n = Awaiting t found \<Longrightarrow>
    job_phase (sv_jobs s ! t) = Finished \<Longrightarrow> service_step s (stop_return n found s)"
| Acts: "action name s = Inr s' \<Longrightarrow> service_step s s'"
| Acted: "service_step s (s\<lparr>sv_operation := Finished_Action\<rparr>)"

inductive service_reach :: "Service \<Rightarrow> Service \<Rightarrow> bool" for s0 where
  Init: "service_reach s0 s0"
| Step: "service_reach s0 s \<Longrightarrow> service_step s s' \<Longrightarrow> service_reach s0 s'"

section \<open>Invariant\<close>

fun somes :: "'a option list \<Rightarrow> 'a list" where
  "somes [] = []"
| "somes (Some x # q) = x # somes q"
| "somes (None # q) = somes q"

lemma somes_append [simp]: "somes (p @ q) = somes p @ somes q"
  by (induction p rule: somes.induct) simp_all

lemma somes_Nil: "set q \<subseteq> {None} \<Longrightarrow> somes q = []"
  by (induction q rule: somes.induct) simp_all

text \<open>The scans that a recording has taken and not written: still to come, or lost.\<close>

fun active :: "job_phase \<Rightarrow> bool" where
  "active Fetching = True"
| "active (Writing scan) = True"
| "active _ = False"

definition pending :: "Job \<Rightarrow> Scan list" where
  "pending j =
     (case job_phase j of
        Fetching \<Rightarrow> somes (job_queue j)
      | Writing scan \<Rightarrow> scan # somes (job_queue j)
      | _ \<Rightarrow> somes (job_lost j))"

lemma pending_update [simp]:
  "pending (j\<lparr>job_refused := n\<rparr>) = pending j" "pending (j\<lparr>job_recorder := r\<rparr>) = pending j"
  by (cases "job_phase j"; simp add: pending_def)+

definition queue_ok :: "Scan option list \<Rightarrow> bool" where
  "queue_ok q \<longleftrightarrow> length q \<le> 128 \<and> None \<notin> set (butlast q)"

definition job_ok :: "Scan list \<Rightarrow> Job \<Rightarrow> bool" where
  "job_ok ds j \<longleftrightarrow>
     queue_ok (job_queue j) \<and> subseq (job_taken j) ds \<and> job_written j @ pending j = job_taken j \<and>
     (active (job_phase j) \<longrightarrow> job_lost j = [])"

definition clients_ok :: "Scan list \<Rightarrow> Service \<Rightarrow> bool" where
  "clients_ok ds s \<longleftrightarrow> list_all (\<lambda>(k, q). length q \<le> 2 \<and> suffix q ds) (sv_subscribers s)"

definition refs_ok :: "Service \<Rightarrow> bool" where
  "refs_ok s \<longleftrightarrow>
     (\<forall>i. sv_recorder s = Some i \<longrightarrow>
        sv_record_queue s = Some i \<and> sv_record_task s = Some i \<and> active (job_phase (sv_jobs s ! i))) \<and>
     (\<forall>t. sv_record_task s = Some t \<longrightarrow>
        t < length (sv_jobs s) \<and> None \<notin> set (job_queue (sv_jobs s ! t)) \<and>
        Putting t \<notin> set (sv_stoppers s)) \<and>
     (\<forall>t. Putting t \<in> set (sv_stoppers s) \<longrightarrow>
        t < length (sv_jobs s) \<and> None \<notin> set (job_queue (sv_jobs s ! t)) \<and>
        count_list (sv_stoppers s) (Putting t) = 1)"

definition drops_ok :: "Service \<Rightarrow> bool" where
  "drops_ok s \<longleftrightarrow>
     sv_record_drops s = sum_list (map (\<lambda>j. job_refused j + length (job_lost j)) (sv_jobs s))"

definition service_ok :: "Scan list \<Rightarrow> Service \<Rightarrow> bool" where
  "service_ok ds s \<longleftrightarrow>
     clients_ok ds s \<and> list_all (job_ok ds) (sv_jobs s) \<and> refs_ok s \<and> drops_ok s"

lemmas service_ok_defs = service_ok_def clients_ok_def refs_ok_def drops_ok_def

lemma update_job_sel [simp]:
  "sv_jobs (update_job i f s) = (sv_jobs s)[i := f (sv_jobs s ! i)]"
  "sv_subscribers (update_job i f s) = sv_subscribers s"
  "sv_recorder (update_job i f s) = sv_recorder s"
  "sv_record_queue (update_job i f s) = sv_record_queue s"
  "sv_record_task (update_job i f s) = sv_record_task s"
  "sv_stoppers (update_job i f s) = sv_stoppers s"
  "sv_record_drops (update_job i f s) = sv_record_drops s"
  "sv_device (update_job i f s) = sv_device s"
  "sv_operation (update_job i f s) = sv_operation s"
  "sv_folder (update_job i f s) = sv_folder s"
  by (simp_all add: update_job_def)

lemma service_note_sel [simp]:
  "sv_jobs (service_note m s) = sv_jobs s" "sv_subscribers (service_note m s) = sv_subscribers s"
  "sv_recorder (service_note m s) = sv_recorder s" "sv_record_queue (service_note m s) = sv_record_queue s"
  "sv_record_task (service_note m s) = sv_record_task s" "sv_stoppers (service_note m s) = sv_stoppers s"
  "sv_record_drops (service_note m s) = sv_record_drops s" "sv_folder (service_note m s) = sv_folder s"
  "delivered (sv_device (service_note m s)) = delivered (sv_device s)"
  by (simp_all add: service_note_def device_note_def)

text \<open>What an update of one job has to keep.\<close>

lemma list_all_update: "list_all P xs \<Longrightarrow> (i < length xs \<Longrightarrow> P x) \<Longrightarrow> list_all P (xs[i := x])"
  by (cases "i < length xs") (auto simp: list_all_length nth_list_update list_update_beyond)

lemma sum_update_plus:
  "i < length xs \<Longrightarrow> f x = f (xs ! i) + n \<Longrightarrow>
   sum_list (map f (xs[i := x])) = sum_list (map (f :: _ \<Rightarrow> nat) xs) + n"
proof (induction xs arbitrary: i)
  case (Cons y xs)
  then show ?case by (cases i) auto
qed simp

lemma sum_update_same:
  "f x = f (xs ! i) \<Longrightarrow> sum_list (map f (xs[i := x])) = sum_list (map (f :: _ \<Rightarrow> nat) xs)"
  using sum_update_plus [of i xs f x 0] by (cases "i < length xs") (simp_all add: list_update_beyond)

lemma refs_ok_update:
  assumes "refs_ok s" "sv_jobs s' = (sv_jobs s)[i := j]"
    and "sv_recorder s' = sv_recorder s" "sv_record_queue s' = sv_record_queue s"
    and "sv_record_task s' = sv_record_task s" "sv_stoppers s' = sv_stoppers s"
    and "None \<notin> set (job_queue (sv_jobs s ! i)) \<Longrightarrow> None \<notin> set (job_queue j)"
    and "sv_recorder s = Some i \<Longrightarrow> active (job_phase j)"
  shows "refs_ok s'"
proof -
  have nth: "sv_jobs s' ! t = (if t = i \<and> i < length (sv_jobs s) then j else sv_jobs s ! t)" for t
    using assms(2) by (cases "i < length (sv_jobs s)") (simp_all add: nth_list_update list_update_beyond)
  have len: "length (sv_jobs s') = length (sv_jobs s)" using assms(2) by simp
  show ?thesis
    unfolding refs_ok_def nth len assms(3-6)
    using assms(1,7,8) unfolding refs_ok_def by (auto split: if_splits)
qed

section \<open>Every step keeps the invariant\<close>

interpretation client_queue: drop_oldest 2 client_put
  by unfold_locales (auto simp: client_put_def)

lemma client_put_suffix: "suffix q ds \<Longrightarrow> suffix (client_put q scan) (ds @ [scan])"
  by (auto simp: client_put_def intro: suffix_order.trans [OF suffix_tl])

lemma clients_publish: "clients_ok ds s \<Longrightarrow> clients_ok (ds @ [scan]) (publish_clients scan s)"
  unfolding clients_ok_def publish_clients_def list_all_iff
  by (auto simp del: suffix_snoc intro: client_queue.push_bounded client_put_suffix)

lemma subseq_snoc: "subseq xs ds \<Longrightarrow> subseq xs (ds @ [x])" "subseq xs ds \<Longrightarrow> subseq (xs @ [x]) (ds @ [x])"
  by (auto intro: subseq_rev_drop_many list_emb_append_mono)

lemma job_ok_grow: "job_ok ds j \<Longrightarrow> job_ok (ds @ [scan]) j"
  by (simp add: job_ok_def subseq_snoc(1))

lemma pending_put:
  "active (job_phase j) \<Longrightarrow> pending (j\<lparr>job_queue := job_queue j @ [Some scan], job_taken := ts\<rparr>) = pending j @ [scan]"
  by (cases "job_phase j") (simp_all add: pending_def)

lemma queue_ok_snoc: "queue_ok q \<Longrightarrow> None \<notin> set q \<Longrightarrow> length q < 128 \<Longrightarrow> queue_ok (q @ [x])"
  by (simp add: queue_ok_def butlast_append)

lemma job_ok_put:
  assumes "job_ok ds j" "active (job_phase j)" "None \<notin> set (job_queue j)" "length (job_queue j) < 128"
  shows "job_ok (ds @ [scan]) (j\<lparr>job_queue := job_queue j @ [Some scan], job_taken := job_taken j @ [scan]\<rparr>)"
  using assms by (simp add: job_ok_def subseq_snoc(2) pending_put queue_ok_snoc)

lemma publish_clients_sel [simp]:
  "sv_jobs (publish_clients scan s) = sv_jobs s" "sv_recorder (publish_clients scan s) = sv_recorder s"
  "sv_record_queue (publish_clients scan s) = sv_record_queue s"
  "sv_record_task (publish_clients scan s) = sv_record_task s"
  "sv_stoppers (publish_clients scan s) = sv_stoppers s"
  "sv_record_drops (publish_clients scan s) = sv_record_drops s"
  "sv_device (publish_clients scan s) = sv_device s"
  by (simp_all add: publish_clients_def)

text \<open>The three ways in which \<open>publish_record\<close> goes, under the invariant.\<close>

lemma publish_record_cases:
  assumes "refs_ok s"
  obtains (idle) "publish_record scan s = s"
  | (full) i where "sv_recorder s = Some i" "128 \<le> length (job_queue (sv_jobs s ! i))"
      "publish_record scan s = (update_job i (\<lambda>j. j\<lparr>job_refused := job_refused j + 1\<rparr>) s)
         \<lparr>sv_record_drops := sv_record_drops s + 1\<rparr>"
  | (room) i where "sv_recorder s = Some i" "length (job_queue (sv_jobs s ! i)) < 128"
      "publish_record scan s = update_job i (\<lambda>j. j\<lparr>job_queue := job_queue j @ [Some scan],
         job_taken := job_taken j @ [scan]\<rparr>) s"
proof (cases "sv_recorder s")
  case None
  then show ?thesis using idle by (simp add: publish_record_def)
next
  case (Some i)
  then have "sv_record_queue s = Some i" using assms by (simp add: refs_ok_def)
  then show ?thesis
    using that Some
    by (cases "rec_closed (job_recorder (sv_jobs s ! i))"; cases "128 \<le> length (job_queue (sv_jobs s ! i))")
      (simp_all add: publish_record_def)
qed

lemma refs_okD:
  assumes "refs_ok s" "sv_recorder s = Some i"
  shows "i < length (sv_jobs s)" "active (job_phase (sv_jobs s ! i))"
    "None \<notin> set (job_queue (sv_jobs s ! i))" "sv_record_queue s = Some i" "sv_record_task s = Some i"
  using assms by (auto simp: refs_ok_def)

lemma service_ok_record:
  assumes "clients_ok (ds @ [scan]) s" "list_all (job_ok ds) (sv_jobs s)" "refs_ok s" "drops_ok s"
  shows "service_ok (ds @ [scan]) (publish_record scan s)"
proof -
  have grow: "list_all (job_ok (ds @ [scan])) (sv_jobs s)"
    using assms(2) by (auto simp: list_all_iff job_ok_grow)
  from assms(3) show ?thesis
  proof (cases rule: publish_record_cases [where scan = scan])
    case idle
    then show ?thesis using assms grow by (simp add: service_ok_def)
  next
    case (full i)
    note i = refs_okD [OF assms(3) full(1)]
    let ?j = "sv_jobs s ! i"
    have "job_ok (ds @ [scan]) (?j\<lparr>job_refused := job_refused ?j + 1\<rparr>)"
      using grow i(1) by (auto simp: list_all_length job_ok_def)
    then show ?thesis
      using assms grow i unfolding service_ok_def full(3)
      by (auto simp: clients_ok_def drops_ok_def sum_update_plus [where n = 1]
          intro!: list_all_update refs_ok_update [OF assms(3)])
  next
    case (room i)
    note i = refs_okD [OF assms(3) room(1)]
    let ?j = "sv_jobs s ! i"
    have "job_ok ds ?j" using assms(2) i(1) by (simp add: list_all_length)
    from job_ok_put [OF this i(2,3) room(2)]
    show ?thesis
      using assms grow i unfolding service_ok_def room(3)
      by (auto simp: clients_ok_def drops_ok_def sum_update_same
          intro!: list_all_update refs_ok_update [OF assms(3)])
  qed
qed

lemma service_ok_publish: "service_ok ds s \<Longrightarrow> service_ok (ds @ [scan]) (publish scan s)"
  unfolding publish_def
  by (rule service_ok_record) (auto simp: service_ok_def clients_publish refs_ok_def drops_ok_def)

lemma service_ok_publish_all:
  "service_ok ds s \<Longrightarrow> service_ok (ds @ scans) (fold publish scans s)"
proof (induction scans arbitrary: ds s)
  case (Cons scan scans)
  from Cons.IH [OF service_ok_publish [OF Cons.prems]] show ?case by simp
qed simp

text \<open>The reader only adds to the scans it has delivered.\<close>

interpretation growing: reader_invariant "\<lambda>d. settings d = s \<and> prefix ds (delivered d)" s for s ds
  by unfold_locales (auto simp: prefix_def)

lemma delivered_grows: "\<exists>new. delivered (reader_step r d) = delivered d @ new"
  using growing.reader_step_ok [where s = "settings d" and ds = "delivered d" and d = d] by (auto simp: prefix_def)

lemma publish_sv_device [simp]: "sv_device (publish scan s) = sv_device s"
  by (auto simp: publish_def publish_record_def split: option.splits)

lemma publish_all_sv_device [simp]: "sv_device (fold publish scans s) = sv_device s"
  by (induction scans arbitrary: s) simp_all

lemma service_ok_device [simp]: "service_ok ds (s\<lparr>sv_device := d\<rparr>) = service_ok ds s"
  by (simp add: service_ok_defs)

lemma service_ok_note [simp]: "service_ok ds (service_note m s) = service_ok ds s"
  by (simp add: service_note_def)

lemma service_ok_folder [simp]: "service_ok ds (s\<lparr>sv_folder := fs\<rparr>) = service_ok ds s"
  by (simp add: service_ok_defs)

lemma service_ok_read:
  assumes "service_ok (delivered (sv_device s)) s"
  shows "service_ok (delivered (sv_device (service_read r s))) (service_read r s)"
proof -
  obtain new where new: "delivered (reader_step r (sv_device s)) = delivered (sv_device s) @ new"
    using delivered_grows by blast
  then show ?thesis
    using service_ok_publish_all [of _ "s\<lparr>sv_device := reader_step r (sv_device s)\<rparr>" new] assms
    by (simp add: service_read_def Let_def)
qed

lemma service_ok_clients:
  "service_ok ds s \<Longrightarrow> service_ok ds (snd (subscribe s))"
  "service_ok ds s \<Longrightarrow> service_ok ds (client_get k s)"
  "service_ok ds s \<Longrightarrow> service_ok ds (unsubscribe k s)"
proof -
  show "service_ok ds s \<Longrightarrow> service_ok ds (snd (subscribe s))"
    by (simp add: service_ok_defs subscribe_def)
  show "service_ok ds s \<Longrightarrow> service_ok ds (unsubscribe k s)"
    by (auto simp: service_ok_defs unsubscribe_def list_all_iff)
  assume "service_ok ds s"
  moreover have "length (tl q) \<le> 2 \<and> suffix (tl q) ds" if "length q \<le> 2 \<and> suffix q ds" for q
    using that by (auto intro: suffix_order.trans [OF suffix_tl])
  ultimately show "service_ok ds (client_get k s)"
    by (auto simp: service_ok_defs client_get_def list_all_iff split: if_splits)
qed

text \<open>Updating one job, with all four parts of the invariant.\<close>

lemma service_ok_update:
  assumes "service_ok ds s" "i < length (sv_jobs s)" "sv_jobs s' = (sv_jobs s)[i := j]"
    and "sv_subscribers s' = sv_subscribers s" "sv_recorder s' = sv_recorder s"
    and "sv_record_queue s' = sv_record_queue s" "sv_record_task s' = sv_record_task s"
    and "sv_stoppers s' = sv_stoppers s" "sv_record_drops s' = sv_record_drops s"
    and "job_ok ds (sv_jobs s ! i) \<Longrightarrow> job_ok ds j"
    and "set (job_queue j) \<subseteq> set (job_queue (sv_jobs s ! i))"
    and "sv_recorder s = Some i \<Longrightarrow> active (job_phase j)"
    and "job_refused j = job_refused (sv_jobs s ! i)" "job_lost j = job_lost (sv_jobs s ! i)"
  shows "service_ok ds s'"
proof -
  have "job_ok ds j" using assms(1,2,10) by (simp add: service_ok_def list_all_length)
  then show ?thesis
    using assms unfolding service_ok_def
    by (auto simp: clients_ok_def drops_ok_def sum_update_same intro!: list_all_update refs_ok_update [of s])
qed

lemma queue_ok_tl: "queue_ok (x # q) \<Longrightarrow> queue_ok q"
  by (cases q) (auto simp: queue_ok_def)

lemma queue_ok_sentinel: "queue_ok (None # q) \<Longrightarrow> q = []"
  by (cases q) (auto simp: queue_ok_def)

lemma service_ok_fetch:
  assumes ok: "service_ok ds s" and i: "i < length (sv_jobs s)"
    and fetching: "job_phase (sv_jobs s ! i) = Fetching" and item: "job_queue (sv_jobs s ! i) \<noteq> []"
  shows "service_ok ds (record_fetch i s)"
proof -
  let ?j = "sv_jobs s ! i"
  obtain x q where q: "job_queue ?j = x # q" using item by (cases "job_queue ?j") auto
  let ?j' = "?j\<lparr>job_queue := q, job_phase := (case x of Some scan \<Rightarrow> Writing scan | None \<Rightarrow> Closing)\<rparr>"
  have "record_fetch i s = update_job i (\<lambda>_. ?j') s"
    by (simp add: record_fetch_def update_job_def q split: option.splits)
  moreover have "job_ok ds ?j \<Longrightarrow> job_ok ds ?j'"
    using q fetching
    by (cases x) (auto simp: job_ok_def pending_def dest: queue_ok_tl queue_ok_sentinel)
  moreover have "sv_recorder s = Some i \<Longrightarrow> active (job_phase ?j')"
    using refs_okD(3) [of s i] ok q by (cases x) (auto simp: service_ok_def)
  ultimately show ?thesis
    using q by (intro service_ok_update [OF ok i, where j = ?j']) auto
qed

lemma service_ok_close:
  assumes ok: "service_ok ds s" and i: "i < length (sv_jobs s)" and "job_phase (sv_jobs s ! i) = Closing"
  shows "service_ok ds (record_close i s)"
proof -
  have "sv_recorder s \<noteq> Some i" using refs_okD(2) [of s i] assms by (auto simp: service_ok_def)
  then show ?thesis
    using assms(3) unfolding record_close_def
    by (intro service_ok_update [OF ok i, where j = "(sv_jobs s ! i)
          \<lparr>job_recorder := close_recorder (job_recorder (sv_jobs s ! i)), job_phase := Finished\<rparr>"]) (auto simp: job_ok_def pending_def)
qed


lemma service_ok_written:
  assumes ok: "service_ok ds s" and i: "i < length (sv_jobs s)" and "job_phase (sv_jobs s ! i) = Writing scan"
  shows "service_ok ds (update_job i (\<lambda>j. j\<lparr>job_recorder := r, job_phase := Fetching,
    job_written := job_written j @ [scan]\<rparr>) s)"
  using assms(3)
  by (intro service_ok_update [OF ok i, where j = "(sv_jobs s ! i)\<lparr>job_recorder := r,
        job_phase := Fetching, job_written := job_written (sv_jobs s ! i) @ [scan]\<rparr>"])
    (auto simp: job_ok_def pending_def)

lemma service_ok_failed:
  assumes ok: "service_ok ds s" and i: "i < length (sv_jobs s)" and writing: "job_phase (sv_jobs s ! i) = Writing scan"
  shows "service_ok ds (record_failed i scan s)"
proof -
  let ?j = "sv_jobs s ! i"
  let ?j' = "?j\<lparr>job_phase := Closing, job_lost := Some scan # job_queue ?j\<rparr>"
  let ?s = "s\<lparr>sv_recorder := if sv_recorder s = Some i then None else sv_recorder s\<rparr>"
  have parts: "clients_ok ds s" "list_all (job_ok ds) (sv_jobs s)" "refs_ok s" "drops_ok s"
    using ok by (simp_all add: service_ok_def)
  have j: "job_ok ds ?j" using parts(2) i by (simp add: list_all_length)
  then have "job_ok ds ?j'" using writing by (auto simp: job_ok_def pending_def)
  moreover have "refs_ok (record_failed i scan s)"
  proof (rule refs_ok_update [of ?s _ i ?j'])
    show "refs_ok ?s" using parts(3) by (auto simp: refs_ok_def)
  qed (auto simp: record_failed_def Let_def split: if_splits)
  moreover have "job_lost ?j = []" using j writing by (simp add: job_ok_def)
  ultimately show ?thesis
    using parts i
    by (auto simp: service_ok_def clients_ok_def drops_ok_def record_failed_def Let_def
        sum_update_plus [where n = "Suc (length (job_queue ?j))"] intro: list_all_update)
qed

lemma service_ok_write:
  assumes ok: "service_ok ds s" and i: "i < length (sv_jobs s)" and writing: "job_phase (sv_jobs s ! i) = Writing scan"
  shows "service_ok ds (record_write i disk scan s)"
proof (cases "record_scan disk scan (job_recorder (sv_jobs s ! i)) (sv_folder s)")
  case (fields fs r result)
  show ?thesis
  proof (cases result)
    case (Inl e)
    let ?s = "update_job i (\<lambda>j. j\<lparr>job_recorder := r\<rparr>) (s\<lparr>sv_folder := fs\<rparr>)"
    have "service_ok ds ?s"
      using writing refs_okD(2) [of s i] ok
      by (intro service_ok_update [OF ok i, where j = "(sv_jobs s ! i)\<lparr>job_recorder := r\<rparr>"])
        (auto simp: job_ok_def service_ok_def)
    then show ?thesis
      using service_ok_failed [of ds ?s i scan] i writing fields Inl by (simp add: record_write_def)
  next
    case (Inr u)
    then show ?thesis
      using service_ok_written [of ds "s\<lparr>sv_folder := fs\<rparr>" i scan r] assms fields
      by (simp add: record_write_def)
  qed
qed

lemma service_ok_start: "service_ok ds s \<Longrightarrow> service_ok ds (fst (start_recording stamp s))"
proof (cases "new_recorder (sv_folder s) (device_metadata (sv_device s)) None stamp True")
  case (Pair fs result)
  assume ok: "service_ok ds s"
  have "service_ok ds (s\<lparr>sv_folder := fs, sv_jobs := sv_jobs s @ [new_job r],
      sv_recorder := Some (length (sv_jobs s)), sv_record_queue := Some (length (sv_jobs s)),
      sv_record_task := Some (length (sv_jobs s))\<rparr>)" for r
    using ok
    by (auto simp: service_ok_defs new_job_def job_ok_def pending_def queue_ok_def nth_append)
  then show ?thesis using ok Pair by (auto simp: start_recording_def split: sum.splits option.splits)
qed

lemma count_list_snoc: "count_list (xs @ [x]) y = count_list xs y + (if x = y then 1 else 0)"
  by (induction xs) auto

lemma service_ok_stop: "service_ok ds s \<Longrightarrow> service_ok ds (stop_recording s)"
proof (cases "sv_record_task s")
  case None
  assume "service_ok ds s"
  then show ?thesis using None by (auto simp: service_ok_defs stop_recording_def Let_def)
next
  case (Some t)
  assume ok: "service_ok ds s"
  then have "count_list (sv_stoppers s) (Putting t) = 0"
    using Some by (auto simp: service_ok_defs count_list_0_iff)
  then show ?thesis using ok Some
    by (auto simp: service_ok_defs stop_recording_def Let_def count_list_snoc)
qed


lemma count_list_update_other:
  "n < length xs \<Longrightarrow> xs ! n \<noteq> y \<Longrightarrow> x \<noteq> y \<Longrightarrow> count_list (xs[n := x]) y = count_list xs y"
proof (induction xs arbitrary: n)
  case (Cons z xs)
  then show ?case by (cases n) auto
qed simp

lemma count_list_update_once:
  "n < length xs \<Longrightarrow> count_list xs (xs ! n) = 1 \<Longrightarrow> x \<noteq> xs ! n \<Longrightarrow> xs ! n \<notin> set (xs[n := x])"
proof (induction xs arbitrary: n)
  case (Cons z xs)
  then show ?case by (cases n) (auto simp: count_list_0_iff split: if_splits)
qed simp

text \<open>A stopper that moves on from waiting in \<^verbatim>\<open>put\<close>, or returns.\<close>

lemma refs_ok_stopper:
  assumes "refs_ok s" "n < length (sv_stoppers s)" "\<And>t. x \<noteq> Putting t"
  shows "refs_ok (s\<lparr>sv_stoppers := (sv_stoppers s)[n := x]\<rparr>)"
proof -
  have sub: "Putting t \<in> set ((sv_stoppers s)[n := x]) \<Longrightarrow>
      Putting t \<in> set (sv_stoppers s) \<and> sv_stoppers s ! n \<noteq> Putting t" for t
    using assms count_list_update_once [of n "sv_stoppers s" x]
      set_update_subset_insert [of "sv_stoppers s" n x]
    unfolding refs_ok_def by (metis insertE nth_mem subsetD)
  have "count_list ((sv_stoppers s)[n := x]) (Putting t) = 1"
    if "Putting t \<in> set ((sv_stoppers s)[n := x])" for t
    using sub [OF that] assms count_list_update_other [of n "sv_stoppers s" "Putting t" x]
    unfolding refs_ok_def by metis
  then show ?thesis using assms(1) sub unfolding refs_ok_def by auto
qed

lemma service_ok_put:
  assumes ok: "service_ok ds s" and n: "n < length (sv_stoppers s)" "sv_stoppers s ! n = Putting t"
    and room: "length (job_queue (sv_jobs s ! t)) < 128"
  shows "service_ok ds (stop_put n t s)"
proof -
  let ?j = "(sv_jobs s ! t)\<lparr>job_queue := job_queue (sv_jobs s ! t) @ [None]\<rparr>"
  let ?s = "s\<lparr>sv_stoppers := (sv_stoppers s)[n := Awaiting t True]\<rparr>"
  have refs: "refs_ok s" using ok by (simp add: service_ok_def)
  have "Putting t \<in> set (sv_stoppers s)" using n by (metis nth_mem)
  then have t: "t < length (sv_jobs s)" "None \<notin> set (job_queue (sv_jobs s ! t))"
    "sv_record_task s \<noteq> Some t" "count_list (sv_stoppers s) (Putting t) = 1"
    using refs by (auto simp: refs_ok_def)
  have gone: "Putting t \<notin> set ((sv_stoppers s)[n := Awaiting t True])"
    using count_list_update_once [of n "sv_stoppers s" "Awaiting t True"] n t(4) by simp
  have "refs_ok ?s" using refs_ok_stopper [OF refs n(1)] by simp
  then have "refs_ok (stop_put n t s)"
    using t gone unfolding refs_ok_def stop_put_def
    by (auto simp: nth_list_update)
  moreover have "job_ok ds (sv_jobs s ! t)" using ok t(1) by (simp add: service_ok_def list_all_length)
  then have "job_ok ds ?j"
    using queue_ok_snoc [OF _ t(2) room]
    by (cases "job_phase (sv_jobs s ! t)") (auto simp: job_ok_def pending_def)
  ultimately show ?thesis
    using ok by (auto simp: service_ok_def clients_ok_def drops_ok_def stop_put_def sum_update_same
        intro: list_all_update)
qed

lemma service_ok_return:
  assumes "service_ok ds s" "n < length (sv_stoppers s)"
  shows "service_ok ds (stop_return n found s)"
proof -
  have "service_ok ds (s'\<lparr>sv_stoppers := (sv_stoppers s')[n := Returned]\<rparr>)"
    if "service_ok ds s'" "n < length (sv_stoppers s')" for s'
    using that refs_ok_stopper [of s' n Returned] by (auto simp: service_ok_def clients_ok_def drops_ok_def)
  from this [of s] this [of "service_note ''Recording finalized'' s"] show ?thesis
    using assms by (simp add: stop_return_def)
qed

lemma same_delivered [simp]:
  "sv_device (snd (subscribe s)) = sv_device s" "sv_device (client_get k s) = sv_device s"
  "sv_device (unsubscribe k s) = sv_device s" "sv_device (record_fetch i s) = sv_device s"
  "sv_device (record_close i s) = sv_device s" "sv_device (stop_put n t s) = sv_device s"
  "delivered (sv_device (stop_return n found s)) = delivered (sv_device s)"
  "delivered (sv_device (record_write i disk scan s)) = delivered (sv_device s)"
  "delivered (sv_device (stop_recording s)) = delivered (sv_device s)"
  "delivered (sv_device (fst (start_recording stamp s))) = delivered (sv_device s)"
  by (auto simp: subscribe_def client_get_def unsubscribe_def record_fetch_def record_close_def
      stop_put_def stop_return_def record_write_def record_failed_def stop_recording_def
      start_recording_def Let_def split: prod.splits sum.splits option.splits)

lemmas service_ok_steps = service_ok_read service_ok_clients service_ok_fetch service_ok_close
  service_ok_put service_ok_start service_ok_write service_ok_stop service_ok_return

lemma service_step_ok:
  assumes "service_step s s'" "service_ok (delivered (sv_device s)) s"
  shows "service_ok (delivered (sv_device s')) s'"
  using assms
proof (induction rule: service_step.induct)
  case (Acts name s s')
  then show ?case by (auto simp: action_def service_ok_defs try_bind_eq_Inr split: if_splits)
next
  case (Acted s)
  then show ?case by (simp add: service_ok_defs)
qed (simp_all add: service_ok_steps)

lemma service_reach_ok:
  "service_reach s0 s \<Longrightarrow> service_ok (delivered (sv_device s0)) s0 \<Longrightarrow>
   service_ok (delivered (sv_device s)) s"
  by (induction rule: service_reach.induct) (auto intro: service_step_ok)

lemma service_ok_new: "service_ok (delivered d) (new_service d fs)"
  by (simp add: service_ok_defs new_service_def)

section \<open>Actions\<close>

text \<open>Whatever the device keeps through its own operations, it keeps through the actions.\<close>

context device_invariant
begin

lemma action_body_ok: "keeps I (action_body name)"
  unfolding action_body_def close_def
  by (intro ends_if initialize_ok reconnect_ok connect_ok keeps_bind keeps_sleep close_keeps ends_raise)

lemma run_action_ok: "keeps I (run_action name)"
  unfolding run_action_def close_def
  by (intro keeps_catch action_body_ok keeps_bind close_keeps)
    (auto simp: goto_def intro!: ends_modify leave_ok log_ok error_ok)

end

lemma close_shuts: "close d ts = (Done (), d', ts') \<Longrightarrow> \<not> is_open d'"
  unfolding close_def
  using close_returns [of d ts d' ts'] by (cases "is_open d") (auto simp: close_unlocked_def)

section \<open>A full queue and a failed writer\<close>

text \<open>The call \<open>n\<close> of \<^verbatim>\<open>stop_recording\<close> waits to put its mark into the full queue of a writer that is gone.\<close>

definition blocked :: "nat \<Rightarrow> nat \<Rightarrow> Service \<Rightarrow> bool" where
  "blocked n t s \<longleftrightarrow>
     n < length (sv_stoppers s) \<and> sv_stoppers s ! n = Putting t \<and> t < length (sv_jobs s) \<and>
     length (job_queue (sv_jobs s ! t)) = 128 \<and> \<not> active (job_phase (sv_jobs s ! t)) \<and>
     sv_recorder s \<noteq> Some t"

lemma blocked_other_job:
  assumes "blocked n t s" "sv_stoppers s' = sv_stoppers s" "sv_jobs s' = (sv_jobs s)[i := j]"
    and "i \<noteq> t \<or> (length (job_queue j) = 128 \<and> \<not> active (job_phase j))" "sv_recorder s' \<noteq> Some t"
  shows "blocked n t s'"
  using assms by (cases "i = t") (auto simp: blocked_def nth_list_update)

lemma blocked_publish:
  assumes "refs_ok s" "blocked n t s"
  shows "blocked n t (publish scan s)"
proof -
  have "refs_ok (publish_clients scan s)" "blocked n t (publish_clients scan s)"
    using assms by (simp_all add: refs_ok_def blocked_def)
  then show ?thesis
    unfolding publish_def
    by (cases rule: publish_record_cases [where scan = scan])
      (auto simp: blocked_def nth_list_update)
qed

lemma blocked_publish_all:
  "service_ok ds s \<Longrightarrow> blocked n t s \<Longrightarrow> blocked n t (fold publish scans s)"
proof (induction scans arbitrary: ds s)
  case (Cons scan scans)
  then have "blocked n t (publish scan s)" using blocked_publish by (simp add: service_ok_def)
  then show ?case using Cons.IH [OF service_ok_publish [OF Cons.prems(1)]] by simp
qed simp

lemma blocked_step:
  assumes "service_step s s'" "service_ok (delivered (sv_device s)) s" "blocked n t s"
  shows "blocked n t s'"
  using assms
proof (induction rule: service_step.induct)
  case (Reads s r)
  then have "blocked n t (s\<lparr>sv_device := reader_step r (sv_device s)\<rparr>)" by (simp add: blocked_def)
  then show ?case using blocked_publish_all Reads.prems(1) by (auto simp: service_read_def Let_def)
next
  case (Starts s stamp)
  then show ?case
    by (auto simp: start_recording_def blocked_def nth_append split: sum.splits option.splits prod.splits)
next
  case (Fetches i s)
  then have "i \<noteq> t" by (auto simp: blocked_def)
  with Fetches show ?case by (auto simp: record_fetch_def blocked_def)
next
  case (Writes i s scan disk)
  then have "i \<noteq> t" by (auto simp: blocked_def)
  with Writes show ?case
    by (auto simp: record_write_def record_failed_def Let_def blocked_def split: prod.splits sum.splits)
next
  case (Closes i s)
  then show ?case by (auto simp: record_close_def blocked_def nth_list_update)
next
  case (Stops s)
  then show ?case
    by (auto simp: stop_recording_def blocked_def Let_def nth_append split: option.splits)
next
  case (Puts m s u)
  then have "m \<noteq> n" "u \<noteq> t" by (auto simp: blocked_def)
  with Puts show ?case by (auto simp: stop_put_def blocked_def)
next
  case (Returns m s u found)
  then have "m \<noteq> n" by (auto simp: blocked_def)
  with Returns show ?case by (auto simp: stop_return_def blocked_def)
next
  case (Acts name s s')
  then show ?case by (auto simp: action_def blocked_def try_bind_eq_Inr split: if_splits)
qed (simp_all add: blocked_def subscribe_def client_get_def unsubscribe_def)

lemma blocked_forever:
  assumes "service_reach s s'" "service_ok (delivered (sv_device s)) s" "blocked n t s"
  shows "blocked n t s'"
  using assms
proof (induction rule: service_reach.induct)
  case (Step s1 s2)
  then show ?case using blocked_step service_reach_ok by blast
qed simp

section \<open>Examples\<close>

definition streaming_device :: Device where
  "streaming_device = serial_device\<lparr>dev_state := STREAMING\<rparr>"

definition sample_service :: Service where
  "sample_service =
     fst (start_recording ''r'' (snd (subscribe (new_service streaming_device Map.empty))))"

lemma sample_service_sel:
  "sv_subscribers sample_service = [(0, [])]" "length (sv_jobs sample_service) = 1"
  "sv_record_drops sample_service = 0"
  by (simp_all add: sample_service_def start_recording_def subscribe_def new_service_def
      streaming_device_def new_recorder_def recording_name_def filename_stem_def with_suffix_def Let_def)

text \<open>A recording whose queue is full, whose disk has failed, and which is being stopped.\<close>

definition hanging_service :: Service where
  "hanging_service = (new_service (serial_device\<lparr>delivered := replicate 129 sample_scan\<rparr>) Map.empty)
     \<lparr>sv_jobs := [(new_job \<lparr>rec_name = ''r'', rec_jsonl = True, rec_metadata = sample_metadata,
          rec_count = 0, rec_closed = False\<rparr>)
        \<lparr>job_queue := replicate 128 (Some sample_scan), job_phase := Closing,
         job_taken := replicate 129 sample_scan, job_lost := replicate 129 (Some sample_scan)\<rparr>],
      sv_stoppers := [Putting 0], sv_record_drops := 129\<rparr>"

lemma somes_replicate: "somes (replicate n (Some x)) = replicate n x"
  by (induction n) simp_all

section \<open>Properties\<close>



text \<open>
  Publishing keeps a slow client up to date.  After any number of scans, published
  without the client reading, its queue holds the newest two of what it held and what was
  published, in order.
\<close>

theorem publish_keeps_newest:
  assumes "list_all (\<lambda>(k, q). length q \<le> 2) (sv_subscribers s)"
  shows "sv_subscribers (fold publish scans s) =
    map (\<lambda>(k, q). (k, drop (length q + length scans - 2) (q @ scans))) (sv_subscribers s)"
proof -
  have publish: "sv_subscribers (publish scan s) = map (\<lambda>(k, q). (k, client_put q scan)) (sv_subscribers s)" for scan s
    by (auto simp: publish_def publish_record_def publish_clients_def split: option.splits)
  have "sv_subscribers (fold publish scans s) =
      map (\<lambda>(k, q). (k, fold (\<lambda>x b. client_put b x) scans q)) (sv_subscribers s)"
    by (induction scans arbitrary: s) (simp_all add: publish comp_def split_def)
  then show ?thesis using assms client_queue.push_all by (auto simp: list_all_iff)
qed

theorem publish_keeps_newest_witness:
  "sv_subscribers (fold publish [sample_scan, sample_scan, sample_scan] sample_service) =
   [(0, [sample_scan, sample_scan])]"
  using publish_keeps_newest [of sample_service "[sample_scan, sample_scan, sample_scan]"]
  by (simp add: sample_service_sel)

text \<open>
  A service that may not write does not write.  Without the consent that
  \<^verbatim>\<open>require_write\<close> asks for, the actions start and reconnect are refused before anything is
  done, no action is accepted while another one is running, and whatever action is run, to
  any point and with any outcome, only status, type and configuration requests are sent.
\<close>

theorem service_respects_consent:
  assumes "require_write (settings (sv_device s)) \<noteq> Inr ()"
    and "set (sent (sv_device s)) \<subseteq> read_telegrams (settings (sv_device s))" "\<not> changed (sv_device s)"
    and "run_action name (sv_device s) ts = (out, d', ts')"
  shows "set (sent d') \<subseteq> read_telegrams (settings (sv_device s)) \<and> \<not> changed d' \<and>
    (case action name s of
       Inl e \<Rightarrow> is_ValueError e
     | Inr s' \<Rightarrow> name \<noteq> ''start'' \<and> name \<noteq> ''reconnect'' \<and> \<not> busy s \<and> sv_device s' = sv_device s)"
proof -
  let ?s = "settings (sv_device s)"
  have "only_reads ?s (sv_device s)" using assms by (simp add: only_reads_def)
  from endsD [OF reading.run_action_ok this assms(4)]
  have "set (sent d') \<subseteq> read_telegrams ?s \<and> \<not> changed d'" using assms(1) by (simp add: only_reads_def)
  moreover have "is_ValueError e" if "require_write ?s = Inl e" for e
    using that by (auto simp: require_write_def consent_require_def split: if_splits)
  moreover have "require_write ?s \<noteq> Inr u" for u using assms(1) by (cases u) simp
  ultimately show ?thesis
    by (cases "require_write ?s") (auto simp: action_def)
qed

theorem service_respects_consent_witness:
  "\<exists>d' ts'. run_action ''probe'' serial_device [] = (Pending, d', ts') \<and>
     set (sent d') \<subseteq> read_telegrams serial_settings \<and> \<not> changed d' \<and>
     (\<exists>e. action ''start'' (new_service serial_device Map.empty) = Inl e)"
proof -
  let ?s = "new_service serial_device Map.empty"
  have w: "require_write (settings (sv_device ?s)) \<noteq> Inr ()"
    by (simp add: new_service_def require_write_def serial_device_def new_device_def serial_settings_def
        default_settings_def physical_def)
  have clean: "sent (sv_device ?s) = []" "\<not> changed (sv_device ?s)" "settings (sv_device ?s) = serial_settings"
    by (simp_all add: new_service_def serial_device_def new_device_def)
  obtain d' ts' where r: "run_action ''probe'' (sv_device ?s) [] = (Pending, d', ts')"
    by (simp add: run_action_def catch_def action_body_def connect_def startup_delay_def op_when_def
        open_transport_def new_service_def serial_device_def new_device_def prepare_connect_def
        serial_settings_def default_settings_def bind_def read_state_def modify_def ret_def
        transition_def device_note_def reset_framer_def)
  have "set (sent d') \<subseteq> read_telegrams serial_settings \<and> \<not> changed d'"
    using service_respects_consent [OF w _ _ r] clean by simp
  moreover have "action ''start'' ?s = Inl (ValueError ''x'') \<or> (\<exists>e. action ''start'' ?s = Inl e)"
    using w by (cases "require_write (settings (sv_device ?s))")
      (auto simp: action_def new_service_def busy_def)
  ultimately show ?thesis using r by (auto simp: new_service_def)
qed

text \<open>
  C15: an action that fails leaves the device faulted and closed.  When the task of an action
  has returned, either the action itself has returned, or it raised an exception and the
  device is closed, in the state faulted.
\<close>

theorem run_action_ends_safely:
  assumes "run_action name d ts = (Done (), d', ts')"
  shows "if (\<exists>x. action_body name d ts = (Done (), x)) then action_body name d ts = (Done (), d', ts')
    else dev_state d' = FAULTED \<and> \<not> is_open d'"
proof (cases "action_body name d ts")
  case (fields out d1 ts1)
  show ?thesis
  proof (cases out)
    case (Raise e)
    then have "is_Exception e" using assms fields by (auto simp: run_action_def catch_eq split: if_splits)
    then obtain d2 d3 ts3 where "close d2 ts1 = (Done (), d3, ts3)" "d' = transition FAULTED d3"
      using assms fields Raise
      by (auto simp: run_action_def catch_eq bind_Done_eq goto_def split: if_splits)
    then show ?thesis using close_shuts fields Raise by auto
  qed (use assms fields in \<open>auto simp: run_action_def catch_eq\<close>)
qed

theorem run_action_ends_safely_witness:
  "\<exists>d'. run_action ''unknown'' serial_device [] = (Done (), d', []) \<and>
     dev_state d' = FAULTED \<and> \<not> is_open d'"
proof -
  have body: "action_body ''unknown'' serial_device [] = (Raise (ValueError ''Unknown action''), serial_device, [])"
    by (simp add: action_body_def raise_def)
  obtain d' where r: "run_action ''unknown'' serial_device [] = (Done (), d', [])"
    by (simp add: run_action_def catch_def action_body_def raise_def bind_def modify_def close_def
        close_unlocked_def read_state_def ret_def goto_def serial_device_def new_device_def device_note_def)
  from run_action_ends_safely [OF r] r show ?thesis by (simp add: body)
qed

text \<open>
  C16: a stopped recording can wait forever.  When \<^verbatim>\<open>stop_recording\<close> is waiting to put its
  end mark into a full queue and the writer has given up in the meantime, nobody takes
  anything out of that queue any more: whatever happens afterwards, the call does not return.
\<close>

theorem stop_recording_can_hang:
  assumes "service_ok (delivered (sv_device s)) s" "blocked n t s" "service_reach s s'"
  shows "sv_stoppers s' ! n = Putting t"
  using blocked_forever [OF assms(3,1,2)] by (simp add: blocked_def)

theorem stop_recording_can_hang_witness:
  "sv_stoppers hanging_service ! 0 = Putting 0 \<and> job_phase (sv_jobs hanging_service ! 0) = Closing"
proof -
  have ok: "service_ok (delivered (sv_device hanging_service)) hanging_service"
    by (simp add: service_ok_defs hanging_service_def job_ok_def queue_ok_def pending_def
        somes_replicate new_service_def new_job_def butlast_conv_take)
  have "blocked 0 0 hanging_service"
    by (simp add: blocked_def hanging_service_def new_service_def)
  from stop_recording_can_hang [OF ok this service_reach.Init] show ?thesis
    by (simp add: hanging_service_def)
qed

end
