(* ===== verification/Serial_Tools.thy ===== *)
theory Serial_Tools
  imports Responses
begin

text \<open>
  The ground the commissioning tools stand on: synchronous programs that own one serial
  port (\<^verbatim>\<open>hardware_diagnostic.py\<close>, \<^verbatim>\<open>status_probe.py\<close>, \<^verbatim>\<open>reset_experiment.py\<close>,
  \<^verbatim>\<open>ros2_status_experiment.py\<close>).  The port and the clock are the environment: every call of
  the port takes one \<open>wire\<close> from a list, which says when the call returned and what came
  of it.  Between two calls the clock stands still.  A program that has used up the list
  is \<open>Unfinished\<close>, so its states at all calls are those at the ends of the prefixes.

  The bench holds the port, the clock and the \<^verbatim>\<open>Capture\<close> object; a tool extends it by its
  own report.  Journal lines are output only and are left out.
\<close>

section \<open>Programs\<close>

text \<open>
  What one call of the port brings: its time of return, the bytes of a read, the count of a
  write, an exception, whether the timer of \<^verbatim>\<open>flush_output\<close> fired during it, and whether the
  port says it is open after a \<^verbatim>\<open>close\<close>.
\<close>

record wire =
  w_at :: rat
  w_data :: bytes
  w_count :: int
  w_error :: "error option"
  w_expired :: bool
  w_open :: bool

datatype 'a ending = Value 'a | Exn error | Unfinished

type_synonym ('s, 'a) prog = "'s \<Rightarrow> wire list \<Rightarrow> 'a ending \<times> 's \<times> wire list"

definition t_ret :: "'a \<Rightarrow> ('s, 'a) prog" where
  "t_ret x s ws = (Value x, s, ws)"

definition t_raise :: "error \<Rightarrow> ('s, 'a) prog" where
  "t_raise e s ws = (Exn e, s, ws)"

definition t_bind :: "('s, 'a) prog \<Rightarrow> ('a \<Rightarrow> ('s, 'b) prog) \<Rightarrow> ('s, 'b) prog" where
  "t_bind m f s ws =
     (case m s ws of
        (Value x, s', ws') \<Rightarrow> f x s' ws'
      | (Exn e, s', ws') \<Rightarrow> (Exn e, s', ws')
      | (Unfinished, s', ws') \<Rightarrow> (Unfinished, s', ws'))"

definition t_seq :: "('s, unit) prog \<Rightarrow> ('s, 'b) prog \<Rightarrow> ('s, 'b) prog" where
  "t_seq m n = t_bind m (\<lambda>_. n)"

definition t_catch :: "('s, 'a) prog \<Rightarrow> (error \<Rightarrow> bool) \<Rightarrow> (error \<Rightarrow> ('s, 'a) prog) \<Rightarrow> ('s, 'a) prog" where
  "t_catch m P h s ws =
     (case m s ws of
        (Exn e, s', ws') \<Rightarrow> if P e then h e s' ws' else (Exn e, s', ws')
      | r \<Rightarrow> r)"

text \<open>\<^verbatim>\<open>try: m finally: f\<close>; an exception out of \<open>f\<close> replaces what \<open>m\<close> gave.\<close>

definition t_finally :: "('s, 'a) prog \<Rightarrow> ('s, unit) prog \<Rightarrow> ('s, 'a) prog" where
  "t_finally m f s ws =
     (case m s ws of
        (Unfinished, s', ws') \<Rightarrow> (Unfinished, s', ws')
      | (r, s', ws') \<Rightarrow>
          (case f s' ws' of
             (Value _, s2, ws2) \<Rightarrow> (r, s2, ws2)
           | (Exn e, s2, ws2) \<Rightarrow> (Exn e, s2, ws2)
           | (Unfinished, s2, ws2) \<Rightarrow> (Unfinished, s2, ws2)))"

definition t_modify :: "('s \<Rightarrow> 's) \<Rightarrow> ('s, unit) prog" where
  "t_modify f s ws = (Value (), f s, ws)"

definition t_get :: "('s \<Rightarrow> 'a) \<Rightarrow> ('s, 'a) prog" where
  "t_get f s ws = (Value (f s), s, ws)"

definition t_when :: "bool \<Rightarrow> ('s, unit) prog \<Rightarrow> ('s, unit) prog" where
  "t_when c m = (if c then m else t_ret ())"

definition t_check :: "bool \<Rightarrow> error \<Rightarrow> ('s, unit) prog" where
  "t_check c e = (if c then t_ret () else t_raise e)"

text \<open>
  A loop: the body gives \<open>Some x\<close> to leave it and \<open>None\<close> to go round again.  Every round
  of the tools reads the port; a round that did not could not be repeated.
\<close>

function t_loop :: "('s, 'a option) prog \<Rightarrow> ('s, 'a) prog" where
  "t_loop body s ws =
     (case body s ws of
        (Value (Some x), s', ws') \<Rightarrow> (Value x, s', ws')
      | (Value None, s', ws') \<Rightarrow>
          if length ws' < length ws then t_loop body s' ws' else (Unfinished, s', ws')
      | (Exn e, s', ws') \<Rightarrow> (Exn e, s', ws')
      | (Unfinished, s', ws') \<Rightarrow> (Unfinished, s', ws'))"
  by pat_completeness auto
termination
  by (relation "measure (\<lambda>(_, _, ws). length ws)") auto

declare t_loop.simps [simp del]

section \<open>Captures\<close>

text \<open>
  The report entry of one telegram candidate.  The same dictionary is in the report and
  in the queue of valid candidates, so what is found out about a telegram later shows in
  both: the queue holds positions in the list of entries.
\<close>

record Detail =
  det_offset :: nat
  det_raw :: bytes
  det_expected :: int
  det_received :: int
  det_status_byte :: "StatusByte option"
  det_identity :: "string option"
  det_decoded :: "DeviceStatus option"
  det_acked :: bool
  det_error :: "error option"

definition det_valid :: "Detail \<Rightarrow> bool" where
  "det_valid d \<longleftrightarrow> det_expected d = det_received d"

definition det_address :: "Detail \<Rightarrow> int" where
  "det_address d = uint (det_raw d ! 1)"

definition det_command :: "Detail \<Rightarrow> int" where
  "det_command d = uint (det_raw d ! 4)"

definition det_payload_length :: "Detail \<Rightarrow> int" where
  "det_payload_length d = from_bytes (slice 2 4 (det_raw d))"

datatype phase = Passive | Pre_tx | Post_tx

record Capture =
  cap_raw :: bytes
  cap_framer :: Framer
  cap_telegrams :: "Detail list"
  cap_queue :: "nat list"
  cap_ack :: bool
  cap_nak :: bool
  cap_boundary :: "nat option"
  cap_post_ack :: bool
  cap_post_nak :: bool
  cap_status :: "nat option"
  cap_startup :: "nat option"

definition new_capture :: Capture where
  "new_capture = \<lparr>cap_raw = [], cap_framer = new_framer, cap_telegrams = [], cap_queue = [],
     cap_ack = False, cap_nak = False, cap_boundary = None, cap_post_ack = False,
     cap_post_nak = False, cap_status = None, cap_startup = None\<rparr>"

definition detail_of :: "FrameCandidate \<Rightarrow> Detail" where
  "detail_of c = \<lparr>det_offset = cand_offset c, det_raw = cand_raw c, det_expected = crc_expected c,
     det_received = crc_received c, det_status_byte = None, det_identity = None,
     det_decoded = None, det_acked = False, det_error = None\<rparr>"

definition note_candidate :: "FrameCandidate \<Rightarrow> Capture \<Rightarrow> Capture" where
  "note_candidate c cap =
     (let n = length (cap_telegrams cap);
          cap' = cap\<lparr>cap_telegrams := cap_telegrams cap @ [detail_of c]\<rparr>
      in if crc_valid c then cap'\<lparr>cap_queue := cap_queue cap @ [n]\<rparr> else cap')"

definition set_detail :: "nat \<Rightarrow> (Detail \<Rightarrow> Detail) \<Rightarrow> Capture \<Rightarrow> Capture" where
  "set_detail n f cap =
     cap\<lparr>cap_telegrams := (cap_telegrams cap)[n := f (cap_telegrams cap ! n)]\<rparr>"

definition note_control :: "phase \<Rightarrow> Control \<Rightarrow> Capture \<Rightarrow> Capture" where
  "note_control ph c cap =
     cap\<lparr>cap_ack := cap_ack cap \<or> c = ACK, cap_nak := cap_nak cap \<or> c = NAK,
         cap_post_ack := cap_post_ack cap \<or> (ph = Post_tx \<and> c = ACK),
         cap_post_nak := cap_post_nak cap \<or> (ph = Post_tx \<and> c = NAK)\<rparr>"

definition note_startup :: "nat \<Rightarrow> Frame \<Rightarrow> Response \<Rightarrow> Capture \<Rightarrow> Capture result" where
  "note_startup n frame reply cap =
     (if length (frame_payload frame) \<noteq> 23 \<or> \<not> isprefix (encode_ascii ''LMS200;'') (resp_data reply)
      then Inl (ProtocolError ''90h is not the documented LMS200 startup layout'')
      else try_bind (decode_ascii (resp_data reply)) (\<lambda>text.
        Inr ((set_detail n (\<lambda>d. d\<lparr>det_identity := Some (strip text)\<rparr>) cap)\<lparr>cap_startup := Some n\<rparr>)))"

definition note_status :: "nat \<Rightarrow> Response \<Rightarrow> Capture \<Rightarrow> Capture result" where
  "note_status n reply cap =
     try_bind (decode_status reply) (\<lambda>status.
       let cap' = set_detail n (\<lambda>d. d\<lparr>det_decoded := Some status, det_acked := cap_post_ack cap\<rparr>) cap
       in Inr (case cap_boundary cap of
            None \<Rightarrow> cap'
          | Some b \<Rightarrow>
              if b \<le> det_offset (cap_telegrams cap ! n) \<and> cap_post_ack cap
              then cap'\<lparr>cap_status := Some n\<rparr> else cap'))"

text \<open>What is found out about a telegram; a protocol error is noted, and ends the entry.\<close>

definition note_reply :: "nat \<Rightarrow> Frame \<Rightarrow> Response \<Rightarrow> Capture \<Rightarrow> Capture \<times> error option" where
  "note_reply n frame reply cap =
     (let cap' = set_detail n (\<lambda>d. d\<lparr>det_status_byte := Some (resp_status reply)\<rparr>) cap;
          r = (if resp_command reply = 0x90 then note_startup n frame reply cap'
               else if resp_command reply = 0xB1 then note_status n reply cap'
               else Inr cap')
      in case r of Inl e \<Rightarrow> (cap', Some e) | Inr c \<Rightarrow> (c, None))"

definition note_frame :: "Frame \<Rightarrow> Capture \<Rightarrow> Capture result" where
  "note_frame frame cap =
     (case cap_queue cap of
        [] \<Rightarrow> Inl IndexError
      | n # rest \<Rightarrow>
          (case (case response frame 0 of
                   Inl e \<Rightarrow> (cap\<lparr>cap_queue := rest\<rparr>, Some e)
                 | Inr reply \<Rightarrow> note_reply n frame reply (cap\<lparr>cap_queue := rest\<rparr>)) of
             (c, None) \<Rightarrow> Inr c
           | (c, Some e) \<Rightarrow>
               if is_ProtocolError e \<or> e = UnicodeDecodeError
               then Inr (set_detail n (\<lambda>d. d\<lparr>det_error := Some e\<rparr>) c)
               else Inl e))"

fun process :: "phase \<Rightarrow> event list \<Rightarrow> Capture \<Rightarrow> Capture result" where
  "process ph [] cap = Inr cap"
| "process ph (EvControl c # es) cap = process ph es (note_control ph c cap)"
| "process ph (EvFrame frame # es) cap = try_bind (note_frame frame cap) (process ph es)"

text \<open>The bytes of one read; the framer reports its candidates while it is fed.\<close>

definition take_bytes :: "phase \<Rightarrow> bool \<Rightarrow> bytes \<Rightarrow> Capture \<Rightarrow> Capture result" where
  "take_bytes ph framed data cap =
     (if data = [] then Inr cap
      else
        (let cap' = cap\<lparr>cap_raw := cap_raw cap @ data\<rparr> in
         if \<not> framed then Inr cap'
         else case feed (cap_framer cap) data of (f, es, cs) \<Rightarrow>
           process ph es (fold note_candidate cs (cap'\<lparr>cap_framer := f\<rparr>))))"

section \<open>The bench\<close>

text \<open>
  The clock, whether the \<^verbatim>\<open>Serial\<close> object exists and is open, and the data handed to its
  \<^verbatim>\<open>write\<close>; with the capture, this is the bench.
\<close>

record Port =
  b_clock :: rat
  b_created :: bool
  b_open :: bool
  b_written :: "bytes list"

record Bench = Port +
  b_capture :: Capture

definition next_wire :: "('a Port_scheme, wire) prog" where
  "next_wire b ws =
     (case ws of
        [] \<Rightarrow> (Unfinished, b, [])
      | w # rest \<Rightarrow> (Value w, b\<lparr>b_clock := max (b_clock b) (w_at w)\<rparr>, rest))"

definition raise_if :: "error option \<Rightarrow> ('s, unit) prog" where
  "raise_if x = (case x of None \<Rightarrow> t_ret () | Some e \<Rightarrow> t_raise e)"

text \<open>\<^verbatim>\<open>serial.Serial(port=None, ...)\<close> with its lines set, and \<^verbatim>\<open>open()\<close>.\<close>

definition port_create :: "('a Port_scheme, unit) prog" where
  "port_create = t_modify (\<lambda>b. b\<lparr>b_created := True\<rparr>)"

definition port_open :: "('a Port_scheme, unit) prog" where
  "port_open = t_bind next_wire (\<lambda>w. t_seq (raise_if (w_error w)) (t_modify (\<lambda>b. b\<lparr>b_open := True\<rparr>)))"

definition port_write :: "bytes \<Rightarrow> ('a Port_scheme, int) prog" where
  "port_write data =
     t_seq (t_modify (\<lambda>b. b\<lparr>b_written := b_written b @ [data]\<rparr>))
       (t_bind next_wire (\<lambda>w. t_seq (raise_if (w_error w)) (t_ret (w_count w))))"

definition port_read :: "('a Port_scheme, bytes) prog" where
  "port_read = t_bind next_wire (\<lambda>w. t_seq (raise_if (w_error w)) (t_ret (w_data w)))"

text \<open>
  \<^verbatim>\<open>flush_output\<close>: when the timer fires, the handle is closed under the flush.  An exception
  that comes out of the flush then is the one raised, otherwise a timeout.
\<close>

definition flush_output :: "('a Port_scheme, unit) prog" where
  "flush_output =
     t_bind next_wire (\<lambda>w.
     t_seq (t_when (w_expired w) (t_modify (\<lambda>b. b\<lparr>b_open := False\<rparr>)))
     (t_seq (raise_if (w_error w))
       (t_check (\<not> w_expired w)
          (TimeoutError ''Output flush exceeded one second; own serial handle closed''))))"

text \<open>A property of the port that asks the driver, such as \<^verbatim>\<open>out_waiting\<close>.\<close>

definition port_query :: "('a Port_scheme, unit) prog" where
  "port_query = t_bind next_wire (\<lambda>w. raise_if (w_error w))"

text \<open>\<^verbatim>\<open>initial_state\<close> asks for six lines and counters; a failing one is noted in the journal.\<close>

definition initial_state :: "('a Port_scheme, unit) prog" where
  "initial_state =
     foldr t_seq (replicate 6 (t_catch port_query is_OSError (\<lambda>_. t_ret ()))) (t_ret ())"

definition port_close :: "('a Port_scheme, unit) prog" where
  "port_close =
     t_bind next_wire (\<lambda>w.
     t_seq (t_modify (\<lambda>b. b\<lparr>b_open := w_open w \<and> w_error w \<noteq> None \<and> b_open b\<rparr>))
       (raise_if (w_error w)))"

definition capture_result :: "(Capture \<Rightarrow> Capture result) \<Rightarrow> ('a Bench_scheme, unit) prog" where
  "capture_result f b ws =
     (case f (b_capture b) of
        Inl e \<Rightarrow> (Exn e, b, ws)
      | Inr c \<Rightarrow> (Value (), b\<lparr>b_capture := c\<rparr>, ws))"

text \<open>\<^verbatim>\<open>Capture.read\<close>\<close>

definition capture_read :: "phase \<Rightarrow> bool \<Rightarrow> ('a Bench_scheme, unit) prog" where
  "capture_read ph framed = t_bind port_read (\<lambda>data. capture_result (take_bytes ph framed data))"

definition mark_boundary :: "Capture \<Rightarrow> Capture" where
  "mark_boundary cap = cap\<lparr>cap_boundary := Some (length (cap_raw cap))\<rparr>"

definition on_capture :: "(Capture \<Rightarrow> Capture) \<Rightarrow> ('a Bench_scheme, unit) prog" where
  "on_capture f = t_modify (\<lambda>b. b\<lparr>b_capture := f (b_capture b)\<rparr>)"

text \<open>\<^verbatim>\<open>while time.monotonic() < deadline: capture.read(device, phase)\<close>\<close>

definition read_window :: "phase \<Rightarrow> bool \<Rightarrow> rat \<Rightarrow> ('a Bench_scheme, unit) prog" where
  "read_window ph framed deadline =
     t_loop (t_bind (t_get b_clock) (\<lambda>now.
       if deadline \<le> now then t_ret (Some ())
       else t_seq (capture_read ph framed) (t_ret None)))"

end
