(* ===== verification/Capture_Properties.thy ===== *)
theory Capture_Properties
  imports Serial_Tools
begin

text \<open>
  Reasoning about the tools.  \<open>t_ends P m J\<close> says that \<open>J\<close> holds wherever \<open>m\<close> stops,
  \<open>t_gives P m Q\<close> speaks of its values.  The second part is about captures: processing
  never fails, because the framer reports exactly one valid candidate per telegram; every
  entry of the report is a piece of the bytes received, at the offset it states; and the
  status that a tool reports is a valid telegram received after its request and after an
  acknowledgement.
\<close>

section \<open>Triples\<close>

definition t_ends :: "('s \<Rightarrow> bool) \<Rightarrow> ('s, 'a) prog \<Rightarrow> ('s \<Rightarrow> bool) \<Rightarrow> bool" where
  "t_ends P m J \<longleftrightarrow> (\<forall>s ws. P s \<longrightarrow> J (fst (snd (m s ws))))"

definition t_gives :: "('s \<Rightarrow> bool) \<Rightarrow> ('s, 'a) prog \<Rightarrow> ('a \<Rightarrow> 's \<Rightarrow> bool) \<Rightarrow> bool" where
  "t_gives P m Q \<longleftrightarrow> (\<forall>s ws x s' ws'. P s \<longrightarrow> m s ws = (Value x, s', ws') \<longrightarrow> Q x s')"

abbreviation t_keeps :: "('s \<Rightarrow> bool) \<Rightarrow> ('s, 'a) prog \<Rightarrow> bool" where
  "t_keeps J m \<equiv> t_ends J m J"

named_theorems t_intros \<open>rules for the combinators of the tools\<close>

lemma t_endsD: "t_ends P m J \<Longrightarrow> P s \<Longrightarrow> m s ws = (out, s', ws') \<Longrightarrow> J s'"
  unfolding t_ends_def by (metis fst_conv snd_conv)

lemma t_endsI: "(\<And>s ws out s' ws'. P s \<Longrightarrow> m s ws = (out, s', ws') \<Longrightarrow> J s') \<Longrightarrow> t_ends P m J"
  by (metis t_ends_def prod.collapse)

lemma t_givesD: "t_gives P m Q \<Longrightarrow> P s \<Longrightarrow> m s ws = (Value x, s', ws') \<Longrightarrow> Q x s'"
  unfolding t_gives_def by blast

lemma t_givesI:
  "(\<And>s ws x s' ws'. P s \<Longrightarrow> m s ws = (Value x, s', ws') \<Longrightarrow> Q x s') \<Longrightarrow> t_gives P m Q"
  unfolding t_gives_def by blast

lemma t_ends_weaken: "t_ends P m J \<Longrightarrow> (\<And>s. P' s \<Longrightarrow> P s) \<Longrightarrow> (\<And>s. J s \<Longrightarrow> J' s) \<Longrightarrow> t_ends P' m J'"
  by (auto simp: t_ends_def)

lemma t_ends_conj: "t_ends P m J \<Longrightarrow> t_ends P' m J' \<Longrightarrow> t_ends (\<lambda>s. P s \<and> P' s) m (\<lambda>s. J s \<and> J' s)"
  by (auto simp: t_ends_def)

lemma t_gives_ends: "t_ends P m J \<Longrightarrow> t_gives P m (\<lambda>_. J)"
  by (rule t_givesI) (rule t_endsD)

lemma t_simps [simp]:
  "t_ret x s ws = (Value x, s, ws)"
  "t_raise e s ws = (Exn e, s, ws)"
  "t_modify f s ws = (Value (), f s, ws)"
  "t_get g s ws = (Value (g s), s, ws)"
  by (simp_all add: t_ret_def t_raise_def t_modify_def t_get_def)

lemma t_bind_cases:
  "t_bind m f s ws = (out, s2, ws2) \<longleftrightarrow>
     (\<exists>x s1 ws1. m s ws = (Value x, s1, ws1) \<and> f x s1 ws1 = (out, s2, ws2)) \<or>
     (\<exists>e. m s ws = (Exn e, s2, ws2) \<and> out = Exn e) \<or>
     (m s ws = (Unfinished, s2, ws2) \<and> out = Unfinished)"
  by (auto simp: t_bind_def split: prod.splits ending.splits)

lemma t_bind_simps [simp]:
  "t_bind (t_get g) f s ws = f (g s) s ws"
  "t_bind (t_modify h) k s ws = k () (h s) ws"
  "t_bind (t_ret x) f s ws = f x s ws"
  "t_seq (t_modify h) n s ws = n (h s) ws"
  "t_seq (t_ret ()) n s ws = n s ws"
  by (simp_all add: t_bind_def t_seq_def)

lemma t_ends_bind:
  assumes "t_ends P m J" "t_gives P m K" "\<And>x. t_ends (K x) (f x) J"
  shows "t_ends P (t_bind m f) J"
  using assms by (intro t_endsI) (auto simp: t_bind_cases dest: t_endsD t_givesD)

lemma t_gives_bind:
  assumes "t_gives P m K" "\<And>x. t_gives (K x) (f x) Q"
  shows "t_gives P (t_bind m f) Q"
  using assms by (intro t_givesI) (auto simp: t_bind_cases dest: t_givesD)

lemma t_ends_seq:
  "t_ends P m J \<Longrightarrow> t_gives P m (\<lambda>_. K) \<Longrightarrow> t_ends K n J \<Longrightarrow> t_ends P (t_seq m n) J"
  unfolding t_seq_def by (rule t_ends_bind)

lemma t_ends_catch: "t_ends P m J \<Longrightarrow> (\<And>e. t_keeps J (h e)) \<Longrightarrow> t_ends P (t_catch m C h) J"
  by (rule t_endsI) (auto simp: t_catch_def dest: t_endsD split: prod.splits ending.splits if_splits)

lemma t_ends_finally: "t_ends P m J \<Longrightarrow> t_keeps J f \<Longrightarrow> t_ends P (t_finally m f) J"
  by (rule t_endsI) (auto simp: t_finally_def dest: t_endsD split: prod.splits ending.splits)

lemma t_keeps_bind [t_intros]: "t_keeps J m \<Longrightarrow> (\<And>x. t_keeps J (f x)) \<Longrightarrow> t_keeps J (t_bind m f)"
  by (rule t_ends_bind [where K = "\<lambda>_. J"]) (auto intro: t_gives_ends)

lemma t_keeps_seq [t_intros]: "t_keeps J m \<Longrightarrow> t_keeps J n \<Longrightarrow> t_keeps J (t_seq m n)"
  unfolding t_seq_def by (rule t_keeps_bind)

lemmas t_keeps_handlers [t_intros] = t_ends_catch [where P = J and J = J for J]
  t_ends_finally [where P = J and J = J for J]

lemma t_ends_loop:
  assumes "t_ends Q body J" "t_gives Q body (\<lambda>r s. r = None \<longrightarrow> Q s)"
  shows "t_ends Q (t_loop body) J"
proof (rule t_endsI)
  fix s ws out s' ws'
  assume "Q s" "t_loop body s ws = (out, s', ws')"
  with assms show "J s'"
  proof (induction body s ws rule: t_loop.induct)
    case (1 body s ws)
    show ?case
    proof (cases "body s ws")
      case (fields r s1 ws1)
      then have "J s1" "r = Value None \<Longrightarrow> Q s1" using "1.prems"(1-3) by (auto dest: t_endsD t_givesD)
      then show ?thesis
        using "1.IH" "1.prems" fields by (subst (asm) t_loop.simps) (auto split: ending.splits option.splits if_splits)
    qed
  qed
qed

lemma t_gives_weaken: "t_gives P m Q \<Longrightarrow> (\<And>x s. Q x s \<Longrightarrow> Q' x s) \<Longrightarrow> t_gives P m Q'"
  unfolding t_gives_def by blast

lemma t_gives_loop:
  assumes "t_gives Q body (\<lambda>r s. case r of None \<Rightarrow> Q s | Some x \<Rightarrow> K x s)"
  shows "t_gives Q (t_loop body) K"
proof (rule t_givesI)
  fix s ws x s' ws'
  assume "Q s" "t_loop body s ws = (Value x, s', ws')"
  with assms show "K x s'"
  proof (induction body s ws rule: t_loop.induct)
    case (1 body s ws)
    show ?case
    proof (cases "body s ws")
      case (fields r s1 ws1)
      then have "r = Value y \<Longrightarrow> case y of None \<Rightarrow> Q s1 | Some x \<Rightarrow> K x s1" for y
        using "1.prems"(1,2) by (auto dest: t_givesD)
      then show ?thesis
        using "1.IH" "1.prems" fields by (subst (asm) t_loop.simps) (auto split: ending.splits option.splits if_splits)
    qed
  qed
qed

lemma t_keeps_loop [t_intros]: "t_keeps J body \<Longrightarrow> t_keeps J (t_loop body)"
  by (rule t_ends_loop) (auto intro: t_givesI dest: t_endsD)

lemma t_keeps_atoms [t_intros]:
  "t_keeps J (t_ret x)" "t_keeps J (t_raise e)" "t_keeps J (t_get g)" "t_keeps J (raise_if x')"
  "t_keeps J (t_check c e)" "t_keeps J m \<Longrightarrow> t_keeps J (t_when c m)"
  "(\<And>s. J s \<Longrightarrow> J (h s)) \<Longrightarrow> t_keeps J (t_modify h)"
  by (auto simp: t_ends_def raise_if_def t_check_def t_when_def split: option.splits)

lemma t_keeps_if [t_intros]: "t_keeps J m \<Longrightarrow> t_keeps J n \<Longrightarrow> t_keeps J (if c then m else n)"
  by simp

text \<open>
  An invariant of the port: the clock may advance, the port may open and close.  All calls
  of the port keep it but \<open>port_write\<close>, which has to be looked at.  An invariant of the bench
  also survives captured bytes.
\<close>

locale port_invariant =
  fixes J :: "'a Port_scheme \<Rightarrow> bool"
  assumes clock_ok: "J b \<Longrightarrow> b_clock b \<le> t \<Longrightarrow> J (b\<lparr>b_clock := t\<rparr>)"
    and port_ok: "J b \<Longrightarrow> J (b\<lparr>b_created := c\<rparr>)" "J b \<Longrightarrow> J (b\<lparr>b_open := o'\<rparr>)"
begin

lemma keeps_next: "t_keeps J next_wire"
  by (rule t_endsI) (auto simp: next_wire_def clock_ok split: list.splits)

lemma keeps_port:
  "t_keeps J port_create" "t_keeps J port_open" "t_keeps J port_read" "t_keeps J flush_output"
  "t_keeps J port_close" "t_keeps J port_query"
  unfolding port_create_def port_open_def port_read_def flush_output_def port_close_def port_query_def
  by (intro t_intros keeps_next port_ok, assumption?)+

lemma keeps_initial_state: "t_keeps J initial_state"
proof -
  have "t_keeps J (foldr t_seq ms (t_ret ()))" if "\<And>m. m \<in> set ms \<Longrightarrow> t_keeps J m" for ms
    using that by (induction ms) (auto intro: t_intros)
  moreover have "t_keeps J (t_catch port_query is_OSError (\<lambda>_. t_ret ()))" by (intro t_intros keeps_port)
  ultimately show ?thesis unfolding initial_state_def by (metis in_set_replicate)
qed

end

locale bench_invariant = port_invariant J
  for J :: "'a Bench_scheme \<Rightarrow> bool" +
  fixes framed :: bool
  assumes bytes_ok: "J b \<Longrightarrow> take_bytes ph framed data (b_capture b) = Inr cap \<Longrightarrow> J (b\<lparr>b_capture := cap\<rparr>)"
begin

lemma keeps_capture_read: "t_keeps J (capture_read ph framed)"
  unfolding capture_read_def
  by (intro t_keeps_bind keeps_port t_endsI)
    (auto simp: capture_result_def intro: bytes_ok split: sum.splits)

lemma keeps_window: "t_keeps J (read_window ph framed deadline)"
  unfolding read_window_def by (intro t_intros keeps_capture_read)

lemmas bench_steps = keeps_port keeps_initial_state keeps_capture_read keeps_window

end

section \<open>Candidates and telegrams\<close>

text \<open>The framer holds the tail of the stream it has been fed.\<close>

definition on_stream :: "Framer \<Rightarrow> bytes \<Rightarrow> bool" where
  "on_stream f bs \<longleftrightarrow> offset f \<le> length bs \<and> buffer f = drop (offset f) bs"

definition candidate_ok :: "bytes \<Rightarrow> FrameCandidate \<Rightarrow> bool" where
  "candidate_ok bs c \<longleftrightarrow>
     cand_offset c + length (cand_raw c) \<le> length bs \<and>
     cand_raw c = take (length (cand_raw c)) (drop (cand_offset c) bs) \<and>
     crc_expected c = crc16 (take (length (cand_raw c) - 2) (cand_raw c)) \<and>
     crc_received c = from_bytes (drop (length (cand_raw c) - 2) (cand_raw c))"

lemma on_stream_discard: "on_stream f bs \<Longrightarrow> n \<le> length (buffer f) \<Longrightarrow> on_stream (discard n f) bs"
  by (auto simp: on_stream_def add.commute)

lemma on_stream_counts [simp]:
  "on_stream (count_noise f) bs = on_stream f bs" "on_stream (count_invalid_length f) bs = on_stream f bs"
  "on_stream (count_crc_error f) bs = on_stream f bs" "on_stream (count_frame f) bs = on_stream f bs"
  by (simp_all add: on_stream_def)

lemma candidate_at_ok:
  "on_stream f bs \<Longrightarrow> n \<le> length (buffer f) \<Longrightarrow> candidate_ok bs (candidate_at (offset f) n (buffer f))"
  by (auto simp: candidate_ok_def candidate_at_def on_stream_def Let_def min_def)

lemma feed_step_stream:
  assumes "feed_step f = Some (g, es, cs)" "on_stream f bs"
  shows "on_stream g bs \<and> list_all (candidate_ok bs) cs"
proof (cases rule: feed_step_cases [of f])
  case (candidate xs)
  let ?n = "nat (len_field (buffer f) + 6)"
  have n: "?n \<le> length (buffer f)" using candidate by linarith
  show ?thesis
    using assms candidate_at_ok [OF assms(2) n] feed_step_candidate [OF candidate refl refl] n candidate(1)
    by (auto split: if_splits intro!: on_stream_discard)
next
  case (control c xs)
  then show ?thesis using assms feed_step_control [OF control] by (auto intro!: on_stream_discard)
next
  case (noise b xs)
  then show ?thesis using assms feed_step_noise [OF noise] by (auto intro!: on_stream_discard)
next
  case (bad_length xs)
  then show ?thesis using assms feed_step_bad_length [OF bad_length] by (auto intro!: on_stream_discard)
qed (use assms(1) feed_step_Nil feed_step_short feed_step_partial in fastforce)+

lemma feed_loop_stream:
  "feed_loop f = (g, es, cs) \<Longrightarrow> on_stream f bs \<Longrightarrow> on_stream g bs \<and> list_all (candidate_ok bs) cs"
  by (induction rule: framer.run_induct) (auto dest: feed_step_stream)

lemma feed_stream:
  assumes "feed f d = (g, es, cs)" "on_stream f bs"
  shows "on_stream g (bs @ d)" "list_all (candidate_ok (bs @ d)) cs"
proof -
  have "on_stream (Framing.extend f d) (bs @ d)" using assms(2) by (simp add: on_stream_def)
  then show "on_stream g (bs @ d)" "list_all (candidate_ok (bs @ d)) cs"
    using assms(1) feed_loop_stream unfolding feed_def by blast+
qed

section \<open>Captures\<close>

definition entry_ok :: "bytes \<Rightarrow> Detail \<Rightarrow> bool" where
  "entry_ok bs d \<longleftrightarrow>
     det_offset d + length (det_raw d) \<le> length bs \<and>
     det_raw d = take (length (det_raw d)) (drop (det_offset d) bs) \<and>
     det_expected d = crc16 (take (length (det_raw d) - 2) (det_raw d)) \<and>
     det_received d = from_bytes (drop (length (det_raw d) - 2) (det_raw d))"

text \<open>The telegram of an entry has a valid checksum and the status, or the startup, in it was decoded.\<close>

definition status_entry :: "Capture \<Rightarrow> nat \<Rightarrow> bool" where
  "status_entry cap n \<longleftrightarrow>
     n < length (cap_telegrams cap) \<and> det_valid (cap_telegrams cap ! n) \<and>
     det_command (cap_telegrams cap ! n) = 0xB1 \<and> det_decoded (cap_telegrams cap ! n) \<noteq> None \<and>
     det_acked (cap_telegrams cap ! n) \<and>
     (case cap_boundary cap of None \<Rightarrow> False | Some b \<Rightarrow> b \<le> det_offset (cap_telegrams cap ! n))"

definition startup_entry :: "Capture \<Rightarrow> nat \<Rightarrow> bool" where
  "startup_entry cap n \<longleftrightarrow>
     n < length (cap_telegrams cap) \<and> det_valid (cap_telegrams cap ! n) \<and>
     det_command (cap_telegrams cap ! n) = 0x90 \<and> det_identity (cap_telegrams cap ! n) \<noteq> None"

definition evidence :: "Capture \<Rightarrow> bool" where
  "evidence cap \<longleftrightarrow>
     list_all (entry_ok (cap_raw cap)) (cap_telegrams cap) \<and>
     list_all (\<lambda>n. n < length (cap_telegrams cap)) (cap_queue cap) \<and>
     (case cap_status cap of None \<Rightarrow> True | Some n \<Rightarrow> status_entry cap n \<and> cap_post_ack cap) \<and>
     (case cap_startup cap of None \<Rightarrow> True | Some n \<Rightarrow> startup_entry cap n)"

definition waiting :: "Capture \<Rightarrow> Detail list" where
  "waiting cap = map (\<lambda>n. cap_telegrams cap ! n) (cap_queue cap)"

text \<open>Updates of an entry that leave alone where and what the telegram is.\<close>

definition annotates :: "(Detail \<Rightarrow> Detail) \<Rightarrow> bool" where
  "annotates f \<longleftrightarrow> (\<forall>d. det_offset (f d) = det_offset d \<and> det_raw (f d) = det_raw d \<and>
     det_expected (f d) = det_expected d \<and> det_received (f d) = det_received d \<and>
     (det_decoded d \<noteq> None \<longrightarrow> det_decoded (f d) \<noteq> None) \<and>
     (det_identity d \<noteq> None \<longrightarrow> det_identity (f d) \<noteq> None))"

lemma annotates_simps [simp]:
  "annotates (\<lambda>d. d\<lparr>det_status_byte := x\<rparr>)" "annotates (\<lambda>d. d\<lparr>det_error := y\<rparr>)"
  "annotates (\<lambda>d. d\<lparr>det_identity := Some t\<rparr>)" "annotates (\<lambda>d. d\<lparr>det_decoded := Some s, det_acked := a\<rparr>)"
  by (simp_all add: annotates_def)

lemma set_detail_sel [simp]:
  "cap_raw (set_detail n f cap) = cap_raw cap" "cap_framer (set_detail n f cap) = cap_framer cap"
  "cap_queue (set_detail n f cap) = cap_queue cap" "cap_boundary (set_detail n f cap) = cap_boundary cap"
  "cap_post_ack (set_detail n f cap) = cap_post_ack cap" "cap_post_nak (set_detail n f cap) = cap_post_nak cap"
  "cap_status (set_detail n f cap) = cap_status cap" "cap_startup (set_detail n f cap) = cap_startup cap"
  "length (cap_telegrams (set_detail n f cap)) = length (cap_telegrams cap)"
  by (simp_all add: set_detail_def)

lemma set_detail_nth:
  "k < length (cap_telegrams cap) \<Longrightarrow>
   cap_telegrams (set_detail n f cap) ! k = (if k = n then f else id) (cap_telegrams cap ! k)"
  by (cases "n < length (cap_telegrams cap)") (auto simp: set_detail_def nth_list_update)

lemma entry_ok_annotates: "annotates f \<Longrightarrow> entry_ok bs (f d) = entry_ok bs d"
  by (simp add: annotates_def entry_ok_def)

lemma telegrams_ok_set_detail:
  assumes "annotates f" "list_all (entry_ok bs) (cap_telegrams cap)"
  shows "list_all (entry_ok bs) (cap_telegrams (set_detail n f cap))"
  using assms unfolding list_all_length
  by (auto simp: set_detail_nth entry_ok_annotates)

lemma startup_entry_set_detail:
  "annotates f \<Longrightarrow> startup_entry cap k \<Longrightarrow> startup_entry (set_detail n f cap) k"
  by (auto simp: startup_entry_def set_detail_nth annotates_def det_valid_def det_command_def)

lemma status_entry_set_detail:
  assumes "annotates f" "\<And>d. det_acked d \<Longrightarrow> det_acked (f d)" "status_entry cap k"
  shows "status_entry (set_detail n f cap) k"
  using assms
  by (auto simp: status_entry_def set_detail_nth annotates_def det_valid_def det_command_def
      split: option.splits)

lemma evidence_set_detail:
  assumes "evidence cap" "annotates f" "cap_post_ack cap \<Longrightarrow> (\<And>d. det_acked d \<Longrightarrow> det_acked (f d))"
  shows "evidence (set_detail n f cap)"
  using assms startup_entry_set_detail [OF assms(2)] status_entry_set_detail [OF assms(2)]
  by (auto simp: evidence_def telegrams_ok_set_detail split: option.splits)

lemma waiting_set_detail:
  assumes "list_all (\<lambda>n. n < length (cap_telegrams cap)) (cap_queue cap)" "annotates f"
  shows "map det_raw (waiting (set_detail n f cap)) = map det_raw (waiting cap)"
    "map det_valid (waiting (set_detail n f cap)) = map det_valid (waiting cap)"
  using assms by (auto simp: waiting_def list_all_iff set_detail_nth annotates_def det_valid_def)

text \<open>The framer's candidates enter the report and the queue.\<close>

lemma note_candidate_sel [simp]:
  "cap_raw (note_candidate c cap) = cap_raw cap" "cap_framer (note_candidate c cap) = cap_framer cap"
  "cap_boundary (note_candidate c cap) = cap_boundary cap" "cap_post_ack (note_candidate c cap) = cap_post_ack cap"
  "cap_post_nak (note_candidate c cap) = cap_post_nak cap"
  "cap_status (note_candidate c cap) = cap_status cap" "cap_startup (note_candidate c cap) = cap_startup cap"
  "cap_telegrams (note_candidate c cap) = cap_telegrams cap @ [detail_of c]"
  "cap_queue (note_candidate c cap) =
     cap_queue cap @ (if crc_valid c then [length (cap_telegrams cap)] else [])"
  by (simp_all add: note_candidate_def Let_def)

lemma entry_ok_detail: "candidate_ok bs c \<Longrightarrow> entry_ok bs (detail_of c)"
  by (simp add: candidate_ok_def entry_ok_def detail_of_def)

lemma note_candidate_ok:
  assumes "evidence cap" "candidate_ok (cap_raw cap) c"
  shows "evidence (note_candidate c cap)"
    "waiting (note_candidate c cap) = waiting cap @ (if crc_valid c then [detail_of c] else [])"
proof -
  have q: "list_all (\<lambda>n. n < length (cap_telegrams cap)) (cap_queue cap)"
    using assms(1) by (simp add: evidence_def)
  show "waiting (note_candidate c cap) = waiting cap @ (if crc_valid c then [detail_of c] else [])"
    using q by (auto simp: waiting_def list_all_iff nth_append)
  show "evidence (note_candidate c cap)"
    using assms entry_ok_detail [OF assms(2)]
    by (auto simp: evidence_def list_all_iff status_entry_def startup_entry_def nth_append
        split: option.splits)
qed

lemma note_candidates_ok:
  assumes "evidence cap" "list_all (candidate_ok (cap_raw cap)) cs"
  shows "evidence (fold note_candidate cs cap) \<and>
    waiting (fold note_candidate cs cap) = waiting cap @ map detail_of (filter crc_valid cs) \<and>
    cap_raw (fold note_candidate cs cap) = cap_raw cap \<and>
    cap_framer (fold note_candidate cs cap) = cap_framer cap"
  using assms
proof (induction cs arbitrary: cap)
  case (Cons c cs)
  from Cons.IH [of "note_candidate c cap"] note_candidate_ok [OF Cons.prems(1)] Cons.prems(2)
  show ?case by simp
qed simp

text \<open>A capture about whose telegrams more is known, otherwise the same.\<close>

definition refined :: "Capture \<Rightarrow> Capture \<Rightarrow> bool" where
  "refined cap c \<longleftrightarrow>
     evidence c \<and> cap_raw c = cap_raw cap \<and> cap_framer c = cap_framer cap \<and>
     cap_boundary c = cap_boundary cap \<and> cap_queue c = cap_queue cap \<and>
     map det_raw (waiting c) = map det_raw (waiting cap) \<and>
     map det_valid (waiting c) = map det_valid (waiting cap)"

lemma refined_trans: "refined a b \<Longrightarrow> refined b c \<Longrightarrow> refined a c"
  by (simp add: refined_def)

lemma refined_set_detail:
  assumes "evidence cap" "annotates f" "cap_post_ack cap \<Longrightarrow> (\<And>d. det_acked d \<Longrightarrow> det_acked (f d))"
  shows "refined cap (set_detail n f cap)"
  using evidence_set_detail [OF assms] waiting_set_detail [OF _ assms(2)] assms(1)
  by (simp add: refined_def evidence_def)

lemma genuine_command: "genuine (EvFrame frame) \<Longrightarrow> frame_raw frame ! 4 = hd (frame_payload frame)"
  using encode_parts [of "frame_payload frame" "frame_address frame" "frame_raw frame"]
  by (cases "frame_payload frame") (auto simp: to_bytes2_def encode_eq_Inr well_sized_def)

definition noted :: "error \<Rightarrow> bool" where
  "noted e \<longleftrightarrow> is_ProtocolError e \<or> e = UnicodeDecodeError"

lemma note_startup_ok:
  assumes "evidence cap" "n < length (cap_telegrams cap)" "det_valid (cap_telegrams cap ! n)"
    "det_command (cap_telegrams cap ! n) = 0x90"
  shows "case note_startup n frame reply cap of Inl e \<Rightarrow> noted e | Inr c \<Rightarrow> refined cap c"
proof (cases "note_startup n frame reply cap")
  case (Inl e)
  then show ?thesis
    by (auto simp: note_startup_def try_bind_eq_Inl decode_ascii_def noted_def split: if_splits)
next
  case (Inr c)
  then obtain t where c: "c = (set_detail n (\<lambda>d. d\<lparr>det_identity := Some t\<rparr>) cap)\<lparr>cap_startup := Some n\<rparr>"
    by (auto simp: note_startup_def try_bind_eq_Inr split: if_splits)
  let ?c = "set_detail n (\<lambda>d. d\<lparr>det_identity := Some t\<rparr>) cap"
  have "refined cap ?c" by (rule refined_set_detail [OF assms(1)]) simp_all
  moreover have "startup_entry ?c n"
    using assms by (simp add: startup_entry_def set_detail_nth det_valid_def det_command_def)
  ultimately show ?thesis
    unfolding Inr unfolding c
    by (auto simp: refined_def evidence_def status_entry_def startup_entry_def waiting_def split: option.splits)
qed

lemma note_status_ok:
  assumes "evidence cap" "n < length (cap_telegrams cap)" "det_valid (cap_telegrams cap ! n)"
    "det_command (cap_telegrams cap ! n) = 0xB1"
  shows "case note_status n reply cap of Inl e \<Rightarrow> noted e | Inr c \<Rightarrow> refined cap c"
proof (cases "decode_status reply")
  case (Inl e)
  then show ?thesis using decode_status_error [OF Inl] by (simp add: note_status_def noted_def)
next
  case (Inr status)
  let ?c = "set_detail n (\<lambda>d. d\<lparr>det_decoded := Some status, det_acked := cap_post_ack cap\<rparr>) cap"
  have r: "refined cap ?c" by (rule refined_set_detail [OF assms(1)]) simp_all
  have s: "status_entry ?c n" if "cap_boundary cap = Some b" "b \<le> det_offset (cap_telegrams cap ! n)" "cap_post_ack cap" for b
    using that assms by (simp add: status_entry_def set_detail_nth det_valid_def det_command_def)
  have "refined cap (?c\<lparr>cap_status := Some n\<rparr>)" if "status_entry ?c n" "cap_post_ack cap"
    using r that
    by (auto simp: refined_def evidence_def status_entry_def startup_entry_def waiting_def split: option.splits)
  then show ?thesis using r s by (auto simp: note_status_def Inr Let_def split: option.splits)
qed

lemma note_reply_ok:
  assumes "evidence cap" "n < length (cap_telegrams cap)" "det_valid (cap_telegrams cap ! n)"
    "det_command (cap_telegrams cap ! n) = resp_command reply"
  shows "case note_reply n frame reply cap of (c, x) \<Rightarrow> refined cap c \<and> (case x of None \<Rightarrow> True | Some e \<Rightarrow> noted e)"
proof -
  let ?c = "set_detail n (\<lambda>d. d\<lparr>det_status_byte := Some (resp_status reply)\<rparr>) cap"
  have r: "refined cap ?c" by (rule refined_set_detail [OF assms(1)]) simp_all
  then have e: "evidence ?c" by (simp add: refined_def)
  have n: "n < length (cap_telegrams ?c)" "det_valid (cap_telegrams ?c ! n)"
    "det_command (cap_telegrams ?c ! n) = resp_command reply"
    using assms by (simp_all add: set_detail_nth det_valid_def det_command_def)
  show ?thesis
    using r note_startup_ok [OF e n(1,2), of frame reply] note_status_ok [OF e n(1,2), of reply] n(3)
    by (auto simp: note_reply_def Let_def intro: refined_trans split: sum.splits)
qed

lemma note_frame_ok:
  assumes "evidence cap" "genuine (EvFrame frame)" "cap_queue cap = n # rest"
    and "det_raw (cap_telegrams cap ! n) = frame_raw frame" "det_valid (cap_telegrams cap ! n)"
  shows "\<exists>c. note_frame frame cap = Inr c \<and> refined (cap\<lparr>cap_queue := rest\<rparr>) c"
proof -
  let ?cap = "cap\<lparr>cap_queue := rest\<rparr>"
  have e: "evidence ?cap" and n: "n < length (cap_telegrams ?cap)"
    using assms(1,3) by (auto simp: evidence_def status_entry_def startup_entry_def split: option.splits)
  have command: "det_command (cap_telegrams ?cap ! n) = resp_command reply" if "response frame 0 = Inr reply" for reply
    using assms(4) genuine_command [OF assms(2)] response_InrD(3) [OF that] by (simp add: det_command_def)
  have noted_ok: "refined ?cap (set_detail n (\<lambda>d. d\<lparr>det_error := Some x\<rparr>) c)" if "refined ?cap c" for c x
    by (rule refined_trans [OF that refined_set_detail]) (use that in \<open>simp_all add: refined_def\<close>)
  show ?thesis
  proof (cases "response frame 0")
    case (Inl x)
    then show ?thesis
      using response_error [OF Inl] assms(3) refined_set_detail [OF e, of "\<lambda>d. d\<lparr>det_error := Some x\<rparr>"]
      by (simp add: note_frame_def)
  next
    case (Inr reply)
    obtain c x where c: "note_reply n frame reply ?cap = (c, x)" by (cases "note_reply n frame reply ?cap")
    with note_reply_ok [OF e n _ command [OF Inr], of frame] assms(5)
    have "refined ?cap c" "case x of None \<Rightarrow> True | Some e \<Rightarrow> noted e" by simp_all
    then show ?thesis
      using Inr assms(3) c noted_ok by (cases x) (auto simp: note_frame_def noted_def)
  qed
qed

text \<open>The telegrams found and the entries waiting for them go together.\<close>

definition paired :: "event list \<Rightarrow> Capture \<Rightarrow> bool" where
  "paired es cap \<longleftrightarrow>
     map det_raw (waiting cap) = map wire_of (filter is_frame es) \<and> list_all det_valid (waiting cap)"

lemma note_control_ok:
  assumes "evidence cap"
  shows "evidence (note_control ph c cap)" "waiting (note_control ph c cap) = waiting cap"
    "cap_raw (note_control ph c cap) = cap_raw cap" "cap_framer (note_control ph c cap) = cap_framer cap"
    "cap_boundary (note_control ph c cap) = cap_boundary cap"
  using assms
  by (auto simp: note_control_def evidence_def status_entry_def startup_entry_def waiting_def split: option.splits)

lemma list_all_map_cong: "map f xs = map f ys \<Longrightarrow> list_all f xs = list_all f ys"
proof -
  have "list_all f zs = list_all id (map f zs)" for zs by (induction zs) simp_all
  then show "map f xs = map f ys \<Longrightarrow> list_all f xs = list_all f ys" by metis
qed

lemma process_ok:
  assumes "evidence cap" "list_all genuine es" "paired es cap"
  shows "\<exists>c. process ph es cap = Inr c \<and> evidence c \<and> cap_queue c = [] \<and> cap_raw c = cap_raw cap \<and>
    cap_framer c = cap_framer cap \<and> cap_boundary c = cap_boundary cap"
  using assms
proof (induction es arbitrary: cap)
  case Nil
  then show ?case by (simp add: paired_def waiting_def)
next
  case (Cons ev es)
  show ?case
  proof (cases ev)
    case (EvControl c)
    note ok = note_control_ok [OF Cons.prems(1), of ph c]
    have "paired es (note_control ph c cap)" using Cons.prems(3) ok by (simp add: EvControl paired_def)
    from Cons.IH [OF ok(1) _ this] Cons.prems(2) ok show ?thesis by (simp add: EvControl)
  next
    case (EvFrame frame)
    from Cons.prems(3) obtain n rest where q: "cap_queue cap = n # rest"
      by (cases "cap_queue cap") (auto simp: EvFrame paired_def waiting_def)
    have n: "det_raw (cap_telegrams cap ! n) = frame_raw frame" "det_valid (cap_telegrams cap ! n)"
      using Cons.prems(3) by (simp_all add: EvFrame paired_def waiting_def q)
    obtain c where c: "note_frame frame cap = Inr c" "refined (cap\<lparr>cap_queue := rest\<rparr>) c"
      using note_frame_ok [OF Cons.prems(1) _ q n] Cons.prems(2) by (auto simp: EvFrame)
    have "paired es (cap\<lparr>cap_queue := rest\<rparr>)"
      using Cons.prems(3) by (simp add: EvFrame paired_def waiting_def q)
    moreover have "list_all det_valid (waiting c) = list_all det_valid (waiting (cap\<lparr>cap_queue := rest\<rparr>))"
      using c(2) by (intro list_all_map_cong) (simp add: refined_def)
    ultimately have "paired es c" using c(2) unfolding paired_def refined_def by simp
    from Cons.IH [OF _ _ this] c Cons.prems(2) show ?thesis by (simp add: EvFrame refined_def)
  qed
qed

text \<open>
  A capture between two reads: everything reported so far is evidence, nothing is
  waiting, and the framer has seen what was received, or nothing if the capture is raw.
\<close>

definition sound :: "bool \<Rightarrow> Capture \<Rightarrow> bool" where
  "sound framed cap \<longleftrightarrow>
     evidence cap \<and> cap_queue cap = [] \<and>
     (if framed then on_stream (cap_framer cap) (cap_raw cap) else cap_telegrams cap = [])"

lemma entry_ok_append: "entry_ok bs d \<Longrightarrow> entry_ok (bs @ xs) d"
  by (auto simp: entry_ok_def)

lemma evidence_append:
  "evidence cap \<Longrightarrow> evidence (cap\<lparr>cap_raw := cap_raw cap @ data, cap_framer := f\<rparr>)"
  "evidence cap \<Longrightarrow> evidence (cap\<lparr>cap_raw := cap_raw cap @ data\<rparr>)"
  by (auto simp: evidence_def status_entry_def startup_entry_def list_all_iff entry_ok_append split: option.splits)

lemma take_bytes_ok:
  assumes "sound framed cap"
  shows "\<exists>c. take_bytes ph framed data cap = Inr c \<and> sound framed c \<and> cap_raw c = cap_raw cap @ data \<and>
    cap_boundary c = cap_boundary cap"
proof (cases "data \<noteq> [] \<and> framed")
  case True
  obtain f es cs where f: "feed (cap_framer cap) data = (f, es, cs)" by (cases "feed (cap_framer cap) data") auto
  let ?c1 = "cap\<lparr>cap_raw := cap_raw cap @ data, cap_framer := f\<rparr>"
  have "on_stream (cap_framer cap) (cap_raw cap)" using assms True by (simp add: sound_def)
  note stream = feed_stream [OF f this]
  have e: "evidence ?c1" using assms by (simp add: sound_def evidence_append)
  have c2: "evidence (fold note_candidate cs ?c1)" "cap_raw (fold note_candidate cs ?c1) = cap_raw cap @ data"
    "cap_framer (fold note_candidate cs ?c1) = f"
    "waiting (fold note_candidate cs ?c1) = map detail_of (filter crc_valid cs)"
    using note_candidates_ok [OF e] stream(2) assms by (simp_all add: sound_def waiting_def)
  have b: "cap_boundary (fold note_candidate cs c) = cap_boundary c" for c
    by (induction cs arbitrary: c) simp_all
  have "map cand_raw (filter crc_valid cs) = map wire_of (filter is_frame es)"
    using f feed_loop_account unfolding feed_def by blast
  moreover have "det_raw (detail_of c) = cand_raw c" "crc_valid c \<Longrightarrow> det_valid (detail_of c)" for c
    by (simp_all add: detail_of_def crc_valid_def det_valid_def)
  ultimately have "paired es (fold note_candidate cs ?c1)"
    unfolding paired_def c2(4) by (auto simp: list_all_iff comp_def)
  from process_ok [OF c2(1) feed_genuine [OF f] this, of ph] True f c2 stream(1) b
  show ?thesis by (auto simp: take_bytes_def sound_def)
next
  case False
  then show ?thesis
    using assms by (cases framed) (auto simp: take_bytes_def sound_def evidence_append)
qed

lemma sound_new: "sound framed new_capture"
  by (simp add: sound_def new_capture_def evidence_def on_stream_def new_framer_def)

lemma sound_step: "sound framed cap \<Longrightarrow> take_bytes ph framed data cap = Inr c \<Longrightarrow>
     sound framed c \<and> cap_boundary c = cap_boundary cap"
  using take_bytes_ok [of framed cap ph data] by auto

lemma sound_mark: "sound framed cap \<Longrightarrow> cap_boundary cap = None \<Longrightarrow> sound framed (mark_boundary cap)"
  by (auto simp: sound_def evidence_def mark_boundary_def status_entry_def startup_entry_def split: option.splits)

lemma sound_entries:
  "sound framed cap \<Longrightarrow> cap_startup cap = Some n \<Longrightarrow> startup_entry cap n"
  "sound framed cap \<Longrightarrow> cap_status cap = Some n \<Longrightarrow> status_entry cap n \<and> cap_post_ack cap"
  by (simp_all add: sound_def evidence_def)

text \<open>A call of the port that returns at time \<open>t\<close> without anything to report, for examples.\<close>

definition fine_wire :: "rat \<Rightarrow> wire" where
  "fine_wire t = \<lparr>w_at = t, w_data = [], w_count = 0, w_error = None, w_expired = False, w_open = False\<rparr>"

lemma initial_state_unfold:
  "initial_state = (let q = t_catch port_query is_OSError (\<lambda>_. t_ret ()) in
     t_seq q (t_seq q (t_seq q (t_seq q (t_seq q (t_seq q (t_ret ())))))))"
  by (simp add: initial_state_def Let_def numeral_eq_Suc del: foldr_replicate)

lemmas tool_steps = port_create_def port_open_def port_query_def port_write_def port_read_def port_close_def
  flush_output_def initial_state_unfold next_wire_def raise_if_def t_seq_def t_bind_def t_check_def t_finally_def
  t_catch_def t_when_def capture_read_def capture_result_def read_window_def t_loop.simps take_bytes_def

end
