(* ===== verification/Hardware_Diagnostic.thy ===== *)
theory Hardware_Diagnostic
  imports Capture_Properties Commands
begin

text \<open>
  \<^verbatim>\<open>hardware_diagnostic.py\<close>: bounded evidence capture on a native port.  Four modes make
  one run (\<open>run_diagnostic\<close>): listening to a scanner that starts, one status request, a
  loopback test, and a test that combines the first two.  A fifth (\<open>run_status_repeat\<close>)
  repeats the status request, at most ten times.  The operator's confirmations are functions
  of the time at which they are asked for.
\<close>

section \<open>Constants and report\<close>

definition STATUS_REQUEST :: bytes where
  "STATUS_REQUEST = [0x02, 0x00, 0x01, 0x00, 0x31, 0x15, 0x12]"

definition LOOPBACK_PATTERN :: bytes where
  "LOOPBACK_PATTERN =
     [0x55, 0xAA, 0x00, 0xFF, 0x11, 0x13, 0x06, 0x15, 0x02, 0x7E, 0x80, 0x01, 0xFE, 0xA5, 0x5A]"

definition READY_SECONDS :: rat where "READY_SECONDS = 300"

definition STARTUP_SECONDS :: rat where "STARTUP_SECONDS = 65"

definition STATUS_SECONDS :: rat where "STATUS_SECONDS = 3"

definition DIRECT_STATUS_SECONDS :: rat where "DIRECT_STATUS_SECONDS = 5"

datatype mode = Listen_startup | Status_mode | Loopback | Direct_test

definition diagnostic_mode :: "string \<Rightarrow> mode option" where
  "diagnostic_mode name =
     (if name = ''listen-startup'' then Some Listen_startup
      else if name = ''status'' then Some Status_mode
      else if name = ''loopback'' then Some Loopback
      else if name = ''direct-test'' then Some Direct_test else None)"

record Diagnostic = Bench +
  dg_port_opened :: bool
  dg_port_closed :: bool
  dg_success :: bool
  dg_tx_bytes :: "int option"
  dg_write_return :: "int option"
  dg_flush_attempted :: bool
  dg_flush_completed :: "bool option"
  dg_timeout_reason :: "string option"
  dg_exception :: "error option"
  dg_close_exception :: "error option"
  dg_power_confirmed :: bool
  dg_startup_complete :: bool
  dg_loopback_passed :: "bool option"
  dg_status_response :: "nat option"
  dg_startup_deadline :: "rat option"
  dg_completion_deadline :: "rat option"

definition new_diagnostic :: "rat \<Rightarrow> Diagnostic" where
  "new_diagnostic now = \<lparr>b_clock = now, b_created = False, b_open = False, b_written = [],
     b_capture = new_capture, dg_port_opened = False, dg_port_closed = True, dg_success = False,
     dg_tx_bytes = Some 0, dg_write_return = None, dg_flush_attempted = False,
     dg_flush_completed = None, dg_timeout_reason = None, dg_exception = None,
     dg_close_exception = None, dg_power_confirmed = False, dg_startup_complete = False,
     dg_loopback_passed = None, dg_status_response = None, dg_startup_deadline = None,
     dg_completion_deadline = None\<rparr>"

section \<open>Guards\<close>

definition request_crc_ok :: "bytes \<Rightarrow> bool" where
  "request_crc_ok raw \<longleftrightarrow>
     crc16 (take (length raw - 2) raw) = from_bytes (drop (length raw - 2) raw)"

definition diagnostic_guard ::
  "string \<Rightarrow> bool \<Rightarrow> bool \<Rightarrow> bool \<Rightarrow> bool \<Rightarrow> mode result"
where
  "diagnostic_guard name loopback_confirmed has_power direct_confirmed has_complete =
     (case diagnostic_mode name of
        None \<Rightarrow> Inl (ValueError ''Unknown diagnostic mode'')
      | Some mode \<Rightarrow>
          if mode = Loopback \<and> \<not> loopback_confirmed
          then Inl (ValueError ''Loopback requires explicit scanner-off/disconnected and Keyspan 2-3 confirmation'')
          else if mode \<in> {Listen_startup, Direct_test} \<and> \<not> has_power
          then Inl (ValueError ''Startup capture requires an operator confirmation mechanism'')
          else if mode = Direct_test \<and> (\<not> direct_confirmed \<or> \<not> has_complete)
          then Inl (ValueError ''Direct test requires physical connection and startup confirmation gates'')
          else if \<not> request_crc_ok STATUS_REQUEST
          then Inl (ValueError ''Golden status-request CRC does not match'')
          else Inr mode)"

section \<open>Passive capture\<close>

definition confirm_power :: "rat \<Rightarrow> Diagnostic \<Rightarrow> Diagnostic" where
  "confirm_power now d =
     d\<lparr>dg_power_confirmed := True, dg_startup_deadline := Some (now + STARTUP_SECONDS),
       dg_completion_deadline := Some (now + READY_SECONDS)\<rparr>"

definition give_up :: "string \<Rightarrow> Diagnostic \<Rightarrow> Diagnostic" where
  "give_up reason d = d\<lparr>dg_timeout_reason := Some reason\<rparr>"

text \<open>
  The decision of one round, before it reads: \<open>None\<close> to read on, \<open>Some\<close> to leave the
  loop with this state.
\<close>

definition passive_direct :: "(rat \<Rightarrow> bool) \<Rightarrow> rat \<Rightarrow> rat \<Rightarrow> Diagnostic \<Rightarrow> Diagnostic \<times> bool" where
  "passive_direct finished startup_deadline now d0 =
     (let d = (if \<not> dg_startup_complete d0 \<and> finished now then d0\<lparr>dg_startup_complete := True\<rparr> else d0) in
      if startup_deadline \<le> now \<and> dg_startup_complete d then (d, True)
      else case dg_completion_deadline d of
        None \<Rightarrow> (d, False)
      | Some limit \<Rightarrow>
          if limit \<le> now
          then (give_up ''Operator startup-complete confirmation not received within 300 seconds; no status sent'' d, True)
          else (d, False))"

definition passive_decide ::
  "mode \<Rightarrow> (rat \<Rightarrow> bool) \<Rightarrow> (rat \<Rightarrow> bool) \<Rightarrow> rat \<Rightarrow> Diagnostic \<Rightarrow> Diagnostic \<times> bool"
where
  "passive_decide mode powered finished ready_deadline d0 =
     (let now = b_clock d0;
          d = (if dg_startup_deadline d0 = None \<and> powered now then confirm_power now d0 else d0) in
      case dg_startup_deadline d of
        Some limit \<Rightarrow>
          if mode = Direct_test then passive_direct finished limit now d
          else if limit \<le> now
          then (give_up ''No valid startup telegram within 65 seconds of confirmation'' d, True)
          else (d, False)
      | None \<Rightarrow>
          if ready_deadline \<le> now
          then (give_up ''Operator power-cycle confirmation not received within 300 seconds'' d, True)
          else (d, False))"

definition passive_round ::
  "mode \<Rightarrow> (rat \<Rightarrow> bool) \<Rightarrow> (rat \<Rightarrow> bool) \<Rightarrow> rat \<Rightarrow> (Diagnostic, unit option) prog"
where
  "passive_round mode powered finished ready_deadline =
     t_bind (t_get (passive_decide mode powered finished ready_deadline)) (\<lambda>(d, leave).
     t_seq (t_modify (\<lambda>_. d))
       (if leave then t_ret (Some ())
        else
          t_seq (capture_read Passive True)
          (t_bind (t_get (\<lambda>d. mode = Listen_startup \<and> cap_startup (b_capture d) \<noteq> None)) (\<lambda>found.
           if found then t_seq (t_modify (\<lambda>d. d\<lparr>dg_success := True\<rparr>)) (t_ret (Some ()))
           else t_ret None))))"

definition passive_capture :: "mode \<Rightarrow> (rat \<Rightarrow> bool) \<Rightarrow> (rat \<Rightarrow> bool) \<Rightarrow> (Diagnostic, unit) prog" where
  "passive_capture mode powered finished =
     t_bind (t_get b_clock) (\<lambda>start. t_loop (passive_round mode powered finished (start + READY_SECONDS)))"

section \<open>The one request\<close>

definition request_of :: "mode \<Rightarrow> bytes" where
  "request_of mode = (if mode = Loopback then LOOPBACK_PATTERN else STATUS_REQUEST)"

definition send_request :: "bytes \<Rightarrow> (Diagnostic, unit) prog" where
  "send_request request =
     t_seq (t_modify (\<lambda>d. d\<lparr>dg_tx_bytes := None\<rparr>))
     (t_bind (port_write request) (\<lambda>written.
      t_seq (t_modify (\<lambda>d. d\<lparr>dg_write_return := Some written, dg_tx_bytes := Some written\<rparr>))
      (t_seq (t_check (written = int (length request)) (OSError ''Short write; no retry''))
      (t_seq (t_modify (\<lambda>d. d\<lparr>dg_flush_attempted := True\<rparr>))
      (t_seq flush_output
      (t_seq (t_modify (\<lambda>d. d\<lparr>dg_flush_completed := Some True\<rparr>)) port_query))))))"

definition received_after :: "Capture \<Rightarrow> bytes" where
  "received_after cap = (case cap_boundary cap of None \<Rightarrow> cap_raw cap | Some b \<Rightarrow> drop b (cap_raw cap))"

text \<open>The looks at the capture after every read of the answer; \<open>True\<close> is a \<^verbatim>\<open>break\<close>.\<close>

definition judge_read :: "mode \<Rightarrow> bytes \<Rightarrow> Diagnostic \<Rightarrow> Diagnostic \<times> bool" where
  "judge_read mode request d =
     (let cap = b_capture d in
      if mode = Status_mode \<and> cap_post_nak cap then (give_up ''NAK received; no retry'' d, True)
      else if mode = Status_mode \<and> cap_status cap \<noteq> None
      then (d\<lparr>dg_success := True, dg_status_response := cap_status cap\<rparr>, True)
      else if mode = Loopback \<and> \<not> isprefix (received_after cap) request
      then (give_up ''Loopback data differs from transmitted pattern'' d, True)
      else (d, False))"

text \<open>The \<^verbatim>\<open>else\<close> branch of the loop, when the time is over.\<close>

definition judge_end :: "mode \<Rightarrow> bytes \<Rightarrow> Diagnostic \<Rightarrow> Diagnostic" where
  "judge_end mode request d =
     (let cap = b_capture d;
          d1 = (if mode = Direct_test
                then d\<lparr>dg_success := (cap_status cap \<noteq> None \<and> \<not> cap_post_nak cap),
                       dg_status_response := cap_status cap\<rparr> else d);
          d2 = (if mode = Loopback
                then d1\<lparr>dg_loopback_passed := Some (received_after cap = request),
                        dg_success := (received_after cap = request)\<rparr> else d1) in
      if dg_success d2 then d2
      else give_up (if mode = Loopback then ''No exact loopback echo''
                    else if cap_post_nak cap then ''NAK received; no retry''
                    else ''No complete ACK + valid B1 after flush'') d2)"

definition answer_round :: "mode \<Rightarrow> bytes \<Rightarrow> rat \<Rightarrow> (Diagnostic, unit option) prog" where
  "answer_round mode request deadline =
     t_bind (t_get (\<lambda>d. deadline \<le> b_clock d)) (\<lambda>late.
     if late then t_seq (t_modify (judge_end mode request)) (t_ret (Some ()))
     else
       t_seq (capture_read Post_tx (mode \<noteq> Loopback))
       (t_bind (t_get (judge_read mode request)) (\<lambda>(d, leave).
        t_seq (t_modify (\<lambda>_. d)) (t_ret (if leave then Some () else None)))))"

definition active_test :: "mode \<Rightarrow> (Diagnostic, unit) prog" where
  "active_test mode =
     t_bind (t_get b_clock) (\<lambda>now.
     t_seq (read_window Pre_tx (mode \<noteq> Loopback) (now + 1 / 10))
     (t_seq (on_capture mark_boundary)
     (t_seq (send_request (request_of mode))
     (t_bind (t_get b_clock) (\<lambda>start.
      t_loop (answer_round mode (request_of mode)
        (start + (if mode = Direct_test then DIRECT_STATUS_SECONDS else STATUS_SECONDS))))))))"

section \<open>The run\<close>

definition open_port :: "(Diagnostic, unit) prog" where
  "open_port =
     t_seq port_create (t_seq port_open
       (t_seq (t_modify (\<lambda>d. d\<lparr>dg_port_opened := True, dg_port_closed := False\<rparr>)) initial_state))"

definition may_send :: "mode \<Rightarrow> Diagnostic \<Rightarrow> bool" where
  "may_send mode d \<longleftrightarrow>
     mode \<in> {Status_mode, Loopback} \<or>
     (mode = Direct_test \<and> dg_startup_complete d \<and> dg_timeout_reason d = None)"

definition diagnostic_body :: "mode \<Rightarrow> (rat \<Rightarrow> bool) \<Rightarrow> (rat \<Rightarrow> bool) \<Rightarrow> (Diagnostic, unit) prog" where
  "diagnostic_body mode powered finished =
     t_seq open_port
     (t_seq (t_when (mode \<in> {Listen_startup, Direct_test}) (passive_capture mode powered finished))
     (t_bind (t_get (may_send mode)) (\<lambda>send. t_when send (active_test mode))))"

definition diagnostic_caught :: "error \<Rightarrow> bool" where
  "diagnostic_caught e \<longleftrightarrow> e = KeyboardInterrupt \<or> is_OSError e \<or> is_ValueError e \<or> is_ProtocolError e"

definition note_exception :: "error \<Rightarrow> Diagnostic \<Rightarrow> Diagnostic" where
  "note_exception e d =
     (let d' = d\<lparr>dg_exception := Some e\<rparr> in
      if e = KeyboardInterrupt
      then give_up ''Interrupted by operator; no additional telegram sent'' d' else d')"

definition close_port :: "(Diagnostic, unit) prog" where
  "close_port =
     t_bind (t_get b_created) (\<lambda>created.
     t_when created
       (t_seq (t_catch port_close is_OSError (\<lambda>e. t_modify (\<lambda>d. d\<lparr>dg_close_exception := Some e\<rparr>)))
         (t_modify (\<lambda>d. d\<lparr>dg_port_closed := \<not> b_open d\<rparr>))))"

definition settle :: "mode \<Rightarrow> Diagnostic \<Rightarrow> Diagnostic" where
  "settle mode d =
     (let d1 = (if dg_flush_attempted d \<and> dg_flush_completed d = None
                then d\<lparr>dg_flush_completed := Some False\<rparr> else d) in
      if mode = Loopback \<and> dg_loopback_passed d1 = None \<and> dg_port_opened d1
      then d1\<lparr>dg_loopback_passed := Some False\<rparr> else d1)"

definition diagnostic_end :: "mode \<Rightarrow> (Diagnostic, unit) prog" where
  "diagnostic_end mode =
     t_seq (t_modify (settle mode))
     (t_seq close_port
       (t_modify (\<lambda>d. if dg_port_closed d then d else d\<lparr>dg_success := False\<rparr>)))"

definition run_diagnostic ::
  "string \<Rightarrow> (rat \<Rightarrow> bool) option \<Rightarrow> bool \<Rightarrow> bool \<Rightarrow> (rat \<Rightarrow> bool) option \<Rightarrow> (Diagnostic, unit) prog"
where
  "run_diagnostic name powered loopback_confirmed direct_confirmed finished =
     (case diagnostic_guard name loopback_confirmed (powered \<noteq> None) direct_confirmed (finished \<noteq> None) of
        Inl e \<Rightarrow> t_raise e
      | Inr mode \<Rightarrow>
          t_finally
            (t_catch (diagnostic_body mode (case powered of None \<Rightarrow> \<lambda>_. False | Some f \<Rightarrow> f)
                        (case finished of None \<Rightarrow> \<lambda>_. False | Some f \<Rightarrow> f))
               diagnostic_caught (\<lambda>e. t_modify (note_exception e)))
            (diagnostic_end mode))"

section \<open>Repeated status requests\<close>

record Attempt =
  at_number :: nat
  at_write_return :: "int option"
  at_flush_completed :: bool
  at_rx_start :: nat
  at_rx :: "bytes option"
  at_ack :: bool
  at_nak :: bool
  at_status :: "nat option"

record Repetition = Bench +
  rp_attempts :: "Attempt list"
  rp_success :: bool
  rp_port_opened :: bool
  rp_port_closed :: bool
  rp_exception :: "error option"
  rp_close_exception :: "error option"
  rp_stop_reason :: "string option"

definition new_repetition :: "rat \<Rightarrow> Repetition" where
  "new_repetition now = \<lparr>b_clock = now, b_created = False, b_open = False, b_written = [],
     b_capture = new_capture, rp_attempts = [], rp_success = False, rp_port_opened = False,
     rp_port_closed = True, rp_exception = None, rp_close_exception = None, rp_stop_reason = None\<rparr>"

definition update_attempt :: "(Attempt \<Rightarrow> Attempt) \<Rightarrow> Repetition \<Rightarrow> Repetition" where
  "update_attempt f r =
     (if rp_attempts r = [] then r
      else r\<lparr>rp_attempts := butlast (rp_attempts r) @ [f (last (rp_attempts r))]\<rparr>)"

definition begin_attempt :: "nat \<Rightarrow> Repetition \<Rightarrow> Repetition" where
  "begin_attempt number r =
     (let cap = b_capture r in
      r\<lparr>b_capture := (mark_boundary cap)\<lparr>cap_post_ack := False, cap_post_nak := False, cap_status := None\<rparr>,
        rp_attempts := rp_attempts r @
          [\<lparr>at_number = number, at_write_return = None, at_flush_completed = False,
            at_rx_start = length (cap_raw cap), at_rx = None, at_ack = False, at_nak = False,
            at_status = None\<rparr>]\<rparr>)"

definition end_attempt :: "Repetition \<Rightarrow> Repetition" where
  "end_attempt r =
     (let cap = b_capture r in
      (update_attempt (\<lambda>a. a\<lparr>at_rx := Some (drop (at_rx_start a) (cap_raw cap)), at_ack := cap_post_ack cap,
         at_nak := cap_post_nak cap, at_status := cap_status cap\<rparr>) r)
        \<lparr>rp_success := (cap_status cap \<noteq> None \<and> \<not> cap_post_nak cap)\<rparr>)"

definition response_seen :: "Repetition \<Rightarrow> bool" where
  "response_seen r \<longleftrightarrow>
     (let cap = b_capture r in
      rp_success r \<or> cap_post_ack cap \<or> cap_post_nak cap \<or>
      (\<exists>t \<in> set (cap_telegrams cap). det_valid t \<and>
         (case cap_boundary cap of None \<Rightarrow> False | Some b \<Rightarrow> b \<le> det_offset t)))"

definition repeat_attempt :: "nat \<Rightarrow> (Repetition, unit) prog" where
  "repeat_attempt number =
     t_seq (t_modify (begin_attempt number))
     (t_bind (port_write STATUS_REQUEST) (\<lambda>written.
      t_seq (t_modify (update_attempt (\<lambda>a. a\<lparr>at_write_return := Some written\<rparr>)))
      (t_seq (t_check (written = 7) (OSError ''Short write; stop repetition''))
      (t_seq flush_output
      (t_seq (t_modify (update_attempt (\<lambda>a. a\<lparr>at_flush_completed := True\<rparr>)))
      port_query)))))"

definition one_attempt :: "nat \<Rightarrow> (Repetition, unit) prog" where
  "one_attempt number =
     t_seq (repeat_attempt number)
     (t_bind (t_get b_clock) (\<lambda>start.
      t_seq (read_window Post_tx True (start + 5)) (t_modify end_attempt)))"

fun attempts_from :: "nat \<Rightarrow> nat \<Rightarrow> (Repetition, unit) prog" where
  "attempts_from number 0 =
     t_modify (\<lambda>r. r\<lparr>rp_stop_reason := Some ''Requested bounded attempts exhausted; no response observed''\<rparr>)"
| "attempts_from number (Suc left) =
     t_seq (one_attempt number)
     (t_bind (t_get response_seen) (\<lambda>seen.
      if seen
      then t_modify (\<lambda>r. r\<lparr>rp_stop_reason := Some ''Response observed; no further status request sent''\<rparr>)
      else attempts_from (number + 1) left))"

definition open_repetition :: "(Repetition, unit) prog" where
  "open_repetition =
     t_seq port_create
     (t_seq port_open
     (t_seq (t_modify (\<lambda>r. r\<lparr>rp_port_opened := True, rp_port_closed := False\<rparr>)) initial_state))"

definition repetition_body :: "nat \<Rightarrow> (Repetition, unit) prog" where
  "repetition_body attempts =
     t_seq open_repetition
     (t_bind (t_get b_clock) (\<lambda>now.
      t_seq (read_window Pre_tx True (now + 1 / 10)) (attempts_from 1 attempts)))"

definition repetition_end :: "(Repetition, unit) prog" where
  "repetition_end =
     t_seq (t_modify (\<lambda>r. update_attempt (\<lambda>a. if at_rx a = None
              then a\<lparr>at_rx := Some (drop (at_rx_start a) (cap_raw (b_capture r)))\<rparr> else a) r))
     (t_seq (t_bind (t_get b_created) (\<lambda>created.
        t_when created
          (t_seq (t_catch port_close is_OSError (\<lambda>e. t_modify (\<lambda>r. r\<lparr>rp_close_exception := Some e\<rparr>)))
            (t_modify (\<lambda>r. r\<lparr>rp_port_closed := \<not> b_open r\<rparr>)))))
       (t_modify (\<lambda>r. if rp_port_closed r then r else r\<lparr>rp_success := False\<rparr>)))"

text \<open>\<open>log_exists\<close>: the log file is there already.\<close>

definition run_status_repeat :: "int \<Rightarrow> bool \<Rightarrow> bool \<Rightarrow> (Repetition, unit) prog" where
  "run_status_repeat attempts confirmed log_exists =
     (if \<not> confirmed then t_raise (ValueError ''Repeated status requests require explicit operator confirmation'')
      else if \<not> (1 \<le> attempts \<and> attempts \<le> 10)
      then t_raise (ValueError ''Status repetition must be bounded to 1..10 attempts'')
      else if \<not> request_crc_ok STATUS_REQUEST
      then t_raise (ValueError ''Golden status-request CRC does not match'')
      else if log_exists then t_raise (OSError ''File exists'')
      else
        t_finally
          (t_catch (repetition_body (nat attempts)) diagnostic_caught
             (\<lambda>e. t_modify (\<lambda>r. r\<lparr>rp_exception := Some e,
                rp_stop_reason := Some ''Error/interruption; repetition stopped''\<rparr>)))
          repetition_end)"

end
