(* ===== verification/Diagnostic_Properties.thy ===== *)
theory Diagnostic_Properties
  imports Hardware_Diagnostic
begin

text \<open>
  Properties of the hardware diagnostic: what a run may send, what its success rests on, and
  the bounds of the repeated status requests.  Each stage of a run has its own assertion; the
  run is followed from one to the next with the triples of \<open>Capture_Properties\<close>.
\<close>

section \<open>What a run may send and what it may claim\<close>

text \<open>A request goes out only in a mode that has one, and in the direct test only when it is due.\<close>

definition may_be_sent :: "mode \<Rightarrow> (rat \<Rightarrow> bool) \<Rightarrow> (rat \<Rightarrow> bool) \<Rightarrow> rat \<Rightarrow> bool" where
  "may_be_sent mode powered finished now \<longleftrightarrow>
     mode \<noteq> Listen_startup \<and>
     (mode = Direct_test \<longrightarrow> (\<exists>t. powered t \<and> t + STARTUP_SECONDS \<le> now) \<and> (\<exists>t. finished t))"

text \<open>What a success rests on.\<close>

fun proof_of :: "mode \<Rightarrow> Diagnostic \<Rightarrow> bool" where
  "proof_of Listen_startup d \<longleftrightarrow> (\<exists>n. cap_startup (b_capture d) = Some n \<and> startup_entry (b_capture d) n)"
| "proof_of Loopback d \<longleftrightarrow> received_after (b_capture d) = LOOPBACK_PATTERN"
| "proof_of mode d \<longleftrightarrow>
     (\<exists>n. dg_status_response d = Some n \<and> status_entry (b_capture d) n) \<and>
     cap_post_ack (b_capture d) \<and> \<not> cap_post_nak (b_capture d)"

definition diag_ok :: "mode \<Rightarrow> (rat \<Rightarrow> bool) \<Rightarrow> (rat \<Rightarrow> bool) \<Rightarrow> Diagnostic \<Rightarrow> bool" where
  "diag_ok mode powered finished d \<longleftrightarrow>
     sound (mode \<noteq> Loopback) (b_capture d) \<and>
     (b_written d = [] \<or> b_written d = [request_of mode] \<and> may_be_sent mode powered finished (b_clock d)) \<and>
     (dg_success d \<longrightarrow> proof_of mode d)"

text \<open>The confirmations noted so far were given.\<close>

definition truly_confirmed :: "(rat \<Rightarrow> bool) \<Rightarrow> (rat \<Rightarrow> bool) \<Rightarrow> Diagnostic \<Rightarrow> bool" where
  "truly_confirmed powered finished d \<longleftrightarrow>
     (case dg_startup_deadline d of None \<Rightarrow> True | Some limit \<Rightarrow> powered (limit - STARTUP_SECONDS)) \<and>
     (dg_startup_complete d \<longrightarrow> (\<exists>t. finished t))"

definition silent_run :: "mode \<Rightarrow> (rat \<Rightarrow> bool) \<Rightarrow> (rat \<Rightarrow> bool) \<Rightarrow> Diagnostic \<Rightarrow> bool" where
  "silent_run mode powered finished d \<longleftrightarrow>
     sound (mode \<noteq> Loopback) (b_capture d) \<and> truly_confirmed powered finished d \<and>
     b_written d = [] \<and> \<not> dg_success d \<and> cap_boundary (b_capture d) = None"

definition waiting_run :: "mode \<Rightarrow> (rat \<Rightarrow> bool) \<Rightarrow> (rat \<Rightarrow> bool) \<Rightarrow> Diagnostic \<Rightarrow> bool" where
  "waiting_run mode powered finished d \<longleftrightarrow>
     sound (mode \<noteq> Loopback) (b_capture d) \<and> b_written d = [request_of mode] \<and>
     may_be_sent mode powered finished (b_clock d) \<and> \<not> dg_success d"

definition due_run :: "mode \<Rightarrow> (rat \<Rightarrow> bool) \<Rightarrow> (rat \<Rightarrow> bool) \<Rightarrow> Diagnostic \<Rightarrow> bool" where
  "due_run mode powered finished d \<longleftrightarrow>
     sound (mode \<noteq> Loopback) (b_capture d) \<and> b_written d = [] \<and>
     may_be_sent mode powered finished (b_clock d) \<and> \<not> dg_success d \<and> cap_boundary (b_capture d) = None"

definition ready_run :: "mode \<Rightarrow> (rat \<Rightarrow> bool) \<Rightarrow> (rat \<Rightarrow> bool) \<Rightarrow> Diagnostic \<Rightarrow> bool" where
  "ready_run mode powered finished d \<longleftrightarrow>
     sound (mode \<noteq> Loopback) (b_capture d) \<and> b_written d = [] \<and>
     may_be_sent mode powered finished (b_clock d) \<and> \<not> dg_success d"

lemmas run_defs = diag_ok_def silent_run_def waiting_run_def due_run_def ready_run_def truly_confirmed_def

lemma may_be_sent_later: "may_be_sent mode powered finished t \<Longrightarrow> t \<le> t' \<Longrightarrow> may_be_sent mode powered finished t'"
  unfolding may_be_sent_def using order_trans by blast

lemma proof_of_cong:
  "proof_of mode (d\<lparr>b_clock := t\<rparr>) = proof_of mode d" "proof_of mode (d\<lparr>b_created := c\<rparr>) = proof_of mode d"
  "proof_of mode (d\<lparr>b_open := c\<rparr>) = proof_of mode d" "proof_of mode (d\<lparr>dg_exception := x\<rparr>) = proof_of mode d"
  "proof_of mode (d\<lparr>dg_close_exception := x\<rparr>) = proof_of mode d" "proof_of mode (d\<lparr>dg_port_closed := c\<rparr>) = proof_of mode d"
  "proof_of mode (d\<lparr>dg_success := c\<rparr>) = proof_of mode d" "proof_of mode (d\<lparr>dg_timeout_reason := r\<rparr>) = proof_of mode d"
  "proof_of mode (d\<lparr>dg_flush_completed := b\<rparr>) = proof_of mode d" "proof_of mode (d\<lparr>dg_loopback_passed := b\<rparr>) = proof_of mode d"
  by (cases mode; simp)+

interpretation run_port: port_invariant "diag_ok mode powered finished" for mode powered finished
  by unfold_locales (auto simp: diag_ok_def proof_of_cong intro: may_be_sent_later)

interpretation silent_run: bench_invariant "silent_run mode powered finished" "mode \<noteq> Loopback" for mode powered finished
  by unfold_locales (auto simp: silent_run_def truly_confirmed_def dest: sound_step)

interpretation waiting_run: bench_invariant "waiting_run mode powered finished" "mode \<noteq> Loopback" for mode powered finished
  by unfold_locales (auto simp: waiting_run_def dest: sound_step intro: may_be_sent_later)

interpretation due_run: bench_invariant "due_run mode powered finished" "mode \<noteq> Loopback" for mode powered finished
  by unfold_locales (auto simp: due_run_def dest: sound_step intro: may_be_sent_later)

lemma runs_ok:
  "silent_run mode powered finished d \<Longrightarrow> diag_ok mode powered finished d"
  "waiting_run mode powered finished d \<Longrightarrow> diag_ok mode powered finished d"
  "due_run mode powered finished d \<Longrightarrow> diag_ok mode powered finished d"
  by (simp_all add: run_defs)

subsection \<open>Passive capture\<close>

text \<open>Leaving without a reason means that the direct test is due.\<close>

definition is_due :: "mode \<Rightarrow> Diagnostic \<Rightarrow> bool" where
  "is_due mode d \<longleftrightarrow>
     (mode = Direct_test \<and> dg_timeout_reason d = None \<longrightarrow>
        dg_startup_complete d \<and> (\<exists>limit. dg_startup_deadline d = Some limit \<and> limit \<le> b_clock d))"

lemma confirm_power_ok:
  "silent_run mode powered finished d \<Longrightarrow> powered now \<Longrightarrow> silent_run mode powered finished (confirm_power now d)"
  by (simp add: confirm_power_def silent_run_def truly_confirmed_def)

lemma give_up_ok: "silent_run mode powered finished d \<Longrightarrow> silent_run mode powered finished (give_up r d)"
  "is_due mode (give_up r d)"
  by (simp_all add: give_up_def silent_run_def truly_confirmed_def is_due_def)

lemma passive_direct_ok:
  assumes "silent_run mode powered finished d" "dg_startup_deadline d = Some limit" "now = b_clock d"
  shows "case passive_direct finished limit now d of
    (d', leave) \<Rightarrow> silent_run mode powered finished d' \<and> (leave \<longrightarrow> is_due mode d')"
proof -
  define e where "e = (if \<not> dg_startup_complete d \<and> finished now then d\<lparr>dg_startup_complete := True\<rparr> else d)"
  have "silent_run mode powered finished e" using assms(1) by (auto simp: e_def silent_run_def truly_confirmed_def)
  moreover have "is_due mode e" if "limit \<le> now" "dg_startup_complete e"
    using that assms(2,3) by (auto simp: e_def is_due_def split: if_splits)
  ultimately show ?thesis
    unfolding passive_direct_def Let_def e_def [symmetric] by (simp add: give_up_ok split: option.split)
qed

lemma passive_decide_ok:
  assumes "passive_decide mode powered finished ready d = (d', leave)" "silent_run mode powered finished d"
  shows "silent_run mode powered finished d' \<and> (leave \<longrightarrow> is_due mode d')"
proof -
  let ?d = "if dg_startup_deadline d = None \<and> powered (b_clock d) then confirm_power (b_clock d) d else d"
  have d: "silent_run mode powered finished ?d" "b_clock ?d = b_clock d"
    using assms(2) confirm_power_ok by (auto simp: confirm_power_def)
  show ?thesis
  proof (cases "dg_startup_deadline ?d")
    case None
    then show ?thesis
      using assms(1) d by (auto simp: passive_decide_def Let_def give_up_ok split: if_splits)
  next
    case (Some limit)
    then show ?thesis
      using assms(1) d give_up_ok passive_direct_ok [OF d(1) Some d(2) [symmetric]]
      unfolding passive_decide_def Let_def Some by (auto split: if_splits)
  qed
qed

lemma passive_round_ok:
  assumes "mode \<noteq> Loopback"
  shows "t_ends (silent_run mode powered finished) (passive_round mode powered finished ready) (diag_ok mode powered finished)"
    "t_gives (silent_run mode powered finished) (passive_round mode powered finished ready)
       (\<lambda>r d. case r of None \<Rightarrow> silent_run mode powered finished d
          | Some _ \<Rightarrow> mode = Listen_startup \<or> silent_run mode powered finished d \<and> is_due mode d)"
proof -
  let ?read = "t_seq (capture_read Passive True)
          (t_bind (t_get (\<lambda>d. mode = Listen_startup \<and> cap_startup (b_capture d) \<noteq> None)) (\<lambda>found.
           if found then t_seq (t_modify (\<lambda>d. d\<lparr>dg_success := True\<rparr>)) (t_ret (Some ()))
           else t_ret None))"
  have read: "t_keeps (silent_run mode powered finished) (capture_read Passive True)"
    using silent_run.keeps_capture_read [of mode powered finished] assms by simp
  have started: "diag_ok Listen_startup powered finished (d\<lparr>dg_success := True\<rparr>)"
    if "silent_run Listen_startup powered finished d" "cap_startup (b_capture d) = Some n" for d n
    using that sound_entries(1) by (auto simp: run_defs)
  have look: "t_ends (silent_run mode powered finished) ?read (diag_ok mode powered finished)"
    by (rule t_ends_seq [OF t_ends_weaken [OF read] t_gives_ends [OF read]])
      (auto simp: t_ends_def runs_ok started)
  have seen: "t_gives (silent_run mode powered finished) ?read
      (\<lambda>r d. if r = None then silent_run mode powered finished d else mode = Listen_startup)"
    unfolding t_seq_def
    by (rule t_gives_bind [OF t_gives_ends [OF read]]) (auto simp: t_gives_def split: if_splits)
  show "t_ends (silent_run mode powered finished) (passive_round mode powered finished ready) (diag_ok mode powered finished)"
    using look by (auto simp: t_ends_def passive_round_def runs_ok dest!: passive_decide_ok split: prod.splits)
  show "t_gives (silent_run mode powered finished) (passive_round mode powered finished ready)
       (\<lambda>r d. case r of None \<Rightarrow> silent_run mode powered finished d
          | Some _ \<Rightarrow> mode = Listen_startup \<or> silent_run mode powered finished d \<and> is_due mode d)"
  proof (rule t_givesI)
    fix s ws r s' ws'
    assume s: "silent_run mode powered finished s" and run: "passive_round mode powered finished ready s ws = (Value r, s', ws')"
    obtain d leave where d: "passive_decide mode powered finished ready s = (d, leave)" by fastforce
    show "case r of None \<Rightarrow> silent_run mode powered finished s'
        | Some _ \<Rightarrow> mode = Listen_startup \<or> silent_run mode powered finished s' \<and> is_due mode s'"
    proof (cases leave)
      case True
      then show ?thesis using run d passive_decide_ok [OF d s] by (auto simp: passive_round_def)
    next
      case False
      then have "?read d ws = (Value r, s', ws')" using run d by (simp add: passive_round_def)
      from t_givesD [OF seen _ this] passive_decide_ok [OF d s] show ?thesis by (auto split: if_splits option.splits)
    qed
  qed
qed


lemma passive_capture_ok:
  assumes "mode \<noteq> Loopback"
  shows "t_ends (silent_run mode powered finished) (passive_capture mode powered finished) (diag_ok mode powered finished)"
    "t_gives (silent_run mode powered finished) (passive_capture mode powered finished)
       (\<lambda>_ d. mode = Listen_startup \<or> silent_run mode powered finished d \<and> is_due mode d)"
proof -
  note round = passive_round_ok [OF assms, of powered finished]
  have "t_ends (silent_run mode powered finished) (t_loop (passive_round mode powered finished ready)) (diag_ok mode powered finished)" for ready
    by (rule t_ends_loop [OF round(1) t_gives_weaken [OF round(2)]]) auto
  then show "t_ends (silent_run mode powered finished) (passive_capture mode powered finished) (diag_ok mode powered finished)"
    by (simp add: t_ends_def passive_capture_def)
  show "t_gives (silent_run mode powered finished) (passive_capture mode powered finished)
       (\<lambda>_ d. mode = Listen_startup \<or> silent_run mode powered finished d \<and> is_due mode d)"
    using t_gives_loop [OF round(2)] by (auto simp: t_gives_def passive_capture_def)
qed

subsection \<open>The request and the answer\<close>

lemma send_request_ok: "t_ends (ready_run mode powered finished) (send_request (request_of mode)) (waiting_run mode powered finished)"
proof -
  let ?W = "waiting_run mode powered finished"
  have kept: "?W d \<Longrightarrow> ?W (d\<lparr>dg_write_return := x, dg_tx_bytes := y\<rparr>)" "?W d \<Longrightarrow> ?W (d\<lparr>dg_flush_attempted := z\<rparr>)"
    "?W d \<Longrightarrow> ?W (d\<lparr>dg_flush_completed := u\<rparr>)" for d x y z u
    by (simp_all add: waiting_run_def)
  have "t_keeps ?W (t_bind next_wire (\<lambda>w. t_seq (raise_if (w_error w)) (t_ret (w_count w))))"
    by (intro t_intros waiting_run.keeps_next)
  then have send: "t_ends (ready_run mode powered finished) (port_write (request_of mode)) ?W"
    by (auto simp: port_write_def t_ends_def ready_run_def waiting_run_def)
  have "t_ends (ready_run mode powered finished) (t_bind (port_write (request_of mode)) (\<lambda>written.
      t_seq (t_modify (\<lambda>d. d\<lparr>dg_write_return := Some written, dg_tx_bytes := Some written\<rparr>))
      (t_seq (t_check (written = int (length (request_of mode))) (OSError ''Short write; no retry''))
      (t_seq (t_modify (\<lambda>d. d\<lparr>dg_flush_attempted := True\<rparr>))
      (t_seq flush_output
      (t_seq (t_modify (\<lambda>d. d\<lparr>dg_flush_completed := Some True\<rparr>)) port_query)))))) ?W"
    by (rule t_ends_bind [OF send t_gives_ends [OF send]]) (intro t_intros waiting_run.bench_steps kept)
  then show ?thesis by (auto simp: send_request_def t_ends_def ready_run_def)
qed

lemma judge_read_ok:
  assumes "waiting_run mode powered finished d" "judge_read mode (request_of mode) d = (d', leave)"
  shows "diag_ok mode powered finished d' \<and> (\<not> leave \<longrightarrow> waiting_run mode powered finished d')"
proof -
  have "status_entry (b_capture d) n \<and> cap_post_ack (b_capture d)" if "cap_status (b_capture d) = Some n" for n
    using assms(1) that sound_entries(2) by (auto simp: waiting_run_def)
  with assms show ?thesis
    by (auto simp: judge_read_def Let_def run_defs give_up_def split: if_splits)
qed

lemma judge_end_ok:
  assumes "waiting_run mode powered finished d"
  shows "diag_ok mode powered finished (judge_end mode (request_of mode) d)"
proof -
  have "status_entry (b_capture d) n \<and> cap_post_ack (b_capture d)" if "cap_status (b_capture d) = Some n" for n
    using assms that sound_entries(2) by (auto simp: waiting_run_def)
  with assms show ?thesis
    by (cases mode) (auto simp: judge_end_def Let_def run_defs give_up_def request_of_def)
qed

lemma answer_round_ok:
  "t_ends (waiting_run mode powered finished) (answer_round mode (request_of mode) deadline) (diag_ok mode powered finished)"
  "t_gives (waiting_run mode powered finished) (answer_round mode (request_of mode) deadline)
     (\<lambda>r d. r = None \<longrightarrow> waiting_run mode powered finished d)"
proof -
  let ?judge = "t_bind (t_get (judge_read mode (request_of mode))) (\<lambda>(d, leave).
        t_seq (t_modify (\<lambda>_. d)) (t_ret (if leave then Some () else None)))"
  let ?read = "t_seq (capture_read Post_tx (mode \<noteq> Loopback)) ?judge"
  have judge: "t_ends (waiting_run mode powered finished) ?judge (diag_ok mode powered finished)"
    "t_gives (waiting_run mode powered finished) ?judge (\<lambda>r d. r = None \<longrightarrow> waiting_run mode powered finished d)"
    using judge_read_ok by (fastforce simp: t_ends_def t_gives_def split: prod.splits)+
  have read: "t_keeps (waiting_run mode powered finished) (capture_read Post_tx (mode \<noteq> Loopback))"
    by (rule waiting_run.keeps_capture_read)
  have "t_ends (waiting_run mode powered finished) ?read (diag_ok mode powered finished)"
    by (rule t_ends_seq [OF t_ends_weaken [OF read] t_gives_ends [OF read] judge(1)]) (auto intro: runs_ok)
  moreover have "t_gives (waiting_run mode powered finished) ?read (\<lambda>r d. r = None \<longrightarrow> waiting_run mode powered finished d)"
    unfolding t_seq_def [of "capture_read _ _"] by (rule t_gives_bind [OF t_gives_ends [OF read] judge(2)])
  ultimately show
    "t_ends (waiting_run mode powered finished) (answer_round mode (request_of mode) deadline) (diag_ok mode powered finished)"
    "t_gives (waiting_run mode powered finished) (answer_round mode (request_of mode) deadline)
       (\<lambda>r d. r = None \<longrightarrow> waiting_run mode powered finished d)"
    using judge_end_ok by (auto simp: answer_round_def t_ends_def t_gives_def)
qed

lemma active_test_ok: "t_ends (due_run mode powered finished) (active_test mode) (diag_ok mode powered finished)"
proof -
  let ?D = "due_run mode powered finished" and ?R = "ready_run mode powered finished"
    and ?W = "waiting_run mode powered finished" and ?J = "diag_ok mode powered finished"
  have listen: "t_ends ?W (t_loop (answer_round mode (request_of mode) deadline)) ?J" for deadline
    using answer_round_ok by (rule t_ends_loop)
  have "t_ends ?W (t_bind (t_get b_clock) (\<lambda>start.
      t_loop (answer_round mode (request_of mode)
        (start + (if mode = Direct_test then DIRECT_STATUS_SECONDS else STATUS_SECONDS))))) ?J" (is "t_ends _ ?listen _")
    using listen by (simp add: t_ends_def)
  then have send: "t_ends ?R (t_seq (send_request (request_of mode)) ?listen) ?J"
    by (intro t_ends_seq [OF _ t_gives_ends [OF send_request_ok]] t_ends_weaken [OF send_request_ok]) (auto intro: runs_ok)
  have mark: "t_ends ?D (t_seq (on_capture mark_boundary) (t_seq (send_request (request_of mode)) ?listen)) ?J"
    using send sound_mark by (auto simp: t_ends_def on_capture_def due_run_def ready_run_def)
  have "t_ends ?D (t_seq (read_window Pre_tx (mode \<noteq> Loopback) (now + 1 / 10))
      (t_seq (on_capture mark_boundary) (t_seq (send_request (request_of mode)) ?listen))) ?J" for now
    by (rule t_ends_seq [OF _ t_gives_ends [OF due_run.keeps_window] mark])
      (rule t_ends_weaken [OF due_run.keeps_window], auto intro: runs_ok)
  then show ?thesis by (simp add: active_test_def t_ends_def)
qed

subsection \<open>The run\<close>

lemma diagnostic_body_ok:
  "t_ends (silent_run mode powered finished) (diagnostic_body mode powered finished) (diag_ok mode powered finished)"
proof -
  let ?S = "silent_run mode powered finished" and ?J = "diag_ok mode powered finished"
  let ?K = "\<lambda>d. ?J d \<and> (mode = Listen_startup \<or> ?S d \<and> is_due mode d)"
  let ?send = "t_bind (t_get (may_send mode)) (\<lambda>send. t_when send (active_test mode))"
  have "due_run mode powered finished d" if "?K d" "may_send mode d" for d
    using that by (auto simp: may_send_def run_defs is_due_def may_be_sent_def)
  then have send: "t_ends ?K ?send ?J"
    using active_test_ok by (auto simp: t_ends_def t_when_def)
  have "t_gives ?S (t_when (mode \<in> {Listen_startup, Direct_test}) (passive_capture mode powered finished)) (\<lambda>_. ?K)"
    using passive_capture_ok [of mode powered finished] runs_ok(1)
    by (auto simp: t_when_def t_gives_def is_due_def dest: t_endsD)
  moreover have "t_ends ?S (t_when (mode \<in> {Listen_startup, Direct_test}) (passive_capture mode powered finished)) ?J"
    using passive_capture_ok(1) [of mode powered finished] runs_ok(1) by (auto simp: t_when_def t_ends_def)
  ultimately have capture: "t_ends ?S (t_seq (t_when (mode \<in> {Listen_startup, Direct_test})
      (passive_capture mode powered finished)) ?send) ?J"
    using send by (blast intro: t_ends_seq)
  have opened: "t_keeps ?S open_port"
    unfolding open_port_def
    by (intro t_intros silent_run.bench_steps) (simp add: silent_run_def truly_confirmed_def)
  show ?thesis
    unfolding diagnostic_body_def
    by (rule t_ends_seq [OF t_ends_weaken [OF opened] t_gives_ends [OF opened] capture]) (auto intro: runs_ok)
qed

lemma diagnostic_end_ok: "t_keeps (diag_ok mode powered finished) (diagnostic_end mode)"
  unfolding diagnostic_end_def close_port_def
  by (intro t_intros run_port.keeps_port) (auto simp: settle_def Let_def diag_ok_def proof_of_cong)

lemma run_diagnostic_ok:
  assumes "diagnostic_guard name lc (powered \<noteq> None) dc (finished \<noteq> None) = Inr mode"
  shows "t_ends (silent_run mode (case powered of None \<Rightarrow> \<lambda>_. False | Some f \<Rightarrow> f) (case finished of None \<Rightarrow> \<lambda>_. False | Some f \<Rightarrow> f))
    (run_diagnostic name powered lc dc finished)
    (diag_ok mode (case powered of None \<Rightarrow> \<lambda>_. False | Some f \<Rightarrow> f) (case finished of None \<Rightarrow> \<lambda>_. False | Some f \<Rightarrow> f))"
  unfolding run_diagnostic_def assms sum.case
  by (intro t_ends_finally t_ends_catch diagnostic_body_ok diagnostic_end_ok t_intros)
    (simp add: note_exception_def give_up_def Let_def diag_ok_def proof_of_cong)

lemma diagnostic_end_gives:
  "t_gives P (diagnostic_end mode) (\<lambda>_ d. dg_success d \<longrightarrow> dg_port_closed d)"
proof -
  have "dg_success d' \<Longrightarrow> dg_port_closed d'" if "d' = (if dg_port_closed d then d else d\<lparr>dg_success := False\<rparr>)" for d d'
    using that by (cases "dg_port_closed d") simp_all
  then show ?thesis by (intro t_givesI) (auto simp: diagnostic_end_def t_seq_def t_bind_cases)
qed

lemma silent_new: "silent_run mode powered finished (new_diagnostic now)"
  by (simp add: silent_run_def truly_confirmed_def new_diagnostic_def sound_new) (simp add: new_capture_def)

lemma diagnostic_guard_InrD:
  assumes "diagnostic_guard name lc hp dc hc = Inr mode"
  shows "diagnostic_mode name = Some mode" "mode = Loopback \<Longrightarrow> lc" "mode = Direct_test \<Longrightarrow> dc"
  using assms by (auto simp: diagnostic_guard_def split: option.splits if_splits)

lemma run_diagnostic_refused:
  "diagnostic_guard name lc (powered \<noteq> None) dc (finished \<noteq> None) = Inl e \<Longrightarrow>
   run_diagnostic name powered lc dc finished d ws = (Exn e, d, ws)"
  by (simp add: run_diagnostic_def)

section \<open>Properties of a diagnostic run\<close>

lemma diagnostic_sent:
  assumes "run_diagnostic name powered loopback_confirmed direct_confirmed finished (new_diagnostic now) ws =
      (out, d, ws')"
  shows "b_written d = [] \<or>
    (\<exists>mode. diagnostic_mode name = Some mode \<and> b_written d = [request_of mode] \<and> mode \<noteq> Listen_startup \<and>
       (mode = Loopback \<longrightarrow> loopback_confirmed) \<and>
       (mode = Direct_test \<longrightarrow> direct_confirmed \<and>
          (\<exists>confirmation t. powered = Some confirmation \<and> confirmation t \<and> t + 65 \<le> b_clock d) \<and>
          (\<exists>confirmation t. finished = Some confirmation \<and> confirmation t)))"
proof (cases "diagnostic_guard name loopback_confirmed (powered \<noteq> None) direct_confirmed (finished \<noteq> None)")
  case (Inl e)
  then show ?thesis using assms run_diagnostic_refused [OF Inl] by (auto simp: new_diagnostic_def)
next
  case (Inr mode)
  note guard = diagnostic_guard_InrD [OF Inr]
  from t_endsD [OF run_diagnostic_ok [OF Inr] silent_new assms]
  have "b_written d = [] \<or> b_written d = [request_of mode] \<and>
      may_be_sent mode (case powered of None \<Rightarrow> \<lambda>_. False | Some f \<Rightarrow> f)
        (case finished of None \<Rightarrow> \<lambda>_. False | Some f \<Rightarrow> f) (b_clock d)"
    by (simp add: diag_ok_def)
  then show ?thesis
    using guard by (auto simp: may_be_sent_def STARTUP_SECONDS_def split: option.splits)
qed

text \<open>
  C17: a diagnostic run sends at most one telegram.  Whatever the port does and wherever the run
  stops, it has written nothing, or once the request of its mode: the status request, or the
  loopback pattern.  Listening to a startup never writes.  The loopback pattern is sent only
  with the confirmation that the adapter is isolated; the request of the direct test only with
  the confirmation of the connection, 65 seconds or more after the operator has confirmed that
  power is back, and after the confirmation that the startup is complete.
\<close>

theorem diagnostic_sends_at_most_one:
  assumes "run_diagnostic name powered loopback_confirmed direct_confirmed finished (new_diagnostic now) ws =
      (out, d, ws')"
  shows "b_written d = [] \<or>
    (\<exists>mode. diagnostic_mode name = Some mode \<and> b_written d = [request_of mode] \<and> mode \<noteq> Listen_startup \<and>
       (mode = Loopback \<longrightarrow> loopback_confirmed) \<and>
       (mode = Direct_test \<longrightarrow> direct_confirmed \<and>
          (\<exists>confirmation t. powered = Some confirmation \<and> confirmation t \<and> t + 65 \<le> b_clock d) \<and>
          (\<exists>confirmation t. finished = Some confirmation \<and> confirmation t)))"
  using assms by (rule diagnostic_sent)


lemma status_request_crc: "request_crc_ok STATUS_REQUEST"
  by (simp add: request_crc_ok_def STATUS_REQUEST_def crc16_def crc16_step_def)

definition loopback_wires :: "wire list" where
  "loopback_wires =
     [fine_wire 1, fine_wire 1, fine_wire 1, fine_wire 1, fine_wire 1, fine_wire 1, fine_wire 1,
      fine_wire 2, (fine_wire 2)\<lparr>w_count := 15\<rparr>, fine_wire 2, fine_wire 2,
      (fine_wire 3)\<lparr>w_data := LOOPBACK_PATTERN\<rparr>, fine_wire 5, fine_wire 6]"

lemma loopback_run:
  "\<exists>d. run_diagnostic ''loopback'' None True False None (new_diagnostic 0) loopback_wires = (Value (), d, []) \<and>
     dg_success d \<and> b_written d \<noteq> []"
  by (simp add: run_diagnostic_def diagnostic_guard_def diagnostic_mode_def status_request_crc
      diagnostic_body_def open_port_def active_test_def send_request_def answer_round_def judge_read_def
      judge_end_def received_after_def diagnostic_end_def close_port_def settle_def may_send_def on_capture_def
      mark_boundary_def request_of_def LOOPBACK_PATTERN_def STATUS_SECONDS_def
      loopback_wires_def fine_wire_def new_diagnostic_def new_capture_def tool_steps Let_def isprefix_def)

theorem diagnostic_sends_at_most_one_witness:
  "\<exists>d. run_diagnostic ''loopback'' None True False None (new_diagnostic 0) loopback_wires = (Value (), d, []) \<and>
     b_written d = [LOOPBACK_PATTERN]"
proof -
  obtain d where d: "run_diagnostic ''loopback'' None True False None (new_diagnostic 0) loopback_wires = (Value (), d, [])"
    "b_written d \<noteq> []" using loopback_run by blast
  from diagnostic_sends_at_most_one [OF d(1)] d show ?thesis by (auto simp: diagnostic_mode_def request_of_def)
qed


section \<open>Repeated requests\<close>

text \<open>
  As many requests were written as attempts are noted, numbered from one, and nothing else
  was; no attempt but the last saw an answer.
\<close>

definition quiet :: "Attempt \<Rightarrow> bool" where
  "quiet a \<longleftrightarrow> \<not> at_ack a \<and> \<not> at_nak a \<and> at_status a = None"

definition rep_ok :: "nat \<Rightarrow> Repetition \<Rightarrow> bool" where
  "rep_ok n r \<longleftrightarrow>
     sound True (b_capture r) \<and> b_written r = replicate n STATUS_REQUEST \<and>
     map at_number (rp_attempts r) = [1..<Suc n] \<and> list_all quiet (butlast (rp_attempts r)) \<and>
     (rp_success r \<longrightarrow> cap_status (b_capture r) \<noteq> None \<and> \<not> cap_post_nak (b_capture r))"

definition rep_hunting :: "nat \<Rightarrow> Repetition \<Rightarrow> bool" where
  "rep_hunting n r \<longleftrightarrow> rep_ok n r \<and> list_all quiet (rp_attempts r) \<and> \<not> rp_success r"

definition rep_any :: "nat \<Rightarrow> Repetition \<Rightarrow> bool" where
  "rep_any limit r \<longleftrightarrow> (\<exists>n \<le> limit. rep_ok n r)"

interpretation rep_hunt: bench_invariant "rep_hunting n" True for n
  by unfold_locales (auto simp: rep_hunting_def rep_ok_def dest: sound_step)

interpretation rep_port: port_invariant "rep_any limit" for limit
  by unfold_locales (auto simp: rep_any_def rep_ok_def)

lemma sound_fresh:
  "sound framed cap \<Longrightarrow> sound framed ((mark_boundary cap)\<lparr>cap_post_ack := a, cap_post_nak := b, cap_status := None\<rparr>)"
  by (auto simp: sound_def evidence_def mark_boundary_def startup_entry_def split: option.splits)

lemma update_attempt_sel [simp]:
  "b_capture (update_attempt f r) = b_capture r" "b_written (update_attempt f r) = b_written r"
  "rp_success (update_attempt f r) = rp_success r" "butlast (rp_attempts (update_attempt f r)) = butlast (rp_attempts r)"
  by (simp_all add: update_attempt_def)

lemma update_attempt_numbers:
  "(\<And>a. at_number (f a) = at_number a) \<Longrightarrow>
   map at_number (rp_attempts (update_attempt f r)) = map at_number (rp_attempts r)"
  by (cases "rp_attempts r" rule: rev_cases) (simp_all add: update_attempt_def)

lemma update_attempt_quiet:
  "(\<And>a. quiet a \<Longrightarrow> quiet (f a)) \<Longrightarrow> list_all quiet (rp_attempts r) \<Longrightarrow> list_all quiet (rp_attempts (update_attempt f r))"
  by (cases "rp_attempts r" rule: rev_cases) (simp_all add: update_attempt_def)

lemma update_attempt_ok:
  assumes "\<And>a. at_number (f a) = at_number a"
  shows "rep_ok n r \<Longrightarrow> rep_ok n (update_attempt f r)"
    "(\<And>a. quiet a \<Longrightarrow> quiet (f a)) \<Longrightarrow> rep_hunting n r \<Longrightarrow> rep_hunting n (update_attempt f r)"
  using update_attempt_quiet [of f] by (simp_all add: rep_ok_def rep_hunting_def update_attempt_numbers [OF assms])

lemma begin_attempt_ok:
  assumes "rep_hunting n r"
  shows "rep_hunting (Suc n) ((begin_attempt (Suc n) r)\<lparr>b_written := b_written r @ [STATUS_REQUEST]\<rparr>)"
  using assms sound_fresh
  by (simp add: rep_hunting_def rep_ok_def begin_attempt_def Let_def quiet_def replicate_append_same
      list_all_iff in_set_butlastD)

text \<open>After an attempt, its note tells what the capture has seen since the request.\<close>

definition told :: "Repetition \<Rightarrow> bool" where
  "told r \<longleftrightarrow> (let cap = b_capture r; a = last (rp_attempts r) in
     at_ack a = cap_post_ack cap \<and> at_nak a = cap_post_nak cap \<and> at_status a = cap_status cap)"

lemma end_attempt_ok: "rep_hunting (Suc n) r \<Longrightarrow> rep_ok (Suc n) (end_attempt r) \<and> told (end_attempt r)"
  by (cases "rp_attempts r" rule: rev_cases)
    (auto simp: rep_hunting_def rep_ok_def end_attempt_def told_def Let_def update_attempt_def)

lemma not_seen: "rep_ok (Suc n) r \<Longrightarrow> told r \<Longrightarrow> \<not> response_seen r \<Longrightarrow> rep_hunting (Suc n) r"
  using sound_entries(2) [of True "b_capture r"]
  by (cases "rp_attempts r" rule: rev_cases; cases "cap_status (b_capture r)")
    (auto simp: rep_hunting_def rep_ok_def told_def Let_def response_seen_def quiet_def)

lemma repeat_attempt_ok: "t_ends (rep_hunting n) (repeat_attempt (Suc n)) (rep_hunting (Suc n))"
proof -
  let ?H = "rep_hunting (Suc n)"
  have b: "b_written (begin_attempt m r) = b_written r" for m r by (simp add: begin_attempt_def Let_def)
  let ?started = "\<lambda>r. ?H (r\<lparr>b_written := b_written r @ [STATUS_REQUEST]\<rparr>)"
  have "t_keeps ?H (t_bind next_wire (\<lambda>w. t_seq (raise_if (w_error w)) (t_ret (w_count w))))"
    by (intro t_intros rep_hunt.keeps_next)
  then have send: "t_ends ?started (port_write STATUS_REQUEST) ?H"
    by (auto simp: port_write_def t_ends_def)
  have "t_ends ?started (t_bind (port_write STATUS_REQUEST) (\<lambda>written.
      t_seq (t_modify (update_attempt (\<lambda>a. a\<lparr>at_write_return := Some written\<rparr>)))
      (t_seq (t_check (written = 7) (OSError ''Short write; stop repetition''))
      (t_seq flush_output
      (t_seq (t_modify (update_attempt (\<lambda>a. a\<lparr>at_flush_completed := True\<rparr>)))
      port_query))))) ?H"
    by (rule t_ends_bind [OF send t_gives_ends [OF send]])
      (intro t_intros rep_hunt.bench_steps update_attempt_ok, auto simp: quiet_def)
  then show ?thesis using begin_attempt_ok by (simp add: repeat_attempt_def t_ends_def b)
qed

lemma one_attempt_ok:
  "t_ends (rep_hunting n) (one_attempt (Suc n)) (\<lambda>r. rep_hunting n r \<or> rep_ok (Suc n) r)"
  "t_gives (rep_hunting n) (one_attempt (Suc n)) (\<lambda>_ r. rep_ok (Suc n) r \<and> told r)"
proof -
  let ?H = "rep_hunting (Suc n)"
  let ?listen = "t_bind (t_get b_clock) (\<lambda>start. t_seq (read_window Post_tx True (start + 5)) (t_modify end_attempt))"
  have w: "t_keeps ?H (read_window Post_tx True deadline)" for deadline by (rule rep_hunt.keeps_window)
  have H: "?H r \<Longrightarrow> rep_ok (Suc n) r" for r by (simp add: rep_hunting_def)
  have "t_ends ?H (t_seq (read_window Post_tx True deadline) (t_modify end_attempt)) (rep_ok (Suc n))" for deadline
    by (rule t_ends_seq [OF t_ends_weaken [OF w] t_gives_ends [OF w]])
      (auto simp: t_ends_def H dest: end_attempt_ok)
  then have "t_ends ?H ?listen (rep_ok (Suc n))" by (simp add: t_ends_def)
  moreover have "t_gives ?H (t_seq (read_window Post_tx True deadline) (t_modify end_attempt))
      (\<lambda>_ r. rep_ok (Suc n) r \<and> told r)" for deadline
    unfolding t_seq_def
    by (rule t_gives_bind [OF t_gives_ends [OF w]]) (auto simp: t_gives_def dest: end_attempt_ok)
  then have g: "t_gives ?H ?listen (\<lambda>_ r. rep_ok (Suc n) r \<and> told r)" by (simp add: t_gives_def)
  ultimately have "t_ends (rep_hunting n) (one_attempt (Suc n)) (rep_ok (Suc n))"
    unfolding one_attempt_def
    by (intro t_ends_seq [OF t_ends_weaken [OF repeat_attempt_ok] t_gives_ends [OF repeat_attempt_ok]]) (auto intro: H)
  then show "t_ends (rep_hunting n) (one_attempt (Suc n)) (\<lambda>r. rep_hunting n r \<or> rep_ok (Suc n) r)"
    by (rule t_ends_weaken) auto
  show "t_gives (rep_hunting n) (one_attempt (Suc n)) (\<lambda>_ r. rep_ok (Suc n) r \<and> told r)"
    unfolding one_attempt_def t_seq_def [of "repeat_attempt _"]
    by (rule t_gives_bind [OF t_gives_ends [OF repeat_attempt_ok] g])
qed

lemma attempts_from_ok:
  "n + left \<le> limit \<Longrightarrow> t_ends (rep_hunting n) (attempts_from (Suc n) left) (rep_any limit)"
proof (induction left arbitrary: n)
  case 0
  then show ?case by (auto simp: t_ends_def rep_hunting_def rep_any_def rep_ok_def)
next
  case (Suc left)
  let ?K = "\<lambda>r. rep_ok (Suc n) r \<and> told r"
  have any: "rep_ok (Suc n) r \<Longrightarrow> rep_any limit r" "rep_ok n r \<Longrightarrow> rep_any limit r" for r
    using Suc.prems unfolding rep_any_def by (auto intro: exI [of _ "Suc n"] exI [of _ n])
  have stop: "rep_any limit (r\<lparr>rp_stop_reason := x\<rparr>) = rep_any limit r" for r x
    by (simp add: rep_any_def rep_ok_def)
  have "t_ends (rep_hunting (Suc n)) (attempts_from (Suc (Suc n)) left) (rep_any limit)"
    by (rule Suc.IH) (use Suc.prems in simp)
  then have "t_ends ?K (t_bind (t_get response_seen) (\<lambda>seen.
      if seen
      then t_modify (\<lambda>r. r\<lparr>rp_stop_reason := Some ''Response observed; no further status request sent''\<rparr>)
      else attempts_from (Suc n + 1) left)) (rep_any limit)"
    using not_seen any by (simp add: t_ends_def stop)
  then show ?case
    unfolding attempts_from.simps
    by (intro t_ends_seq [OF t_ends_weaken [OF one_attempt_ok(1)] one_attempt_ok(2)])
      (auto intro: any simp: rep_hunting_def)
qed

lemma rep_any_start: "rep_hunting 0 r \<Longrightarrow> rep_any limit r"
  unfolding rep_any_def rep_hunting_def by (rule exI [of _ 0]) simp

lemma repetition_body_ok: "t_ends (rep_hunting 0) (repetition_body n) (rep_any n)"
proof -
  have opened: "t_keeps (rep_hunting 0) open_repetition"
    unfolding open_repetition_def
    by (intro t_intros rep_hunt.bench_steps) (simp add: rep_hunting_def rep_ok_def)
  have w: "t_keeps (rep_hunting 0) (read_window Pre_tx True deadline)" for deadline by (rule rep_hunt.keeps_window)
  have "t_ends (rep_hunting 0) (t_seq (read_window Pre_tx True deadline) (attempts_from (Suc 0) n)) (rep_any n)" for deadline
    by (rule t_ends_seq [OF t_ends_weaken [OF w] t_gives_ends [OF w] attempts_from_ok]) (auto intro: rep_any_start)
  then have "t_ends (rep_hunting 0) (t_bind (t_get b_clock) (\<lambda>now.
      t_seq (read_window Pre_tx True (now + 1 / 10)) (attempts_from 1 n))) (rep_any n)"
    by (simp add: t_ends_def)
  then show ?thesis
    unfolding repetition_body_def
    by (intro t_ends_seq [OF t_ends_weaken [OF opened] t_gives_ends [OF opened]]) (auto intro: rep_any_start)
qed

lemma rep_ok_report [simp]:
  "rep_ok n (r\<lparr>rp_exception := x, rp_stop_reason := y\<rparr>) = rep_ok n r"
  "rep_ok n (r\<lparr>rp_close_exception := x\<rparr>) = rep_ok n r" "rep_ok n (r\<lparr>rp_port_closed := c\<rparr>) = rep_ok n r"
  "rep_ok n r \<Longrightarrow> rep_ok n (r\<lparr>rp_success := False\<rparr>)"
  by (simp_all add: rep_ok_def)

lemma rep_any_report:
  "rep_any n (r\<lparr>rp_exception := x, rp_stop_reason := y\<rparr>) = rep_any n r"
  "rep_any n (r\<lparr>rp_close_exception := x\<rparr>) = rep_any n r" "rep_any n (r\<lparr>rp_port_closed := c\<rparr>) = rep_any n r"
  "rep_any n r \<Longrightarrow> rep_any n (r\<lparr>rp_success := False\<rparr>)"
  unfolding rep_any_def by auto

lemma repetition_end_ok: "t_keeps (rep_any n) repetition_end"
proof -
  have "rep_any n (update_attempt (\<lambda>a. if at_rx a = None then a\<lparr>at_rx := x a\<rparr> else a) r)" if "rep_any n r" for r x
    using that update_attempt_ok(1) [of "\<lambda>a. if at_rx a = None then a\<lparr>at_rx := x a\<rparr> else a"] by (auto simp: rep_any_def)
  then show ?thesis
    unfolding repetition_end_def
    by (intro t_intros rep_port.keeps_port) (auto simp: rep_any_report)
qed

lemma run_status_repeat_ok:
  "t_ends (rep_hunting 0) (run_status_repeat attempts confirmed log_exists)
     (rep_any (if 1 \<le> attempts \<and> attempts \<le> 10 \<and> confirmed then nat attempts else 0))"
  unfolding run_status_repeat_def
  by (auto intro!: t_ends_finally t_ends_catch repetition_body_ok repetition_end_ok t_intros
      simp: rep_any_report) (auto simp: t_ends_def rep_any_start)

text \<open>
  Repeated status requests are bounded and stop at the first answer.  Whatever the port
  does and wherever the run stops, the requests written are status requests, one per attempt,
  at most as many as asked for and at most ten, and none without the operator's confirmation.
  No attempt but the last saw an acknowledgement, a refusal or a status.  A success rests on a
  status reply with a valid checksum, received after the last request and its acknowledgement.
\<close>

theorem status_repeat_is_bounded:
  assumes "run_status_repeat attempts confirmed log_exists (new_repetition now) ws = (out, r, ws')"
  shows "b_written r = replicate (length (rp_attempts r)) STATUS_REQUEST \<and>
    length (rp_attempts r) \<le> (if confirmed then 10 else 0) \<and> int (length (rp_attempts r)) \<le> max 0 attempts \<and>
    list_all quiet (butlast (rp_attempts r)) \<and>
    (rp_success r \<longrightarrow> (\<exists>n. cap_status (b_capture r) = Some n \<and> status_entry (b_capture r) n))"
proof -
  have "rep_hunting 0 (new_repetition now)"
    by (simp add: rep_hunting_def rep_ok_def new_repetition_def sound_new)
  from t_endsD [OF run_status_repeat_ok this assms]
  obtain n where n: "rep_ok n r" "n \<le> (if 1 \<le> attempts \<and> attempts \<le> 10 \<and> confirmed then nat attempts else 0)"
    unfolding rep_any_def by blast
  then have "length (rp_attempts r) = n" unfolding rep_ok_def by (metis length_map length_upt diff_Suc_1)
  moreover have "status_entry (b_capture r) k" if "cap_status (b_capture r) = Some k" for k
    using n(1) that sound_entries(2) by (auto simp: rep_ok_def)
  ultimately show ?thesis using n by (auto simp: rep_ok_def split: if_splits)
qed

definition repeat_wires :: "wire list" where
  "repeat_wires =
     [fine_wire 1, fine_wire 1, fine_wire 1, fine_wire 1, fine_wire 1, fine_wire 1, fine_wire 1,
      fine_wire 2, (fine_wire 2)\<lparr>w_count := 7\<rparr>, fine_wire 2, fine_wire 2, fine_wire 8, fine_wire 9]"

lemmas repetition_defs = run_status_repeat_def repetition_body_def open_repetition_def
  one_attempt_def repeat_attempt_def begin_attempt_def update_attempt_def end_attempt_def response_seen_def
  repetition_end_def mark_boundary_def new_repetition_def new_capture_def diagnostic_caught_def

theorem status_repeat_is_bounded_witness:
  "\<exists>r. run_status_repeat 1 True False (new_repetition 0) repeat_wires = (Value (), r, []) \<and>
     b_written r = [STATUS_REQUEST] \<and> \<not> rp_success r"
proof -
  obtain r where r: "run_status_repeat 1 True False (new_repetition 0) repeat_wires = (Value (), r, [])"
    "length (rp_attempts r) = 1" "\<not> rp_success r"
    by (simp add: repetition_defs status_request_crc repeat_wires_def fine_wire_def tool_steps Let_def)
  from status_repeat_is_bounded [OF r(1)] r show ?thesis by auto
qed

end
