(* ===== verification/Status_Probe.thy ===== *)
theory Status_Probe
  imports Capture_Properties Commands
begin

text \<open>
  \<^verbatim>\<open>status_probe.py\<close>: one status request at 9600 baud, one look at the answer, no retry.
  The report is the part of the state below the port; text that only goes to the log is
  left out.
\<close>

section \<open>The probe\<close>

record Probe = Port +
  pr_port_opened :: bool
  pr_port_closed :: bool
  pr_success :: bool
  pr_ack :: bool
  pr_tx_bytes :: "int option"
  pr_received :: bytes
  pr_framer :: Framer
  pr_deadline :: rat
  pr_response :: "Frame option"
  pr_device_status :: "DeviceStatus option"
  pr_error :: "error option"

definition new_probe :: "rat \<Rightarrow> Probe" where
  "new_probe now = \<lparr>b_clock = now, b_created = False, b_open = False, b_written = [],
     pr_port_opened = False, pr_port_closed = True, pr_success = False, pr_ack = False,
     pr_tx_bytes = Some 0, pr_received = [], pr_framer = new_framer, pr_deadline = 0,
     pr_response = None, pr_device_status = None, pr_error = None\<rparr>"

definition golden_request :: bytes where
  "golden_request = [0x02, 0x00, 0x01, 0x00, 0x31, 0x15, 0x12]"

definition probe_opening :: "(Probe, unit) prog" where
  "probe_opening =
     t_seq port_open
     (t_seq (t_modify (\<lambda>p. p\<lparr>pr_port_opened := True, pr_port_closed := False\<rparr>)) port_query)"

definition probe_send :: "bytes \<Rightarrow> (Probe, unit) prog" where
  "probe_send request =
     t_seq (t_modify (\<lambda>p. p\<lparr>pr_tx_bytes := None\<rparr>))
     (t_bind (port_write request) (\<lambda>written.
      t_seq (t_modify (\<lambda>p. p\<lparr>pr_tx_bytes := Some written\<rparr>))
        (t_check (written = int (length request)) (OSError ''Incomplete status-request write''))))"

text \<open>One event: the value tells whether the probe is done.\<close>

definition probe_frame :: "Frame \<Rightarrow> (Probe, bool) prog" where
  "probe_frame frame =
     (case response frame 0 of
        Inl e \<Rightarrow> t_raise e
      | Inr reply \<Rightarrow>
          if resp_command reply \<noteq> 0xB1 then t_ret False
          else
            t_seq (t_modify (\<lambda>p. p\<lparr>pr_response := Some frame\<rparr>))
              (case decode_status reply of
                 Inl e \<Rightarrow> t_raise e
               | Inr status \<Rightarrow>
                   t_seq (t_modify (\<lambda>p. p\<lparr>pr_device_status := Some status\<rparr>))
                   (t_bind (t_get pr_ack) (\<lambda>ack.
                    if \<not> ack then t_raise (ProtocolError ''B1 received without preceding ACK'')
                    else t_seq (t_modify (\<lambda>p. p\<lparr>pr_success := True\<rparr>)) (t_ret True)))))"

fun probe_event :: "event \<Rightarrow> (Probe, bool) prog" where
  "probe_event (EvControl NAK) = t_raise (ProtocolError ''NAK received; no retry attempted'')"
| "probe_event (EvControl ACK) =
     t_seq (t_modify (\<lambda>p. if pr_ack p then p else p\<lparr>pr_ack := True, pr_deadline := b_clock p + 3\<rparr>))
       (t_ret False)"
| "probe_event (EvFrame frame) = probe_frame frame"

fun probe_events :: "event list \<Rightarrow> (Probe, bool) prog" where
  "probe_events [] = t_ret False"
| "probe_events (ev # es) = t_bind (probe_event ev) (\<lambda>found. if found then t_ret True else probe_events es)"

definition probe_data :: "bytes \<Rightarrow> (Probe, bool) prog" where
  "probe_data data =
     (if data = [] then t_ret False
      else
        t_bind (t_get (\<lambda>p. feed (pr_framer p) data)) (\<lambda>(f, es, cs).
        t_seq (t_modify (\<lambda>p. p\<lparr>pr_received := pr_received p @ data, pr_framer := f\<rparr>))
          (probe_events es)))"

definition probe_listen :: "(Probe, unit) prog" where
  "probe_listen =
     t_seq (t_modify (\<lambda>p. p\<lparr>pr_deadline := b_clock p + 3\<rparr>))
       (t_loop (t_bind (t_get (\<lambda>p. pr_deadline p \<le> b_clock p)) (\<lambda>late.
          if late
          then t_raise (TimeoutError ''No complete ACK + valid B1 status response; no retry attempted'')
          else t_bind port_read (\<lambda>data.
               t_bind (probe_data data) (\<lambda>found. t_ret (if found then Some () else None))))))"

definition probe_caught :: "error \<Rightarrow> bool" where
  "probe_caught e \<longleftrightarrow> e = KeyboardInterrupt \<or> is_OSError e \<or> is_ProtocolError e \<or> is_ValueError e"

definition probe_close :: "(Probe, unit) prog" where
  "probe_close = t_finally port_close (t_modify (\<lambda>p. p\<lparr>pr_port_closed := \<not> b_open p\<rparr>))"

text \<open>\<open>log_exists\<close> tells that the log file is there already, which \<^verbatim>\<open>open("x")\<close> refuses.\<close>

definition probe_status :: "bool \<Rightarrow> (Probe, unit) prog" where
  "probe_status log_exists =
     (case telegram status_request 0 of
        Inl e \<Rightarrow> t_raise e
      | Inr request \<Rightarrow>
          t_seq (t_check (request = golden_request)
                   (ValueError ''Status request does not match the published golden vector''))
          (t_seq (t_check (\<not> log_exists) (OSError ''File exists''))
          (t_seq port_create
            (t_finally
              (t_catch (t_seq probe_opening (t_seq (probe_send request) probe_listen))
                 probe_caught (\<lambda>e. t_modify (\<lambda>p. p\<lparr>pr_error := Some e\<rparr>)))
              probe_close))))"

section \<open>What it does and does not do\<close>

text \<open>Nothing but one request is ever written, and a success has its evidence.\<close>

definition probe_ok :: "Probe \<Rightarrow> bool" where
  "probe_ok p \<longleftrightarrow>
     (b_written p = [] \<or> b_written p = [golden_request]) \<and>
     on_stream (pr_framer p) (pr_received p) \<and>
     (pr_success p \<longrightarrow> b_written p = [golden_request] \<and> pr_ack p \<and>
        (\<exists>frame reply. pr_response p = Some frame \<and> genuine (EvFrame frame) \<and>
           response frame 0 = Inr reply \<and> resp_command reply = 0xB1 \<and>
           decode_status reply = Inr (the (pr_device_status p)) \<and> pr_device_status p \<noteq> None))"

text \<open>While the probe is listening, its one request is out and it has not succeeded yet.\<close>

definition probing :: "Probe \<Rightarrow> bool" where
  "probing p \<longleftrightarrow> b_written p = [golden_request] \<and> on_stream (pr_framer p) (pr_received p) \<and> \<not> pr_success p"

lemma probing_ok: "probing p \<Longrightarrow> probe_ok p"
  by (simp add: probing_def probe_ok_def)

interpretation probe_port: port_invariant probe_ok
  by unfold_locales (auto simp: probe_ok_def)

interpretation listening_port: port_invariant probing
  by unfold_locales (auto simp: probing_def)

lemma probe_event_ends: "genuine ev \<Longrightarrow> t_ends probing (probe_event ev) probe_ok"
  by (cases ev rule: probe_event.cases)
    (auto simp: t_ends_def probe_frame_def probing_def probe_ok_def split: sum.splits)

lemma probe_event_gives: "t_gives probing (probe_event ev) (\<lambda>found p. found \<or> probing p)"
  by (cases ev rule: probe_event.cases)
    (auto simp: t_gives_def probe_frame_def probing_def split: sum.splits if_splits)

lemma probe_events_ok:
  "list_all genuine es \<Longrightarrow>
   t_ends probing (probe_events es) probe_ok \<and> t_gives probing (probe_events es) (\<lambda>found p. found \<or> probing p)"
proof (induction es)
  case Nil
  then show ?case by (auto simp: t_ends_def t_gives_def probing_ok)
next
  case (Cons ev es)
  then have ev: "t_ends probing (probe_event ev) probe_ok" and es: "t_ends probing (probe_events es) probe_ok"
    "t_gives probing (probe_events es) (\<lambda>found p. found \<or> probing p)"
    using probe_event_ends by simp_all
  have K: "t_gives probing (probe_event ev) (\<lambda>found p. probe_ok p \<and> (found \<or> probing p))"
    using ev probe_event_gives unfolding t_gives_def by (blast dest: t_endsD)
  have "t_ends probing (probe_events (ev # es)) probe_ok"
    unfolding probe_events.simps
    by (rule t_ends_bind [OF ev K]) (use es(1) in \<open>auto simp: t_ends_def\<close>)
  moreover have "t_gives probing (probe_events (ev # es)) (\<lambda>found p. found \<or> probing p)"
    unfolding probe_events.simps
    by (rule t_gives_bind [OF K]) (use es(2) in \<open>fastforce simp: t_gives_def split: if_splits\<close>)
  ultimately show ?case ..
qed

lemma probe_data_ok:
  "t_ends probing (probe_data data) probe_ok" "t_gives probing (probe_data data) (\<lambda>found p. found \<or> probing p)"
proof -
  have "probe_data data p ws = probe_events es (p\<lparr>pr_received := pr_received p @ data, pr_framer := f\<rparr>) ws \<and>
      list_all genuine es \<and> (probing p \<longrightarrow> probing (p\<lparr>pr_received := pr_received p @ data, pr_framer := f\<rparr>))"
    if "feed (pr_framer p) data = (f, es, cs)" "data \<noteq> []" for p ws f es cs
    using that feed_stream(1) [OF that(1)] feed_genuine [OF that(1)] by (auto simp: probe_data_def probing_def)
  then have step: "data = [] \<or> (\<exists>f es. probe_data data p ws = probe_events es (p\<lparr>pr_received := pr_received p @ data, pr_framer := f\<rparr>) ws \<and>
      list_all genuine es \<and> (probing p \<longrightarrow> probing (p\<lparr>pr_received := pr_received p @ data, pr_framer := f\<rparr>)))" for p ws
    by (metis prod_cases3)
  have none: "probe_data data p ws = (Value False, p, ws)" if "data = []" for p ws
    using that by (simp add: probe_data_def)
  show "t_ends probing (probe_data data) probe_ok"
    unfolding t_ends_def using step none probe_events_ok probing_ok unfolding t_ends_def
    by (metis fst_conv snd_conv)
  show "t_gives probing (probe_data data) (\<lambda>found p. found \<or> probing p)"
    unfolding t_gives_def using step none probe_events_ok unfolding t_gives_def
    by (metis ending.inject prod.inject)
qed

lemma probe_listen_ok: "t_ends probing probe_listen probe_ok"
proof -
  let ?body = "t_bind (t_get (\<lambda>p. pr_deadline p \<le> b_clock p)) (\<lambda>late.
     if late then t_raise (TimeoutError ''No complete ACK + valid B1 status response; no retry attempted'')
     else t_bind port_read (\<lambda>data. t_bind (probe_data data) (\<lambda>found. t_ret (if found then Some () else None))))"
  have found: "t_ends probing (t_bind (probe_data data) (\<lambda>found. t_ret (if found then Some () else None))) probe_ok"
    "t_gives probing (t_bind (probe_data data) (\<lambda>found. t_ret (if found then Some () else None))) (\<lambda>r p. r = None \<longrightarrow> probing p)"
    for data
  proof -
    show "t_ends probing (t_bind (probe_data data) (\<lambda>found. t_ret (if found then Some () else None))) probe_ok"
      by (rule t_ends_bind [OF probe_data_ok(1) t_gives_ends [OF probe_data_ok(1)]]) (rule t_intros)
    show "t_gives probing (t_bind (probe_data data) (\<lambda>found. t_ret (if found then Some () else None))) (\<lambda>r p. r = None \<longrightarrow> probing p)"
      by (rule t_gives_bind [OF probe_data_ok(2)]) (auto simp: t_gives_def)
  qed
  have read: "t_ends probing port_read probe_ok" "t_gives probing port_read (\<lambda>_. probing)"
    using listening_port.keeps_port(3) by (auto intro: t_ends_weaken probing_ok t_gives_ends)
  have "t_ends probing ?body probe_ok" "t_gives probing ?body (\<lambda>r p. r = None \<longrightarrow> probing p)"
    using t_ends_bind [OF read found(1)] t_gives_bind [OF read(2) found(2)]
    by (auto simp: t_ends_def t_gives_def probing_ok)
  then have "t_ends probing (t_loop ?body) probe_ok" by (rule t_ends_loop)
  moreover have "probing p \<Longrightarrow> probing (p\<lparr>pr_deadline := t\<rparr>)" for p t by (simp add: probing_def)
  ultimately show ?thesis by (auto simp: probe_listen_def t_ends_def)
qed

text \<open>Before the request nothing has been written.\<close>

definition silent_probe :: "Probe \<Rightarrow> bool" where
  "silent_probe p \<longleftrightarrow> b_written p = [] \<and> on_stream (pr_framer p) (pr_received p) \<and> \<not> pr_success p"

interpretation silent_port: port_invariant silent_probe
  by unfold_locales (auto simp: silent_probe_def)

lemma probe_opening_ok: "t_keeps silent_probe probe_opening"
  unfolding probe_opening_def by (intro t_intros silent_port.keeps_port) (simp add: silent_probe_def)

lemma probe_send_ok: "t_ends silent_probe (probe_send golden_request) probing"
proof -
  have "t_keeps probing (t_bind next_wire (\<lambda>w. t_seq (raise_if (w_error w)) (t_ret (w_count w))))"
    by (intro t_intros listening_port.keeps_next)
  then have send: "t_ends silent_probe (port_write golden_request) probing"
    by (auto simp: port_write_def t_ends_def silent_probe_def probing_def)
  have "t_ends silent_probe (t_bind (port_write golden_request) (\<lambda>written.
      t_seq (t_modify (\<lambda>p. p\<lparr>pr_tx_bytes := Some written\<rparr>))
        (t_check (written = int (length golden_request)) (OSError ''Incomplete status-request write'')))) probing"
    by (rule t_ends_bind [OF send t_gives_ends [OF send]]) (intro t_intros, simp add: probing_def)
  then show ?thesis by (auto simp: probe_send_def t_ends_def silent_probe_def)
qed

lemma probe_body_ok:
  "t_ends silent_probe (t_seq probe_opening (t_seq (probe_send golden_request) probe_listen)) probe_ok"
proof -
  have weak: "silent_probe p \<Longrightarrow> probe_ok p" for p by (simp add: silent_probe_def probe_ok_def)
  have "t_ends silent_probe (t_seq (probe_send golden_request) probe_listen) probe_ok"
    by (rule t_ends_seq [OF _ t_gives_ends [OF probe_send_ok] probe_listen_ok])
      (rule t_ends_weaken [OF probe_send_ok], auto intro: probing_ok)
  then show ?thesis
    by (intro t_ends_seq [OF _ t_gives_ends [OF probe_opening_ok]] t_ends_weaken [OF probe_opening_ok])
      (auto intro: weak)
qed

lemma probe_close_ok: "t_keeps probe_ok probe_close"
  unfolding probe_close_def by (intro t_intros probe_port.keeps_port) (simp add: probe_ok_def)

lemma status_request_golden: "telegram status_request 0 = Inr golden_request"
  by (simp add: telegram_def status_request_def plain_command_def golden_request_def encode_def
      STX_def MAX_PAYLOAD_def crc16_def crc16_step_def to_bytes2_def)

lemma probe_status_ok: "t_ends silent_probe (probe_status log_exists) probe_ok"
proof -
  have "t_ends silent_probe
     (t_finally (t_catch (t_seq probe_opening (t_seq (probe_send golden_request) probe_listen))
        probe_caught (\<lambda>e. t_modify (\<lambda>p. p\<lparr>pr_error := Some e\<rparr>))) probe_close) probe_ok"
    by (intro t_ends_finally t_ends_catch probe_body_ok probe_close_ok t_intros) (simp add: probe_ok_def)
  then show ?thesis
    by (auto simp: probe_status_def status_request_golden t_ends_def port_create_def t_check_def silent_probe_def
        probe_ok_def t_seq_def t_bind_def)
qed

lemmas probe_defs = probe_opening_def probe_send_def probe_close_def probe_caught_def port_create_def
  port_open_def port_query_def port_write_def port_close_def next_wire_def raise_if_def t_seq_def
  t_bind_def t_check_def t_finally_def t_catch_def

section \<open>Properties\<close>

text \<open>
  The status probe sends one status request and nothing else.  At every point of a run,
  whatever the port does, the probe has written nothing or exactly the seven bytes of the
  published status request, once.  It reports success only if an acknowledgement came first
  and then a telegram with a valid checksum and address that is a status reply and decodes to
  the status reported.
\<close>

theorem probe_sends_one_request:
  assumes "probe_status log_exists (new_probe now) ws = (out, p, ws')"
  shows "(b_written p = [] \<or> b_written p = [golden_request]) \<and>
    (pr_success p \<longrightarrow> b_written p = [golden_request] \<and> pr_ack p \<and>
       (\<exists>frame reply. pr_response p = Some frame \<and> genuine (EvFrame frame) \<and>
          response frame 0 = Inr reply \<and> resp_command reply = 0xB1 \<and>
          decode_status reply = Inr (the (pr_device_status p)) \<and> pr_device_status p \<noteq> None))"
proof -
  have "silent_probe (new_probe now)" by (simp add: silent_probe_def new_probe_def on_stream_def new_framer_def)
  from t_endsD [OF probe_status_ok this assms] show ?thesis by (simp add: probe_ok_def)
qed

theorem probe_sends_one_request_witness:
  "\<exists>p. probe_status False (new_probe 0)
       [fine_wire 1, fine_wire 2, (fine_wire 3)\<lparr>w_error := Some (OSError ''unplugged'')\<rparr>, fine_wire 4] =
       (Value (), p, []) \<and>
     b_written p = [golden_request] \<and> \<not> pr_success p \<and> pr_port_closed p"
proof -
  obtain p where p: "probe_status False (new_probe 0)
       [fine_wire 1, fine_wire 2, (fine_wire 3)\<lparr>w_error := Some (OSError ''unplugged'')\<rparr>, fine_wire 4] =
       (Value (), p, [])" "b_written p \<noteq> []" "\<not> pr_success p" "pr_port_closed p"
    by (simp add: probe_status_def status_request_golden probe_defs fine_wire_def new_probe_def)
  with probe_sends_one_request [OF p(1)] show ?thesis by blast
qed

end
