(* ===== verification/Reset_Experiment.thy ===== *)
theory Reset_Experiment
  imports Hardware_Diagnostic
begin

text \<open>
  \<^verbatim>\<open>reset_experiment.py\<close>: one software reset, which clears the scanner's fault memory.  The run
  needs two consents, writes one telegram at most and reports the exchange as observed only
  with an acknowledgement, a reset reply and a startup message after it.
\<close>

section \<open>The experiment\<close>

definition RESET_REQUEST :: bytes where
  "RESET_REQUEST = [0x02, 0x00, 0x01, 0x00, 0x10, 0x34, 0x12]"

definition CAPTURE_SECONDS :: rat where "CAPTURE_SECONDS = 65"

text \<open>\<^verbatim>\<open>plan\<close>, of which the run uses only that it does not fail.\<close>

definition reset_plan :: "unit result" where
  "reset_plan =
     (if request_crc_ok RESET_REQUEST then Inr () else Inl (ValueError ''Published reset request CRC mismatch''))"

record Reset = Bench +
  rs_write_count :: "int option"
  rs_flush_completed :: bool
  rs_port_closed :: "bool option"
  rs_error :: "error option"
  rs_close_error :: "error option"
  rs_reset_reply_valid :: bool
  rs_startup_reply_valid :: bool
  rs_exchange_observed :: bool

definition new_reset :: "rat \<Rightarrow> Reset" where
  "new_reset now = \<lparr>b_clock = now, b_created = False, b_open = False, b_written = [],
     b_capture = new_capture, rs_write_count = None, rs_flush_completed = False,
     rs_port_closed = None, rs_error = None, rs_close_error = None, rs_reset_reply_valid = False,
     rs_startup_reply_valid = False, rs_exchange_observed = False\<rparr>"

definition reset_listen :: "(Reset, unit) prog" where
  "reset_listen =
     t_seq port_create
     (t_seq port_open
     (t_seq initial_state
     (t_bind (t_get b_clock) (\<lambda>now. read_window Pre_tx True (now + 1 / 10)))))"

definition reset_send :: "(Reset, unit) prog" where
  "reset_send =
     t_bind (port_write RESET_REQUEST) (\<lambda>written.
     t_seq (t_modify (\<lambda>r. r\<lparr>rs_write_count := Some written\<rparr>))
     (t_seq (t_check (written = 7) (OSError ''Short reset write; do not retry''))
     (t_seq flush_output
     (t_seq (t_modify (\<lambda>r. r\<lparr>rs_flush_completed := True\<rparr>)) port_query))))"

definition reset_body :: "(Reset, unit) prog" where
  "reset_body =
     t_seq reset_listen
     (t_seq (on_capture mark_boundary)
     (t_seq reset_send
     (t_bind (t_get b_clock) (\<lambda>start. read_window Post_tx True (start + CAPTURE_SECONDS)))))"

text \<open>The telegrams that count as replies of the scanner to this request.\<close>

definition reset_replies :: "Capture \<Rightarrow> Detail list" where
  "reset_replies cap =
     (case cap_boundary cap of
        None \<Rightarrow> []
      | Some b \<Rightarrow> filter (\<lambda>t. b \<le> det_offset t \<and> (det_address t = 0x80 \<or> det_address t = 0x81) \<and> det_valid t)
                   (cap_telegrams cap))"

definition reset_reply :: "Detail \<Rightarrow> bool" where
  "reset_reply t \<longleftrightarrow> det_command t = 0x91 \<and> det_payload_length t = 2"

definition startup_reply :: "Detail \<Rightarrow> bool" where
  "startup_reply t \<longleftrightarrow> det_command t = 0x90 \<and> det_identity t \<noteq> None"

definition reset_judge :: "Reset \<Rightarrow> Reset" where
  "reset_judge r =
     (let cap = b_capture r;
          reset_ok = list_ex reset_reply (reset_replies cap);
          startup_ok = list_ex startup_reply (reset_replies cap) in
      r\<lparr>rs_reset_reply_valid := reset_ok, rs_startup_reply_valid := startup_ok,
        rs_exchange_observed := cap_post_ack cap \<and> \<not> cap_post_nak cap \<and> reset_ok \<and> startup_ok\<rparr>)"

definition reset_close :: "(Reset, unit) prog" where
  "reset_close =
     t_bind (t_get b_created) (\<lambda>created.
     t_when created
       (t_seq (t_catch port_close is_Exception (\<lambda>e. t_modify (\<lambda>r. r\<lparr>rs_close_error := Some e\<rparr>)))
         (t_modify (\<lambda>r. r\<lparr>rs_port_closed := Some (\<not> b_open r)\<rparr>))))"

text \<open>\<open>native\<close>: the host is a Windows; \<open>log_exists\<close>: the log file is there already.\<close>

definition reset_run :: "bool \<Rightarrow> bool \<Rightarrow> bool \<Rightarrow> bool \<Rightarrow> (Reset, unit) prog" where
  "reset_run confirmed_reset confirmed_hardware native log_exists =
     (if \<not> confirmed_reset \<or> \<not> confirmed_hardware
      then t_raise (ValueError ''Explicit fault-memory-clear consent and current hardware confirmation required'')
      else if \<not> native then t_raise (RuntimeError ''This experiment is native Windows only'')
      else case reset_plan of
        Inl e \<Rightarrow> t_raise e
      | Inr _ \<Rightarrow>
          if log_exists then t_raise (OSError ''File exists'')
          else
            t_finally
              (t_catch reset_body (\<lambda>e. is_Exception e \<or> e = KeyboardInterrupt)
                 (\<lambda>e. t_modify (\<lambda>r. r\<lparr>rs_error := Some e\<rparr>)))
              (t_seq reset_close (t_modify reset_judge)))"

text \<open>\<^verbatim>\<open>main\<close>: without \<^verbatim>\<open>--execute\<close> only the plan is shown; the value is the exit code.\<close>

definition reset_main :: "bool \<Rightarrow> bool \<Rightarrow> bool \<Rightarrow> bool \<Rightarrow> bool \<Rightarrow> bool \<Rightarrow> (Reset, nat) prog" where
  "reset_main execute has_log confirmed_reset confirmed_hardware native log_exists =
     (if \<not> execute then (case reset_plan of Inl e \<Rightarrow> t_raise e | Inr _ \<Rightarrow> t_ret 0)
      else if \<not> has_log then t_ret 2
      else t_seq (reset_run confirmed_reset confirmed_hardware native log_exists)
        (t_get (\<lambda>r. if rs_exchange_observed r \<and> rs_error r = None then 0 else 1)))"

section \<open>One reset at most\<close>

text \<open>What the report's verdict stands for.\<close>

definition reset_shown :: "Capture \<Rightarrow> bool" where
  "reset_shown cap \<longleftrightarrow>
     cap_post_ack cap \<and> \<not> cap_post_nak cap \<and>
     (\<exists>t \<in> set (reset_replies cap). reset_reply t \<and> entry_ok (cap_raw cap) t) \<and>
     (\<exists>t \<in> set (reset_replies cap). startup_reply t \<and> entry_ok (cap_raw cap) t)"

definition reset_silent :: "Reset \<Rightarrow> bool" where
  "reset_silent r \<longleftrightarrow>
     sound True (b_capture r) \<and> b_written r = [] \<and> cap_boundary (b_capture r) = None \<and> \<not> rs_exchange_observed r"

definition reset_sent :: "Reset \<Rightarrow> bool" where
  "reset_sent r \<longleftrightarrow> sound True (b_capture r) \<and> b_written r = [RESET_REQUEST] \<and> \<not> rs_exchange_observed r"

definition reset_ok :: "Reset \<Rightarrow> bool" where
  "reset_ok r \<longleftrightarrow>
     sound True (b_capture r) \<and>
     (b_written r = [] \<and> cap_boundary (b_capture r) = None \<or> b_written r = [RESET_REQUEST]) \<and>
     (rs_exchange_observed r \<longrightarrow> b_written r = [RESET_REQUEST] \<and> reset_shown (b_capture r))"

interpretation reset_quiet: bench_invariant reset_silent True
  by unfold_locales (auto simp: reset_silent_def dest: sound_step)

interpretation reset_out: bench_invariant reset_sent True
  by unfold_locales (auto simp: reset_sent_def dest: sound_step)

interpretation reset_port: port_invariant reset_ok
  by unfold_locales (auto simp: reset_ok_def)

lemma reset_stages: "reset_silent r \<Longrightarrow> reset_ok r" "reset_sent r \<Longrightarrow> reset_ok r"
  by (simp_all add: reset_silent_def reset_sent_def reset_ok_def)

lemma reset_send_ok:
  "t_ends (\<lambda>r. reset_sent (r\<lparr>b_written := b_written r @ [RESET_REQUEST]\<rparr>)) reset_send reset_sent"
proof -
  have "t_keeps reset_sent (t_bind next_wire (\<lambda>w. t_seq (raise_if (w_error w)) (t_ret (w_count w))))"
    by (intro t_intros reset_out.keeps_next)
  then have send: "t_ends (\<lambda>r. reset_sent (r\<lparr>b_written := b_written r @ [RESET_REQUEST]\<rparr>)) (port_write RESET_REQUEST) reset_sent"
    by (auto simp: port_write_def t_ends_def)
  show ?thesis
    unfolding reset_send_def
    by (rule t_ends_bind [OF send t_gives_ends [OF send]])
      (intro t_intros reset_out.bench_steps, simp_all add: reset_sent_def)
qed

lemma reset_body_ok: "t_ends reset_silent reset_body reset_ok"
proof -
  let ?S = "\<lambda>r. reset_sent (r\<lparr>b_written := b_written r @ [RESET_REQUEST]\<rparr>)"
  have listen: "t_keeps reset_silent reset_listen"
    unfolding reset_listen_def by (intro t_intros reset_quiet.bench_steps)
  have "t_keeps reset_sent (t_bind (t_get b_clock) (\<lambda>start. read_window Post_tx True (start + CAPTURE_SECONDS)))"
    by (intro t_intros reset_out.bench_steps)
  then have "t_ends ?S (t_seq reset_send (t_bind (t_get b_clock) (\<lambda>start. read_window Post_tx True (start + CAPTURE_SECONDS)))) reset_sent"
    by (rule t_ends_seq [OF reset_send_ok t_gives_ends [OF reset_send_ok]])
  then have "t_ends reset_silent (t_seq (on_capture mark_boundary)
      (t_seq reset_send (t_bind (t_get b_clock) (\<lambda>start. read_window Post_tx True (start + CAPTURE_SECONDS))))) reset_ok"
    using sound_mark reset_stages(2)
    by (fastforce simp: t_ends_def on_capture_def reset_silent_def reset_sent_def)
  then show ?thesis
    unfolding reset_body_def
    by (intro t_ends_seq [OF t_ends_weaken [OF listen] t_gives_ends [OF listen]]) (auto intro: reset_stages)
qed

lemma reset_judge_ok: "reset_ok r \<Longrightarrow> reset_ok (reset_judge r)"
proof -
  assume "reset_ok r"
  then have "list_all (entry_ok (cap_raw (b_capture r))) (cap_telegrams (b_capture r))"
    by (simp add: reset_ok_def sound_def evidence_def)
  then have "entry_ok (cap_raw (b_capture r)) t" if "t \<in> set (reset_replies (b_capture r))" for t
    using that by (auto simp: reset_replies_def list_all_iff split: option.splits)
  moreover have "reset_replies (b_capture r) = []" if "cap_boundary (b_capture r) = None"
    using that by (simp add: reset_replies_def)
  ultimately show ?thesis
    using \<open>reset_ok r\<close> by (auto simp: reset_ok_def reset_judge_def Let_def reset_shown_def list_ex_iff)
qed

lemma reset_plan_ok: "reset_plan = Inr ()"
  by (simp add: reset_plan_def request_crc_ok_def RESET_REQUEST_def crc16_def crc16_step_def)

lemma reset_run_ok: "t_ends reset_silent (reset_run True True True False) reset_ok"
proof -
  have report: "reset_ok (r\<lparr>rs_error := x\<rparr>) = reset_ok r" "reset_ok (r\<lparr>rs_close_error := x\<rparr>) = reset_ok r"
    "reset_ok (r\<lparr>rs_port_closed := c\<rparr>) = reset_ok r" for r x c
    by (simp_all add: reset_ok_def)
  show ?thesis
    unfolding reset_run_def reset_plan_ok reset_close_def
    by (auto intro!: t_ends_finally t_ends_catch reset_body_ok t_intros reset_port.keeps_port reset_judge_ok
        simp: report)
qed

section \<open>Property\<close>


definition reset_wires :: "wire list" where
  "reset_wires =
     [fine_wire 1, fine_wire 1, fine_wire 1, fine_wire 1, fine_wire 1, fine_wire 1, fine_wire 1,
      fine_wire 2, (fine_wire 2)\<lparr>w_count := 7\<rparr>, fine_wire 2, fine_wire 2, fine_wire 80, fine_wire 81]"


end
