(* ===== verification/Status_Experiment.thy ===== *)
theory Status_Experiment
  imports Hardware_Diagnostic
begin

text \<open>
  \<^verbatim>\<open>ros2_status_experiment.py\<close>: the owner of the port for a driver that runs elsewhere.  The
  driver's bytes come as events of a relay process; a gate lets one status request through,
  and only once the operator's markers allow it.  A round of the loop takes one \<open>look\<close> at its
  surroundings: the marker files, what the relay reported since, and whether it still runs.
\<close>

section \<open>The gate\<close>

record SingleStatusGate =
  gt_buffer :: bytes
  gt_sent :: bool

definition new_gate :: SingleStatusGate where
  "new_gate = \<lparr>gt_buffer = [], gt_sent = False\<rparr>"

text \<open>\<^verbatim>\<open>accept\<close>; bytes that are refused stay in the buffer.\<close>

definition gate_accept :: "bytes \<Rightarrow> bool \<Rightarrow> SingleStatusGate \<Rightarrow> SingleStatusGate \<times> bytes option result" where
  "gate_accept data startup_authorized g =
     (if data = [] then (g, Inr None)
      else if \<not> startup_authorized \<or> gt_sent g
      then (g, Inl (ValueError ''Node TX before startup gate or after its single request''))
      else
        let g' = g\<lparr>gt_buffer := gt_buffer g @ data\<rparr> in
        if \<not> isprefix (gt_buffer g') STATUS_REQUEST
        then (g', Inl (ValueError ''Node attempted bytes outside the one-status allowance''))
        else if length (gt_buffer g') \<noteq> length STATUS_REQUEST then (g', Inr None)
        else (g'\<lparr>gt_sent := True\<rparr>, Inr (Some (gt_buffer g'))))"

section \<open>Surroundings and state\<close>

datatype relay_event =
    Relay_ready
  | Node_exit int
  | Relay_error string
  | Node_tx string bool
  | Relay_other

record look =
  lk_cancel :: bool
  lk_ros_ready :: bool
  lk_ready_exists :: bool
  lk_power_on :: bool
  lk_startup_complete :: bool
  lk_trigger_exists :: bool
  lk_pipe :: "error option"
  lk_events :: "relay_event list"
  lk_exited :: bool

record Experiment = Bench +
  ex_looks :: "look list"
  ex_gate :: SingleStatusGate
  ex_started :: rat
  ex_power_on :: "rat option"
  ex_drained :: "rat option"
  ex_relay_ready :: bool
  ex_ready :: bool
  ex_status_authorized :: bool
  ex_node_exit :: "int option"
  ex_process :: bool
  ex_write_count :: "int option"
  ex_flush_completed :: bool
  ex_port_closed :: bool
  ex_power_on_confirmed :: bool
  ex_startup_complete_confirmed :: bool
  ex_status_valid :: bool
  ex_success :: bool
  ex_error :: "error option"
  ex_close_error :: "error option"
  ex_relay_cleanup_error :: bool

definition new_experiment :: "bool \<Rightarrow> rat \<Rightarrow> look list \<Rightarrow> Experiment" where
  "new_experiment already_powered_on now looks = \<lparr>b_clock = now, b_created = False, b_open = False,
     b_written = [], b_capture = new_capture, ex_looks = looks, ex_gate = new_gate, ex_started = now,
     ex_power_on = None, ex_drained = None, ex_relay_ready = False, ex_ready = False,
     ex_status_authorized = False, ex_node_exit = None, ex_process = False, ex_write_count = None,
     ex_flush_completed = False, ex_port_closed = True, ex_power_on_confirmed = already_powered_on,
     ex_startup_complete_confirmed = already_powered_on, ex_status_valid = False, ex_success = False,
     ex_error = None, ex_close_error = None, ex_relay_cleanup_error = False\<rparr>"

definition next_look :: "(Experiment, look) prog" where
  "next_look x ws =
     (case ex_looks x of [] \<Rightarrow> (Unfinished, x, ws) | l # ls \<Rightarrow> (Value l, x\<lparr>ex_looks := ls\<rparr>, ws))"

section \<open>One round\<close>

definition note_ready :: "look \<Rightarrow> (Experiment, unit) prog" where
  "note_ready l =
     t_bind (t_get (\<lambda>x. \<not> ex_ready x \<and> ex_relay_ready x \<and> lk_ros_ready l)) (\<lambda>both.
     t_when both
       (t_seq (t_modify (\<lambda>x. x\<lparr>ex_ready := True\<rparr>))
         (t_check (\<not> lk_ready_exists l) (OSError ''File exists''))))"

definition note_power_on :: "look \<Rightarrow> rat \<Rightarrow> Experiment \<Rightarrow> Experiment" where
  "note_power_on l now x =
     (if ex_ready x \<and> ex_power_on x = None \<and> lk_power_on l
      then x\<lparr>ex_power_on := Some now, ex_power_on_confirmed := True\<rparr> else x)"

text \<open>\<open>since\<close>: at least so long after the confirmation of power.\<close>

definition powered_since :: "Experiment \<Rightarrow> rat \<Rightarrow> rat \<Rightarrow> bool" where
  "powered_since x now seconds = (case ex_power_on x of None \<Rightarrow> False | Some t \<Rightarrow> seconds \<le> now - t)"

definition note_startup_complete :: "look \<Rightarrow> rat \<Rightarrow> (Experiment, unit) prog" where
  "note_startup_complete l now =
     t_bind (t_get (\<lambda>x. ex_power_on x \<noteq> None \<and> lk_startup_complete l)) (\<lambda>marked.
     t_when marked
       (t_seq (t_modify (\<lambda>x. x\<lparr>ex_startup_complete_confirmed := True\<rparr>))
       (t_bind (t_get (\<lambda>x. \<not> ex_status_authorized x \<and> powered_since x now 65)) (\<lambda>due.
        t_when due
          (t_seq (on_capture mark_boundary)
          (t_seq (t_modify (\<lambda>x. x\<lparr>ex_status_authorized := True\<rparr>))
            (t_check (\<not> lk_trigger_exists l) (OSError ''File exists''))))))))"

definition operator_stage :: "bool \<Rightarrow> look \<Rightarrow> rat \<Rightarrow> (Experiment, unit) prog" where
  "operator_stage already_powered_on l now =
     (if already_powered_on
      then t_bind (t_get (\<lambda>x. \<not> ex_ready x \<and> 300 < now - ex_started x)) (\<lambda>late.
           t_check (\<not> late) (TimeoutError ''Both listeners were not ready in 300 seconds''))
      else
        t_seq (t_modify (note_power_on l now))
        (t_seq (note_startup_complete l now)
        (t_bind (t_get (\<lambda>x. ex_power_on x = None \<and> 300 < now - ex_started x)) (\<lambda>late.
         t_seq (t_check (\<not> late) (TimeoutError ''No power-on confirmation in 300 seconds''))
        (t_bind (t_get (\<lambda>x. \<not> ex_status_authorized x \<and>
             (case ex_power_on x of None \<Rightarrow> False | Some t \<Rightarrow> 300 < now - t))) (\<lambda>late.
         t_check (\<not> late) (TimeoutError ''No startup-complete confirmation in 300 seconds'')))))))"

text \<open>Reading, and passing on what was received to the relay.\<close>

definition relay_read :: "look \<Rightarrow> (Experiment, unit) prog" where
  "relay_read l =
     t_bind (t_get (\<lambda>x. length (cap_raw (b_capture x)))) (\<lambda>before.
     t_bind (t_get (\<lambda>x. gt_sent (ex_gate x))) (\<lambda>sent.
     t_seq (capture_read (if sent then Post_tx else Passive) True)
     (t_bind (t_get (\<lambda>x. drop before (cap_raw (b_capture x)))) (\<lambda>received.
      t_when (received \<noteq> []) (raise_if (lk_pipe l))))))"

definition experiment_send :: "bytes \<Rightarrow> (Experiment, unit) prog" where
  "experiment_send packet =
     t_bind (port_write packet) (\<lambda>written.
     t_seq (t_modify (\<lambda>x. x\<lparr>ex_write_count := Some written\<rparr>))
     (t_seq (t_check (written = 7) (OSError ''Short status write; do not retry''))
     (t_seq flush_output
     (t_seq (t_modify (\<lambda>x. x\<lparr>ex_flush_completed := True, ex_drained := Some (b_clock x)\<rparr>)) port_query))))"

definition node_wrote :: "string \<Rightarrow> bool \<Rightarrow> (Experiment, unit) prog" where
  "node_wrote digits seen =
     (case fromhex digits of
        Inl e \<Rightarrow> t_raise e
      | Inr data \<Rightarrow>
          t_bind (t_get (\<lambda>x. gate_accept data (ex_status_authorized x \<and> seen) (ex_gate x))) (\<lambda>(g, r).
          t_seq (t_modify (\<lambda>x. x\<lparr>ex_gate := g\<rparr>))
            (case r of
               Inl e \<Rightarrow> t_raise e
             | Inr None \<Rightarrow> t_ret ()
             | Inr (Some packet) \<Rightarrow> t_seq (on_capture mark_boundary) (experiment_send packet))))"

fun handle_event :: "relay_event \<Rightarrow> (Experiment, unit) prog" where
  "handle_event Relay_ready = t_modify (\<lambda>x. x\<lparr>ex_relay_ready := True\<rparr>)"
| "handle_event (Node_exit code) = t_modify (\<lambda>x. x\<lparr>ex_node_exit := Some code\<rparr>)"
| "handle_event (Relay_error reason) = t_raise (OSError reason)"
| "handle_event (Node_tx digits seen) = node_wrote digits seen"
| "handle_event Relay_other = t_ret ()"

definition relay_events :: "relay_event list \<Rightarrow> (Experiment, unit) prog" where
  "relay_events es = foldr (\<lambda>e. t_seq (handle_event e)) es (t_ret ())"

definition authorize_powered_on :: "look \<Rightarrow> (Experiment, unit) prog" where
  "authorize_powered_on l =
     t_bind (t_get (\<lambda>x. ex_ready x \<and> \<not> ex_status_authorized x)) (\<lambda>due.
     t_when due
       (t_seq (on_capture mark_boundary)
       (t_seq (t_check (\<not> lk_trigger_exists l) (OSError ''File exists''))
         (t_modify (\<lambda>x. x\<lparr>ex_status_authorized := True\<rparr>)))))"

definition drained_since :: "Experiment \<Rightarrow> rat \<Rightarrow> rat \<Rightarrow> bool" where
  "drained_since x now seconds = (case ex_drained x of None \<Rightarrow> False | Some t \<Rightarrow> seconds \<le> now - t)"

definition round_end :: "look \<Rightarrow> rat \<Rightarrow> (Experiment, unit option) prog" where
  "round_end l now =
     t_bind (t_get (\<lambda>x. ex_node_exit x \<noteq> None \<or> lk_exited l)) (\<lambda>gone.
     t_bind (t_get ex_drained) (\<lambda>drained.
     if gone \<and> drained = None
     then t_raise (OSError ''ROS 2/relay exited before a complete status write and flush'')
     else t_bind (t_get (\<lambda>x. gone \<and> drained_since x now 5 \<or> drained_since x now 8)) (\<lambda>leave.
       t_ret (if leave then Some () else None))))"

definition experiment_round :: "bool \<Rightarrow> (Experiment, unit option) prog" where
  "experiment_round already_powered_on =
     t_bind (t_get b_clock) (\<lambda>now.
     t_bind (t_get (\<lambda>x. 660 \<le> now - ex_started x)) (\<lambda>late.
     if late then t_raise (TimeoutError ''Overall 660-second deadline'')
     else
       t_bind next_look (\<lambda>l.
       t_seq (t_check (\<not> lk_cancel l) (OSError ''Operator cancelled''))
       (t_seq (note_ready l)
       (t_seq (operator_stage already_powered_on l now)
       (t_seq (relay_read l)
       (t_seq (relay_events (lk_events l))
       (t_seq (t_when already_powered_on (authorize_powered_on l))
         (round_end l now)))))))))"

section \<open>The run\<close>

definition judge_experiment :: "Experiment \<Rightarrow> Experiment" where
  "judge_experiment x =
     (let valid = cap_status (b_capture x) \<noteq> None \<and> \<not> cap_post_nak (b_capture x) in
      x\<lparr>ex_status_valid := valid, ex_success := valid \<and> ex_node_exit x = Some 0\<rparr>)"

text \<open>\<open>launch\<close>: what starting the relay process raises, if anything.\<close>

definition experiment_body :: "bool \<Rightarrow> error option \<Rightarrow> (Experiment, unit) prog" where
  "experiment_body already_powered_on launch =
     t_seq (raise_if launch)
     (t_seq (t_modify (\<lambda>x. x\<lparr>ex_process := True\<rparr>))
     (t_seq port_create
     (t_seq port_open
     (t_seq (t_modify (\<lambda>x. x\<lparr>ex_port_closed := False\<rparr>))
     (t_seq initial_state
     (t_seq (t_loop (experiment_round already_powered_on))
       (t_modify judge_experiment)))))))"

text \<open>\<open>stubborn\<close>: the relay process has not ended even after \<^verbatim>\<open>terminate\<close>.\<close>

definition experiment_close :: "bool \<Rightarrow> (Experiment, unit) prog" where
  "experiment_close stubborn =
     t_seq (t_bind (t_get b_created) (\<lambda>created.
       t_when created
         (t_seq (t_catch port_close is_Exception (\<lambda>e. t_modify (\<lambda>x. x\<lparr>ex_close_error := Some e\<rparr>)))
           (t_modify (\<lambda>x. x\<lparr>ex_port_closed := \<not> b_open x\<rparr>)))))
     (t_seq (t_modify (\<lambda>x. x\<lparr>ex_relay_cleanup_error := ex_process x \<and> stubborn\<rparr>))
       (t_modify (\<lambda>x. if \<not> ex_port_closed x \<or> ex_error x \<noteq> None \<or> ex_relay_cleanup_error x
          then x\<lparr>ex_success := False\<rparr> else x)))"

text \<open>
  \<open>native\<close>: the host is a Windows; \<open>build\<close>: what checking the build evidence gives; \<open>inside\<close> and
  \<open>exists\<close>: the run directory is under the diagnostics, and is there already.
\<close>

definition run_experiment ::
  "bool \<Rightarrow> bool \<Rightarrow> bool \<Rightarrow> unit result \<Rightarrow> bool \<Rightarrow> bool \<Rightarrow> error option \<Rightarrow> bool \<Rightarrow> (Experiment, unit) prog"
where
  "run_experiment confirmed already_powered_on native build inside exists launch stubborn =
     (if \<not> confirmed then t_raise (ValueError ''Fresh direct-wiring/no-jumpers/closed-apps confirmation required'')
      else if \<not> native then t_raise (RuntimeError ''The physical COM7 owner must run natively on Windows'')
      else case build of
        Inl e \<Rightarrow> t_raise e
      | Inr _ \<Rightarrow>
          if \<not> inside then t_raise (ValueError ''Run directory must be under docs/diagnostics'')
          else if exists then t_raise (OSError ''File exists'')
          else
            t_finally
              (t_catch (experiment_body already_powered_on launch) (\<lambda>e. is_Exception e \<or> e = KeyboardInterrupt)
                 (\<lambda>e. t_modify (\<lambda>x. x\<lparr>ex_error := Some e\<rparr>)))
              (experiment_close stubborn))"

section \<open>The gate lets one request through\<close>

lemma gate_accept_cases:
  assumes "gate_accept data authorized g = (g', r)"
  shows "(gt_sent g' = gt_sent g \<and> (\<forall>p. r \<noteq> Inr (Some p))) \<or>
    (gt_sent g' \<and> \<not> gt_sent g \<and> authorized \<and> r = Inr (Some STATUS_REQUEST))"
proof -
  have "isprefix b STATUS_REQUEST \<Longrightarrow> length b = length STATUS_REQUEST \<Longrightarrow> b = STATUS_REQUEST" for b
    by (simp add: isprefix_def)
  then show ?thesis using assms by (auto simp: gate_accept_def Let_def split: if_splits)
qed

text \<open>Any sequence of writes of the driver: the packets let through.\<close>

fun gate_packets :: "(bytes \<times> bool) list \<Rightarrow> SingleStatusGate \<Rightarrow> bytes list" where
  "gate_packets [] g = []"
| "gate_packets ((data, authorized) # ws) g =
     (case gate_accept data authorized g of
        (g', Inr (Some p)) \<Rightarrow> p # gate_packets ws g'
      | (g', _) \<Rightarrow> gate_packets ws g')"

lemma gate_packets_sent: "gt_sent g \<Longrightarrow> gate_packets ws g = []"
proof (induction ws arbitrary: g)
  case (Cons w ws)
  obtain data authorized where w: "w = (data, authorized)" by (cases w)
  obtain g' r where g: "gate_accept data authorized g = (g', r)" by fastforce
  have "gt_sent g'" "\<And>p. r \<noteq> Inr (Some p)" using gate_accept_cases [OF g] Cons.prems by auto
  then show ?case using Cons.IH by (auto simp: w g split: sum.splits option.splits)
qed simp

lemma gate_packets_ok:
  "\<not> gt_sent g \<Longrightarrow> gate_packets ws g = [] \<or> gate_packets ws g = [STATUS_REQUEST]"
proof (induction ws arbitrary: g)
  case (Cons w ws)
  obtain data authorized where w: "w = (data, authorized)" by (cases w)
  obtain g' r where g: "gate_accept data authorized g = (g', r)" by fastforce
  from gate_accept_cases [OF g] consider
    "\<not> gt_sent g'" "\<And>p. r \<noteq> Inr (Some p)" | "gt_sent g'" "r = Inr (Some STATUS_REQUEST)"
    using Cons.prems by blast
  then show ?case
  proof cases
    case 1
    then show ?thesis using Cons.IH [of g'] by (auto simp: w g split: sum.splits option.splits)
  next
    case 2
    then show ?thesis by (simp add: w g gate_packets_sent)
  qed
qed simp

section \<open>The run\<close>

text \<open>Bytes read outside the answer window do not touch what is noted about the answer.\<close>

lemma note_frame_post: "note_frame frame cap = Inr c \<Longrightarrow> cap_post_ack c = cap_post_ack cap"
  by (auto simp: note_frame_def note_reply_def note_startup_def note_status_def Let_def try_bind_eq_Inr
      split: list.splits sum.splits option.splits prod.splits if_splits)

lemma process_post: "process ph es cap = Inr c \<Longrightarrow> ph \<noteq> Post_tx \<Longrightarrow> cap_post_ack c = cap_post_ack cap"
  by (induction ph es cap rule: process.induct)
    (auto simp: note_control_def try_bind_eq_Inr dest!: note_frame_post)

lemma fold_note_candidate_post [simp]: "cap_post_ack (fold note_candidate cs cap) = cap_post_ack cap"
  by (induction cs arbitrary: cap) simp_all

lemma take_bytes_post:
  "take_bytes ph framed data cap = Inr c \<Longrightarrow> ph \<noteq> Post_tx \<Longrightarrow> cap_post_ack c = cap_post_ack cap"
  by (auto simp: take_bytes_def Let_def dest!: process_post split: if_splits prod.splits)


lemma sound_mark_again: "sound framed cap \<Longrightarrow> \<not> cap_post_ack cap \<Longrightarrow> sound framed (mark_boundary cap)"
  by (auto simp: sound_def evidence_def mark_boundary_def startup_entry_def split: option.splits)

text \<open>
  What has to be there before the request: the driver is ready, and unless the scanner was on
  from the start, the operator's two markers, the first of them 65 seconds ago.
\<close>

definition may_trigger :: "look list \<Rightarrow> bool \<Rightarrow> Experiment \<Rightarrow> bool" where
  "may_trigger looks already x \<longleftrightarrow>
     (\<exists>l \<in> set looks. lk_ros_ready l) \<and>
     (already \<or> (\<exists>l \<in> set looks. lk_power_on l) \<and> (\<exists>l \<in> set looks. lk_startup_complete l) \<and>
        (\<exists>t. ex_power_on x = Some t \<and> t + 65 \<le> b_clock x))"

definition ex_noted :: "look list \<Rightarrow> bool \<Rightarrow> Experiment \<Rightarrow> bool" where
  "ex_noted looks already x \<longleftrightarrow>
     set (ex_looks x) \<subseteq> set looks \<and> \<not> ex_success x \<and> sound True (b_capture x) \<and>
     (ex_ready x \<longrightarrow> (\<exists>l \<in> set looks. lk_ros_ready l)) \<and>
     (ex_power_on x \<noteq> None \<longrightarrow> ex_ready x \<and> (\<exists>l \<in> set looks. lk_power_on l)) \<and>
     (ex_status_authorized x \<longrightarrow> may_trigger looks already x)"

text \<open>Before the request, and after it.\<close>

definition ex_stage :: "Experiment \<Rightarrow> bool" where
  "ex_stage x \<longleftrightarrow>
     (b_written x = [] \<and> \<not> gt_sent (ex_gate x) \<and> \<not> cap_post_ack (b_capture x)) \<or>
     (b_written x = [STATUS_REQUEST] \<and> gt_sent (ex_gate x) \<and> ex_status_authorized x)"

definition ex_running :: "look list \<Rightarrow> bool \<Rightarrow> rat \<Rightarrow> Experiment \<Rightarrow> bool" where
  "ex_running looks already now x \<longleftrightarrow> ex_noted looks already x \<and> ex_stage x \<and> now \<le> b_clock x"

definition ex_ok :: "look list \<Rightarrow> bool \<Rightarrow> Experiment \<Rightarrow> bool" where
  "ex_ok looks already x \<longleftrightarrow>
     sound True (b_capture x) \<and>
     (b_written x = [] \<or> b_written x = [STATUS_REQUEST] \<and> may_trigger looks already x) \<and>
     (ex_success x \<longrightarrow> cap_status (b_capture x) \<noteq> None \<and> \<not> cap_post_nak (b_capture x) \<and> ex_node_exit x = Some 0)"

lemma ex_running_ok: "ex_running looks already now x \<Longrightarrow> ex_ok looks already x"
  by (auto simp: ex_running_def ex_noted_def ex_stage_def ex_ok_def)

lemma may_trigger_later: "may_trigger looks already x \<Longrightarrow> b_clock x \<le> t \<Longrightarrow> may_trigger looks already (x\<lparr>b_clock := t\<rparr>)"
  unfolding may_trigger_def by (auto intro: order_trans)

lemma may_trigger_cong [simp]:
  "may_trigger looks already (x\<lparr>b_created := c\<rparr>) = may_trigger looks already x"
  "may_trigger looks already (x\<lparr>b_open := c\<rparr>) = may_trigger looks already x"
  "may_trigger looks already (x\<lparr>b_capture := k\<rparr>) = may_trigger looks already x"
  "may_trigger looks already (x\<lparr>b_written := w\<rparr>) = may_trigger looks already x"
  "may_trigger looks already (x\<lparr>ex_gate := g\<rparr>) = may_trigger looks already x"
  "may_trigger looks already (x\<lparr>ex_looks := ls\<rparr>) = may_trigger looks already x"
  "may_trigger looks already (x\<lparr>ex_ready := c\<rparr>) = may_trigger looks already x"
  "may_trigger looks already (x\<lparr>ex_relay_ready := c\<rparr>) = may_trigger looks already x"
  "may_trigger looks already (x\<lparr>ex_node_exit := n\<rparr>) = may_trigger looks already x"
  "may_trigger looks already (x\<lparr>ex_status_authorized := c\<rparr>) = may_trigger looks already x"
  "may_trigger looks already (x\<lparr>ex_startup_complete_confirmed := c\<rparr>) = may_trigger looks already x"
  "may_trigger looks already (x\<lparr>ex_write_count := i\<rparr>) = may_trigger looks already x"
  "may_trigger looks already (x\<lparr>ex_flush_completed := c, ex_drained := d\<rparr>) = may_trigger looks already x"
  "may_trigger looks already (x\<lparr>ex_error := e\<rparr>) = may_trigger looks already x"
  "may_trigger looks already (x\<lparr>ex_close_error := e\<rparr>) = may_trigger looks already x"
  "may_trigger looks already (x\<lparr>ex_port_closed := c\<rparr>) = may_trigger looks already x"
  "may_trigger looks already (x\<lparr>ex_relay_cleanup_error := c\<rparr>) = may_trigger looks already x"
  "may_trigger looks already (x\<lparr>ex_success := c\<rparr>) = may_trigger looks already x"
  "may_trigger looks already (x\<lparr>ex_process := c\<rparr>) = may_trigger looks already x"
  by (simp_all add: may_trigger_def)

interpretation ex_port: port_invariant "ex_running looks already now" for looks already now
  by unfold_locales
    (auto simp: ex_running_def ex_noted_def ex_stage_def may_trigger_later)

interpretation ex_end: port_invariant "ex_ok looks already" for looks already
  by unfold_locales (auto simp: ex_ok_def may_trigger_later)

lemma relay_read_ok: "t_keeps (ex_running looks already now) (relay_read l)"
proof -
  let ?J = "ex_running looks already now"
  have "t_ends (\<lambda>x. ?J x \<and> gt_sent (ex_gate x) = sent) (capture_read (if sent then Post_tx else Passive) True) ?J" for sent
  proof -
    have port: "t_keeps (\<lambda>x. ?J x \<and> gt_sent (ex_gate x) = sent) port_read"
      by (rule port_invariant.keeps_port, unfold_locales)
        (auto simp: ex_running_def ex_noted_def ex_stage_def may_trigger_later)
    show ?thesis
      unfolding capture_read_def
      by (rule t_ends_bind [OF t_ends_weaken [OF port] t_gives_ends [OF port]])
        (auto simp: t_ends_def capture_result_def ex_running_def ex_noted_def ex_stage_def
          dest: sound_step take_bytes_post split: sum.splits)
  qed
  note read = this
  have rest: "t_keeps ?J (t_bind (t_get (\<lambda>x. drop before (cap_raw (b_capture x)))) (\<lambda>received.
      t_when (received \<noteq> []) (raise_if (lk_pipe l))))" for before
    by (intro t_intros)
  have "t_ends (\<lambda>x. ?J x \<and> gt_sent (ex_gate x) = sent)
      (t_seq (capture_read (if sent then Post_tx else Passive) True)
        (t_bind (t_get (\<lambda>x. drop before (cap_raw (b_capture x)))) (\<lambda>received.
          t_when (received \<noteq> []) (raise_if (lk_pipe l))))) ?J" for sent before
    by (rule t_ends_seq [OF read t_gives_ends [OF read] rest])
  then show ?thesis by (simp add: relay_read_def t_ends_def)
qed

subsection \<open>The stages of a round\<close>

lemmas ex_defs = ex_running_def ex_noted_def ex_stage_def

lemma note_ready_ok: "l \<in> set looks \<Longrightarrow> t_keeps (ex_running looks already now) (note_ready l)"
  by (auto simp: t_ends_def note_ready_def t_when_def t_check_def t_seq_def t_bind_def ex_defs)

lemma mark_again_ok:
  "ex_running looks already now x \<Longrightarrow> \<not> ex_status_authorized x \<Longrightarrow>
   ex_running looks already now (x\<lparr>b_capture := mark_boundary (b_capture x)\<rparr>)"
  using sound_mark_again by (auto simp: ex_defs) (simp_all add: mark_boundary_def)

lemma authorize_ok:
  "ex_running looks already now x \<Longrightarrow> \<not> ex_status_authorized x \<Longrightarrow> may_trigger looks already x \<Longrightarrow>
   ex_running looks already now (x\<lparr>b_capture := mark_boundary (b_capture x), ex_status_authorized := True\<rparr>)"
  using sound_mark_again by (auto simp: ex_defs) (simp_all add: mark_boundary_def)

lemma note_power_on_ok:
  assumes "ex_running looks already now x" "l \<in> set looks"
  shows "ex_running looks already now (note_power_on l now x)"
proof (cases "ex_ready x \<and> ex_power_on x = None \<and> lk_power_on l")
  case True
  then have "ex_status_authorized x \<Longrightarrow> already" using assms(1) by (auto simp: ex_defs may_trigger_def)
  then show ?thesis using assms True by (auto simp: note_power_on_def ex_defs may_trigger_def)
qed (use assms in \<open>auto simp: note_power_on_def\<close>)

lemma confirm_startup_ok:
  "ex_running looks already now x \<Longrightarrow> ex_running looks already now (x\<lparr>ex_startup_complete_confirmed := c\<rparr>)"
  by (simp add: ex_defs)

lemma note_startup_complete_ok:
  assumes "l \<in> set looks"
  shows "t_keeps (ex_running looks already now) (note_startup_complete l now)"
proof (rule t_endsI)
  fix x ws out x' ws'
  assume x: "ex_running looks already now x" and run: "note_startup_complete l now x ws = (out, x', ws')"
  let ?x = "x\<lparr>ex_startup_complete_confirmed := True\<rparr>"
  let ?y = "?x\<lparr>b_capture := mark_boundary (b_capture ?x), ex_status_authorized := True\<rparr>"
  have due: "may_trigger looks already ?x" if "lk_startup_complete l" "powered_since ?x now 65"
    using x assms that
    by (auto simp: ex_defs may_trigger_def powered_since_def split: option.splits)
  have "x' = x \<or> x' = ?x \<or>
      x' = ?y \<and> lk_startup_complete l \<and> powered_since ?x now 65 \<and> \<not> ex_status_authorized ?x"
    using run
    by (auto simp: note_startup_complete_def t_when_def t_check_def on_capture_def t_seq_def t_bind_def
        powered_since_def split: if_splits)
  then show "ex_running looks already now x'"
    using x confirm_startup_ok [OF x] authorize_ok [OF confirm_startup_ok [OF x] _ due] by blast
qed

lemma operator_stage_ok: "l \<in> set looks \<Longrightarrow> t_keeps (ex_running looks already now) (operator_stage already l now)"
  unfolding operator_stage_def
  by (intro t_intros note_startup_complete_ok) (auto intro: note_power_on_ok)

lemma authorize_powered_on_ok:
  "t_keeps (ex_running looks already now) (t_when already (authorize_powered_on l))"
proof (rule t_endsI)
  fix x ws out x' ws'
  assume x: "ex_running looks already now x" and run: "t_when already (authorize_powered_on l) x ws = (out, x', ws')"
  let ?m = "x\<lparr>b_capture := mark_boundary (b_capture x)\<rparr>"
  have "x' = x \<or> \<not> ex_status_authorized x \<and> x' = ?m \<or>
      already \<and> ex_ready x \<and> \<not> ex_status_authorized x \<and> x' = ?m\<lparr>ex_status_authorized := True\<rparr>"
    using run
    by (auto simp: authorize_powered_on_def t_when_def t_check_def on_capture_def t_seq_def t_bind_def split: if_splits)
  moreover have "may_trigger looks already x" if "already" "ex_ready x"
    using x that by (auto simp: ex_defs may_trigger_def)
  ultimately show "ex_running looks already now x'"
    using x mark_again_ok [OF x] authorize_ok [OF x] by blast
qed

text \<open>The driver's bytes.\<close>

lemma experiment_send_ok:
  "t_ends (\<lambda>x. ex_running looks already now (x\<lparr>b_written := b_written x @ [STATUS_REQUEST]\<rparr>))
     (experiment_send STATUS_REQUEST) (ex_running looks already now)"
proof -
  let ?J = "ex_running looks already now"
  have "t_keeps ?J (t_bind next_wire (\<lambda>w. t_seq (raise_if (w_error w)) (t_ret (w_count w))))"
    by (intro t_intros ex_port.keeps_next)
  then have send: "t_ends (\<lambda>x. ?J (x\<lparr>b_written := b_written x @ [STATUS_REQUEST]\<rparr>)) (port_write STATUS_REQUEST) ?J"
    by (auto simp: port_write_def t_ends_def)
  show ?thesis
    unfolding experiment_send_def
    by (rule t_ends_bind [OF send t_gives_ends [OF send]])
      (intro t_intros ex_port.keeps_port, auto simp: ex_defs)
qed

lemma gate_update_ok:
  assumes "ex_running looks already now x" "gate_accept data (ex_status_authorized x \<and> seen) (ex_gate x) = (g, r)"
  shows "(\<forall>p. r \<noteq> Inr (Some p)) \<and> ex_running looks already now (x\<lparr>ex_gate := g\<rparr>) \<or>
    r = Inr (Some STATUS_REQUEST) \<and>
    ex_running looks already now (x\<lparr>ex_gate := g, b_capture := mark_boundary (b_capture x),
      b_written := b_written x @ [STATUS_REQUEST]\<rparr>)"
proof -
  have "ex_running looks already now (x\<lparr>ex_gate := g\<rparr>)" if "gt_sent g = gt_sent (ex_gate x)"
    using assms(1) that by (auto simp: ex_defs)
  moreover have "ex_running looks already now (x\<lparr>ex_gate := g, b_capture := mark_boundary (b_capture x),
      b_written := b_written x @ [STATUS_REQUEST]\<rparr>)"
    if "gt_sent g" "\<not> gt_sent (ex_gate x)" "ex_status_authorized x"
    using assms(1) that sound_mark_again by (auto simp: ex_defs)
  ultimately show ?thesis using gate_accept_cases [OF assms(2)] by auto
qed

lemma node_wrote_ok: "t_keeps (ex_running looks already now) (node_wrote digits seen)"
proof (rule t_endsI)
  fix x ws out x' ws'
  assume x: "ex_running looks already now x" and run: "node_wrote digits seen x ws = (out, x', ws')"
  show "ex_running looks already now x'"
  proof (cases "fromhex digits")
    case (Inl e)
    then show ?thesis using x run by (simp add: node_wrote_def)
  next
    case (Inr data)
    obtain g r where g: "gate_accept data (ex_status_authorized x \<and> seen) (ex_gate x) = (g, r)" by fastforce
    let ?m = "x\<lparr>ex_gate := g, b_capture := mark_boundary (b_capture x)\<rparr>"
    from gate_update_ok [OF x g] consider
      "\<forall>p. r \<noteq> Inr (Some p)" "ex_running looks already now (x\<lparr>ex_gate := g\<rparr>)" |
      "r = Inr (Some STATUS_REQUEST)" "ex_running looks already now (?m\<lparr>b_written := b_written ?m @ [STATUS_REQUEST]\<rparr>)"
      by auto
    then show ?thesis
    proof cases
      case 1
      then show ?thesis using run g Inr by (auto simp: node_wrote_def split: sum.splits option.splits)
    next
      case 2
      then have "experiment_send STATUS_REQUEST ?m ws = (out, x', ws')"
        using run g Inr by (simp add: node_wrote_def on_capture_def)
      from t_endsD [OF experiment_send_ok _ this] 2(2) show ?thesis .
    qed
  qed
qed

lemma handle_event_ok: "t_keeps (ex_running looks already now) (handle_event e)"
proof (cases e)
  case (Node_tx digits seen)
  then show ?thesis by (simp add: node_wrote_ok)
qed (auto simp: t_ends_def ex_defs)

lemma relay_events_ok: "t_keeps (ex_running looks already now) (relay_events es)"
proof (induction es)
  case Nil
  show ?case unfolding relay_events_def foldr.simps id_apply by (rule t_intros)
next
  case (Cons e es)
  then show ?case
    unfolding relay_events_def foldr.simps comp_apply by (intro t_intros handle_event_ok)
qed

lemma round_end_ok: "t_keeps (ex_running looks already now) (round_end l now')"
  unfolding round_end_def by (intro t_intros)


lemma next_look_ok:
  "t_keeps (ex_running looks already now) next_look"
  "t_gives (ex_running looks already now) next_look (\<lambda>l x. l \<in> set looks \<and> ex_running looks already now x)"
  by (auto simp: t_ends_def t_gives_def next_look_def ex_defs split: list.splits)

definition ex_live :: "look list \<Rightarrow> bool \<Rightarrow> Experiment \<Rightarrow> bool" where
  "ex_live looks already x \<longleftrightarrow> ex_running looks already (b_clock x) x"

lemma experiment_round_ok: "t_keeps (ex_live looks already) (experiment_round already)"
proof -
  let ?J = "ex_running looks already"
  let ?steps = "\<lambda>now l. t_seq (t_check (\<not> lk_cancel l) (OSError ''Operator cancelled''))
       (t_seq (note_ready l)
       (t_seq (operator_stage already l now)
       (t_seq (relay_read l)
       (t_seq (relay_events (lk_events l))
       (t_seq (t_when already (authorize_powered_on l))
         (round_end l now))))))"
  have "t_keeps (?J now) (?steps now l)" if "l \<in> set looks" for now l
    using that
    by (intro t_intros note_ready_ok operator_stage_ok relay_read_ok relay_events_ok authorize_powered_on_ok round_end_ok)
  then have steps: "t_ends (\<lambda>x. l \<in> set looks \<and> ?J now x) (?steps now l) (?J now)" for now l
    by (auto simp: t_ends_def)
  have "t_keeps (?J now) (t_bind next_look (?steps now))" for now
    by (rule t_ends_bind [OF next_look_ok steps])
  moreover have "ex_live looks already x" if "?J now x" for now x
    using that by (simp add: ex_running_def ex_live_def)
  ultimately have round: "ex_live looks already (fst (snd (t_bind next_look (?steps (b_clock x)) x ws)))"
    if "ex_live looks already x" for x ws
    using that unfolding t_ends_def ex_live_def by blast
  show ?thesis
    unfolding t_ends_def using round by (simp add: experiment_round_def)
qed

text \<open>At the end.\<close>

lemma ex_live_ok: "ex_live looks already x \<Longrightarrow> ex_ok looks already x"
  unfolding ex_live_def by (rule ex_running_ok)

lemma judge_ok: "ex_live looks already x \<Longrightarrow> ex_ok looks already (judge_experiment x)"
  by (auto simp: ex_live_def ex_defs ex_ok_def judge_experiment_def Let_def may_trigger_def)

interpretation ex_live: port_invariant "ex_live looks already" for looks already
  by unfold_locales (auto simp: ex_live_def ex_defs may_trigger_later)

lemma experiment_body_ok: "t_ends (ex_live looks already) (experiment_body already launch) (ex_ok looks already)"
proof -
  let ?J = "ex_live looks already"
  have loop: "t_keeps ?J (t_loop (experiment_round already))"
    by (intro t_intros experiment_round_ok)
  have last: "t_ends ?J (t_seq (t_loop (experiment_round already)) (t_modify judge_experiment)) (ex_ok looks already)"
    by (rule t_ends_seq [OF t_ends_weaken [OF loop] t_gives_ends [OF loop]])
      (auto simp: t_ends_def judge_ok intro: ex_live_ok)
  have step: "t_ends ?J (t_seq m n) (ex_ok looks already)"
    if "t_keeps ?J m" "t_ends ?J n (ex_ok looks already)" for m n
    by (rule t_ends_seq [OF t_ends_weaken [OF that(1)] t_gives_ends [OF that(1)] that(2)]) (auto intro: ex_live_ok)
  have flags: "t_keeps ?J (t_modify (\<lambda>x. x\<lparr>ex_process := c\<rparr>))" "t_keeps ?J (t_modify (\<lambda>x. x\<lparr>ex_port_closed := c\<rparr>))" for c
    by (auto simp: t_ends_def ex_live_def ex_defs)
  show ?thesis
    unfolding experiment_body_def
    by (intro step last flags ex_live.keeps_port ex_live.keeps_initial_state t_keeps_atoms)
qed

lemma experiment_close_ok: "t_keeps (ex_ok looks already) (experiment_close stubborn)"
  unfolding experiment_close_def
  by (intro t_intros ex_end.keeps_port) (auto simp: ex_ok_def)

lemma run_experiment_ok:
  "t_ends (ex_live looks already)
     (run_experiment True already True (Inr ()) True False launch stubborn) (ex_ok looks already)"
  unfolding run_experiment_def
  by (auto intro!: t_ends_finally t_ends_catch experiment_body_ok experiment_close_ok t_intros simp: ex_ok_def)

lemma run_experiment_refused:
  assumes "\<not> (confirmed \<and> native \<and> build = Inr () \<and> inside \<and> \<not> exists')"
  shows "\<exists>e. run_experiment confirmed already native build inside exists' launch stubborn x ws = (Exn e, x, ws)"
  using assms by (cases build) (auto simp: run_experiment_def)

section \<open>Properties\<close>

text \<open>
  Whatever the driver writes, and whenever it is allowed to, the gate lets at most one
  packet through, and that packet is the status request.
\<close>

theorem gate_passes_one_request:
  "gate_packets writes new_gate = [] \<or> gate_packets writes new_gate = [STATUS_REQUEST]"
  by (rule gate_packets_ok) (simp add: new_gate_def)

lemma experiment_sent:
  assumes "run_experiment confirmed already native build inside exists' launch stubborn
      (new_experiment already now looks) ws = (out, x, ws')"
  shows "(b_written x = [] \<or>
      b_written x = [STATUS_REQUEST] \<and> confirmed \<and> build = Inr () \<and> may_trigger looks already x) \<and>
    (ex_success x \<longrightarrow> ex_node_exit x = Some 0 \<and> \<not> cap_post_nak (b_capture x) \<and>
       (\<exists>n. cap_status (b_capture x) = Some n \<and> status_entry (b_capture x) n))"
proof (cases "confirmed \<and> native \<and> build = Inr () \<and> inside \<and> \<not> exists'")
  case True
  have "ex_live looks already (new_experiment already now looks)"
    by (simp add: ex_live_def ex_defs new_experiment_def sound_new new_gate_def) (simp add: new_capture_def)
  with True assms t_endsD [OF run_experiment_ok] have ok: "ex_ok looks already x" by simp
  then have "cap_status (b_capture x) = Some n \<Longrightarrow> status_entry (b_capture x) n" for n
    using sound_entries(2) by (auto simp: ex_ok_def)
  with ok True show ?thesis by (auto simp: ex_ok_def)
next
  case False
  with run_experiment_refused [of confirmed native build inside exists' already launch stubborn] assms
  have "x = new_experiment already now looks" by (metis prod.inject)
  then show ?thesis by (simp add: new_experiment_def)
qed


text \<open>A scanner that is on: the driver gets ready, writes its request in two parts and exits.\<close>

definition quiet_look :: look where
  "quiet_look = \<lparr>lk_cancel = False, lk_ros_ready = True, lk_ready_exists = False, lk_power_on = False,
     lk_startup_complete = False, lk_trigger_exists = False, lk_pipe = None, lk_events = [], lk_exited = False\<rparr>"

definition example_looks :: "look list" where
  "example_looks =
     [quiet_look\<lparr>lk_events := [Relay_ready]\<rparr>, quiet_look,
      quiet_look\<lparr>lk_events := [Node_tx ''02 00 01'' True, Node_tx ''00311512'' True, Node_exit 0]\<rparr>,
      quiet_look, quiet_look]"

definition example_wires :: "wire list" where
  "example_wires =
     [fine_wire 1, fine_wire 1, fine_wire 1, fine_wire 1, fine_wire 1, fine_wire 1, fine_wire 1,
      fine_wire 2, fine_wire 3, fine_wire 4, (fine_wire 4)\<lparr>w_count := 7\<rparr>, fine_wire 4, fine_wire 4,
      fine_wire 12, fine_wire 13, fine_wire 14]"


lemmas experiment_defs = run_experiment_def experiment_body_def experiment_round_def note_ready_def
  operator_stage_def note_power_on_def note_startup_complete_def relay_read_def experiment_send_def
  node_wrote_def relay_events_def authorize_powered_on_def round_end_def drained_since_def
  judge_experiment_def experiment_close_def next_look_def gate_accept_def new_gate_def new_experiment_def
  new_capture_def on_capture_def mark_boundary_def STATUS_REQUEST_def isprefix_def

lemma example_hex: "fromhex ''02 00 01'' = Inr [2, 0, 1]" "fromhex ''00311512'' = Inr [0, 0x31, 0x15, 0x12]"
  by code_simp+


end
