(* ===== verification/Commissioning.thy ===== *)
theory Commissioning
  imports Diagnostic_Properties Status_Experiment
begin

text \<open>
  The command lines of the diagnostic tools: \<^verbatim>\<open>main\<close> of \<^verbatim>\<open>hardware_diagnostic.py\<close> and of
  \<^verbatim>\<open>ros2_status_experiment.py\<close>, with the check of the build evidence and the paths for the relay.
  Argument parsing is the library's; a command line is the record of its values, and what an
  operator does later (a marker file, the return key) a function of the time.
\<close>

section \<open>The hardware diagnostic\<close>

record Diag_Args =
  da_command :: string
  da_attempts :: int
  da_confirm_repeated :: bool
  da_power_on_file :: "string option"
  da_startup_complete_file :: string
  da_confirm_direct :: bool
  da_confirm_loopback :: bool

text \<open>\<open>Diagnose\<close>: the confirmations that \<^verbatim>\<open>run_diagnostic\<close> is to ask for.\<close>

datatype diag_plan =
    Usage string
  | List_ports
  | Repeat
  | Diagnose "(rat \<Rightarrow> bool) option" "(rat \<Rightarrow> bool) option"

text \<open>
  \<open>there t path\<close>: the file exists at time \<open>t\<close>; \<open>answered\<close>: the operator has pressed the return
  key; \<open>tty\<close>: the input is a terminal.
\<close>

definition plan_power ::
  "(rat \<Rightarrow> string \<Rightarrow> bool) \<Rightarrow> bool \<Rightarrow> (rat \<Rightarrow> bool) \<Rightarrow> rat \<Rightarrow> string option \<Rightarrow> (rat \<Rightarrow> bool) option \<Rightarrow> diag_plan"
where
  "plan_power there tty answered now file finished =
     (case file of
        Some path \<Rightarrow>
          if there now path
          then Usage ''Power-on confirmation file must not already exist; use a fresh path''
          else Diagnose (Some (\<lambda>t. there t path)) finished
      | None \<Rightarrow>
          if \<not> tty then Usage ''Interactive startup capture needs a terminal or --power-on-file''
          else Diagnose (Some answered) finished)"

definition diagnostic_plan ::
  "(rat \<Rightarrow> string \<Rightarrow> bool) \<Rightarrow> (string \<Rightarrow> string) \<Rightarrow> bool \<Rightarrow> (rat \<Rightarrow> bool) \<Rightarrow> rat \<Rightarrow> Diag_Args \<Rightarrow> diag_plan"
where
  "diagnostic_plan there resolve tty answered now a =
     (if da_command a = ''status-repeat''
      then if da_confirm_repeated a then Repeat
           else Usage ''Repeated status requests require --confirm-repeated-status''
      else if da_command a = ''ports'' then List_ports
      else if da_command a = ''loopback'' \<and> \<not> da_confirm_loopback a
      then Usage ''Before loopback: scanner powered off''
      else if da_command a = ''direct-test''
      then
        let finish = da_startup_complete_file a in
        if \<not> da_confirm_direct a
        then Usage ''All six physical direct-connection conditions must be explicitly confirmed''
        else if there now finish then Usage ''Startup-complete confirmation file must not already exist''
        else if Some (resolve finish) = map_option resolve (da_power_on_file a)
        then Usage ''Power-on and startup-complete confirmations require distinct fresh files''
        else plan_power there tty answered now (da_power_on_file a) (Some (\<lambda>t. there t finish))
      else if da_command a = ''listen-startup''
      then plan_power there tty answered now (da_power_on_file a) None
      else Diagnose None None)"

datatype tool_end = Tool_exit int | Tool_raised error | Tool_running

definition tool_end :: "unit ending \<Rightarrow> bool \<Rightarrow> tool_end" where
  "tool_end e success =
     (case e of
        Value _ \<Rightarrow> Tool_exit (if success then 0 else 1)
      | Exn e \<Rightarrow> Tool_raised e
      | Unfinished \<Rightarrow> Tool_running)"

text \<open>What was written to the port, and how the program ends.\<close>

definition diagnostic_main ::
  "(rat \<Rightarrow> string \<Rightarrow> bool) \<Rightarrow> (string \<Rightarrow> string) \<Rightarrow> bool \<Rightarrow> (rat \<Rightarrow> bool) \<Rightarrow> rat \<Rightarrow> bool \<Rightarrow> Diag_Args \<Rightarrow> wire list \<Rightarrow>
   bytes list \<times> tool_end"
where
  "diagnostic_main there resolve tty answered now log_exists a ws =
     (case diagnostic_plan there resolve tty answered now a of
        Usage reason \<Rightarrow> ([], Tool_exit 2)
      | List_ports \<Rightarrow> ([], Tool_exit 0)
      | Repeat \<Rightarrow>
          (case run_status_repeat (da_attempts a) (da_confirm_repeated a) log_exists (new_repetition now) ws of
             (e, r, _) \<Rightarrow> (b_written r, tool_end e (rp_success r)))
      | Diagnose powered finished \<Rightarrow>
          (case run_diagnostic (da_command a) powered (da_confirm_loopback a) (da_confirm_direct a) finished
                  (new_diagnostic now) ws of
             (e, d, _) \<Rightarrow> (b_written d, tool_end e (dg_success d))))"

section \<open>The driver experiment\<close>

text \<open>An entry of the build evidence: the file, its digest and its size.\<close>

record evidence_file =
  ev_path :: string
  ev_sha256 :: string
  ev_size :: nat

text \<open>
  \<open>inside\<close>: the resolved path is in the repository; \<open>content\<close>: the bytes of a file, if it can be
  read; \<open>digest\<close>: the library's SHA-256.
\<close>

fun check_files ::
  "(string \<Rightarrow> bool) \<Rightarrow> (string \<Rightarrow> bytes option) \<Rightarrow> (bytes \<Rightarrow> string) \<Rightarrow> evidence_file list \<Rightarrow> unit result"
where
  "check_files inside content digest [] = Inr ()"
| "check_files inside content digest (f # fs) =
     (if \<not> inside (ev_path f) then Inl (ValueError ''Build manifest path escapes repository'')
      else case content (ev_path f) of
        None \<Rightarrow> Inl (OSError ''No such file or directory'')
      | Some data \<Rightarrow>
          if digest data \<noteq> ev_sha256 f \<or> length data \<noteq> ev_size f
          then Inl (ValueError (''Build input/artifact changed: '' @ ev_path f))
          else check_files inside content digest fs)"

text \<open>\<^verbatim>\<open>verify_build\<close>; \<open>manifest\<close>: what reading and parsing the evidence gives.\<close>

definition verify_build ::
  "(string \<Rightarrow> bool) \<Rightarrow> (string \<Rightarrow> bytes option) \<Rightarrow> (bytes \<Rightarrow> string) \<Rightarrow> evidence_file list result \<Rightarrow> unit result"
where
  "verify_build inside content digest manifest = try_bind manifest (check_files inside content digest)"

definition lower_ascii :: "char \<Rightarrow> char" where
  "lower_ascii c = (let n = (of_char c :: nat) in if 65 \<le> n \<and> n \<le> 90 then char_of (n + 32) else c)"

text \<open>\<^verbatim>\<open>wsl_path\<close>, from the drive and the POSIX text of the resolved path.\<close>

definition wsl_path :: "string \<Rightarrow> string \<Rightarrow> string result" where
  "wsl_path drive posix =
     (if drive = [] \<or> hd drive = CHR 0x5C then Inl (ValueError ''Expected a local Windows drive path'')
      else Inr (''/mnt/'' @ [lower_ascii (hd drive)] @ drop 2 posix))"

text \<open>Starting the relay: both paths, then the process.\<close>

definition relay_launch :: "string \<times> string \<Rightarrow> string \<times> string \<Rightarrow> error option \<Rightarrow> error option" where
  "relay_launch script run_dir spawn =
     (case (wsl_path (fst script) (snd script), wsl_path (fst run_dir) (snd run_dir)) of
        (Inl e, _) \<Rightarrow> Some e
      | (_, Inl e) \<Rightarrow> Some e
      | _ \<Rightarrow> spawn)"

record Ros_Args =
  ra_run :: bool
  ra_log_dir :: bool
  ra_off :: bool
  ra_on :: bool

text \<open>\<^verbatim>\<open>main\<close>; the two checklists exclude each other in the parser.\<close>

definition experiment_tool ::
  "bool \<Rightarrow> unit result \<Rightarrow> bool \<Rightarrow> bool \<Rightarrow> error option \<Rightarrow> bool \<Rightarrow> look list \<Rightarrow> rat \<Rightarrow> Ros_Args \<Rightarrow> wire list \<Rightarrow>
   bytes list \<times> tool_end"
where
  "experiment_tool native build inside exists' launch stubborn looks now a ws =
     (if ra_off a \<and> ra_on a then ([], Tool_exit 2)
      else if \<not> ra_run a then ([], case build of Inl e \<Rightarrow> Tool_raised e | Inr _ \<Rightarrow> Tool_exit 0)
      else if \<not> ra_log_dir a then ([], Tool_exit 2)
      else
        case run_experiment (ra_off a \<or> ra_on a) (ra_on a) native build inside exists' launch stubborn
               (new_experiment (ra_on a) now looks) ws of
          (e, x, _) \<Rightarrow> (b_written x, tool_end e (ex_success x)))"

section \<open>Properties\<close>

lemma plan_power_Diagnose:
  "plan_power there tty answered now file finished = Diagnose p f \<Longrightarrow>
     f = finished \<and> (\<forall>path. file = Some path \<longrightarrow> \<not> there now path \<and> p = Some (\<lambda>t. there t path))"
  by (auto simp: plan_power_def split: option.splits if_splits)

lemma plan_power_not_Repeat [simp]: "plan_power there tty answered now file finished \<noteq> Repeat"
  by (simp add: plan_power_def split: option.split)

lemma diagnostic_plan_Repeat:
  "diagnostic_plan there resolve tty answered now a = Repeat \<Longrightarrow> da_command a = ''status-repeat'' \<and> da_confirm_repeated a"
  by (auto simp: diagnostic_plan_def Let_def split: if_splits)

lemma diagnostic_plan_Diagnose:
  assumes "diagnostic_plan there resolve tty answered now a = Diagnose p f"
  shows "da_command a \<noteq> ''status-repeat''" "da_command a = ''loopback'' \<Longrightarrow> da_confirm_loopback a"
    "da_command a = ''direct-test'' \<Longrightarrow> da_confirm_direct a \<and> \<not> there now (da_startup_complete_file a) \<and>
       f = Some (\<lambda>t. there t (da_startup_complete_file a)) \<and>
       (\<forall>path. da_power_on_file a = Some path \<longrightarrow>
          \<not> there now path \<and> p = Some (\<lambda>t. there t path) \<and> resolve path \<noteq> resolve (da_startup_complete_file a))"
  using assms by (auto simp: diagnostic_plan_def Let_def split: if_splits dest!: plan_power_Diagnose)

lemma diagnostic_mode_name:
  "diagnostic_mode name = Some Loopback \<longleftrightarrow> name = ''loopback''"
  "diagnostic_mode name = Some Direct_test \<longleftrightarrow> name = ''direct-test''"
  "diagnostic_mode name = Some Status_mode \<longleftrightarrow> name = ''status''"
  by (auto simp: diagnostic_mode_def)

text \<open>What the command line allows to be sent.\<close>

definition cleared_to_send :: "(rat \<Rightarrow> string \<Rightarrow> bool) \<Rightarrow> (string \<Rightarrow> string) \<Rightarrow> rat \<Rightarrow> Diag_Args \<Rightarrow> bytes list \<Rightarrow> bool" where
  "cleared_to_send there resolve now a sent \<longleftrightarrow>
     da_command a = ''status'' \<and> sent = [STATUS_REQUEST] \<or>
     da_command a = ''loopback'' \<and> da_confirm_loopback a \<and> sent = [LOOPBACK_PATTERN] \<or>
     da_command a = ''status-repeat'' \<and> da_confirm_repeated a \<and>
       (\<exists>n. int n \<le> min 10 (da_attempts a) \<and> sent = replicate n STATUS_REQUEST) \<or>
     da_command a = ''direct-test'' \<and> da_confirm_direct a \<and> sent = [STATUS_REQUEST] \<and>
       \<not> there now (da_startup_complete_file a) \<and> (\<exists>t. there t (da_startup_complete_file a)) \<and>
       (\<forall>path. da_power_on_file a = Some path \<longrightarrow>
          \<not> there now path \<and> (\<exists>t. there t path) \<and> resolve path \<noteq> resolve (da_startup_complete_file a))"

text \<open>
  C30: the hardware diagnostic as it is called sends nothing, or exactly what its command line
  stands for: one status request for \<^verbatim>\<open>status\<close>; the loopback pattern, or up to ten and at most
  the asked number of status requests, only with the confirmation of each; and one status
  request for the direct test only if the connection was confirmed and the two marker files,
  which differ, were not there at the start and have been created since.
\<close>

theorem diagnostic_tool_sends_as_cleared:
  assumes "diagnostic_main there resolve tty answered now log_exists a ws = (sent, e)"
  shows "sent = [] \<or> cleared_to_send there resolve now a sent"
proof (cases "diagnostic_plan there resolve tty answered now a")
  case Repeat
  obtain out r ws' where run: "run_status_repeat (da_attempts a) (da_confirm_repeated a) log_exists (new_repetition now) ws = (out, r, ws')"
    using prod_cases3 by blast
  then have sent: "sent = b_written r" using assms Repeat by (simp add: diagnostic_main_def)
  note plan = diagnostic_plan_Repeat [OF Repeat]
  have r: "b_written r = replicate (length (rp_attempts r)) STATUS_REQUEST"
    "length (rp_attempts r) \<le> 10" "int (length (rp_attempts r)) \<le> max 0 (da_attempts a)"
    using status_repeat_is_bounded [OF run] plan by simp_all
  show ?thesis
  proof (cases "rp_attempts r = []")
    case True
    then show ?thesis using r(1) sent by simp
  next
    case False
    then have "int (length (rp_attempts r)) \<le> min 10 (da_attempts a)"
      using r(2,3) by (cases "0 \<le> da_attempts a") (auto simp: max_def)
    then show ?thesis unfolding sent cleared_to_send_def using r(1) plan by blast
  qed
next
  case (Diagnose p f)
  obtain out d ws' where run: "run_diagnostic (da_command a) p (da_confirm_loopback a) (da_confirm_direct a) f
      (new_diagnostic now) ws = (out, d, ws')"
    using prod_cases3 by blast
  then have sent: "sent = b_written d" using assms Diagnose by (simp add: diagnostic_main_def)
  note plan = diagnostic_plan_Diagnose [OF Diagnose]
  from diagnostic_sent [OF run] show ?thesis
  proof (elim disjE exE conjE)
    fix mode
    assume mode: "diagnostic_mode (da_command a) = Some mode" "b_written d = [request_of mode]" "mode \<noteq> Listen_startup"
      "mode = Loopback \<longrightarrow> da_confirm_loopback a"
      "mode = Direct_test \<longrightarrow> da_confirm_direct a \<and>
        (\<exists>confirmation t. p = Some confirmation \<and> confirmation t \<and> t + 65 \<le> b_clock d) \<and>
        (\<exists>confirmation t. f = Some confirmation \<and> confirmation t)"
    show ?thesis
    proof (cases mode)
      case Direct_test
      then have c: "da_command a = ''direct-test''" using mode(1) by (simp add: diagnostic_mode_name)
      with plan(3) mode(5) Direct_test show ?thesis
        unfolding sent mode(2) cleared_to_send_def by (auto simp: request_of_def)
    qed (use mode sent in \<open>auto simp: diagnostic_mode_name cleared_to_send_def request_of_def\<close>)
  qed (simp add: sent)
qed (use assms in \<open>simp_all add: diagnostic_main_def\<close>)

definition loopback_args :: Diag_Args where
  "loopback_args = \<lparr>da_command = ''loopback'', da_attempts = 10, da_confirm_repeated = False, da_power_on_file = None,
     da_startup_complete_file = [], da_confirm_direct = False, da_confirm_loopback = True\<rparr>"

theorem diagnostic_tool_sends_as_cleared_witness:
  "diagnostic_main (\<lambda>t path. False) id True (\<lambda>t. False) 0 False loopback_args loopback_wires =
     ([LOOPBACK_PATTERN], Tool_exit 0) \<and>
   cleared_to_send (\<lambda>t path. False) id 0 loopback_args [LOOPBACK_PATTERN]"
proof -
  obtain d where d: "run_diagnostic ''loopback'' None True False None (new_diagnostic 0) loopback_wires = (Value (), d, [])"
    "dg_success d" "b_written d \<noteq> []" using loopback_run by blast
  then have main: "diagnostic_main (\<lambda>t path. False) id True (\<lambda>t. False) 0 False loopback_args loopback_wires =
      (b_written d, Tool_exit 0)"
    by (simp add: diagnostic_main_def diagnostic_plan_def loopback_args_def tool_end_def)
  from diagnostic_tool_sends_as_cleared [OF main] d(3)
  have "cleared_to_send (\<lambda>t path. False) id 0 loopback_args (b_written d)" by simp
  moreover from this have "b_written d = [LOOPBACK_PATTERN]" by (simp add: cleared_to_send_def loopback_args_def)
  ultimately show ?thesis using main by simp
qed

lemma check_files_Inr:
  "check_files inside content digest fs = Inr u \<longleftrightarrow>
     (\<forall>f \<in> set fs. inside (ev_path f) \<and>
        (\<exists>data. content (ev_path f) = Some data \<and> digest data = ev_sha256 f \<and> length data = ev_size f))"
  by (induction fs) (auto split: option.split)

text \<open>
  The driver experiment writes to the port only when it was called to run with one of its two
  checklists, and when every file that the build evidence lists is in the repository and has
  the size and the digest listed; then it writes one status request.
\<close>

theorem experiment_needs_verified_build:
  assumes "experiment_tool native (verify_build inside content digest manifest) below exists' launch stubborn looks now a ws = (sent, e)"
    and "sent \<noteq> []"
  shows "sent = [STATUS_REQUEST] \<and> ra_run a \<and> ra_off a \<noteq> ra_on a \<and>
    (\<exists>fs. manifest = Inr fs \<and> (\<forall>f \<in> set fs. inside (ev_path f) \<and>
       (\<exists>data. content (ev_path f) = Some data \<and> digest data = ev_sha256 f \<and> length data = ev_size f)))"
proof -
  let ?build = "verify_build inside content digest manifest"
  have flags: "\<not> (ra_off a \<and> ra_on a)" "ra_run a" using assms by (auto simp: experiment_tool_def split: if_splits)
  obtain out x ws' where run: "run_experiment (ra_off a \<or> ra_on a) (ra_on a) native ?build below exists' launch stubborn
      (new_experiment (ra_on a) now looks) ws = (out, x, ws')"
    using prod_cases3 by blast
  then have "sent = b_written x" using assms flags by (simp add: experiment_tool_def split: if_splits)
  with experiment_sent [OF run] assms(2)
  have "sent = [STATUS_REQUEST]" "ra_off a \<or> ra_on a" "?build = Inr ()" by auto
  then show ?thesis
    using flags by (auto simp: verify_build_def try_bind_eq_Inr check_files_Inr)
qed

theorem experiment_needs_verified_build_witness:
  "experiment_tool True (verify_build (\<lambda>p. True) (\<lambda>p. Some [1]) (\<lambda>data. ''d'')
      (Inr [\<lparr>ev_path = ''node.cpp'', ev_sha256 = ''d'', ev_size = 1\<rparr>])) True False None False example_looks 0
      \<lparr>ra_run = True, ra_log_dir = True, ra_off = False, ra_on = True\<rparr> example_wires = ([STATUS_REQUEST], Tool_exit 1)"
  (is "experiment_tool _ ?build _ _ _ _ _ _ ?args _ = _")
proof -
  have build: "?build = Inr ()" by (simp add: verify_build_def)
  obtain x where x: "run_experiment True True True (Inr ()) True False None False (new_experiment True 0 example_looks)
       example_wires = (Value (), x, [])" "b_written x \<noteq> []" "\<not> ex_success x"
    by (simp add: experiment_defs example_looks_def quiet_look_def example_wires_def fine_wire_def example_hex
        tool_steps Let_def del: fromhex.simps)
  then have "experiment_tool True ?build True False None False example_looks 0 ?args example_wires = (b_written x, Tool_exit 1)"
    by (simp add: experiment_tool_def build tool_end_def del: One_nat_def)
  from experiment_needs_verified_build [OF this] x(2) this show ?thesis by simp
qed

end
