(* ===== verification/Pty_Relay.thy ===== *)
theory Pty_Relay
  imports Prelude
begin

text \<open>
  \<^verbatim>\<open>tools/ros2_status/pty_relay.py\<close>: the process between the owner of the serial port (its parent,
  which speaks JSON lines over pipes) and the driver node (which has the other end of a pseudo
  terminal).  One turn of its loop takes one \<open>turn\<close> from a list: the time, the cancel file, what
  \<^verbatim>\<open>select\<close> found ready, what the terminal took, and whether the node has ended.  JSON is a
  parameter: \<open>loads\<close> gives the keys \<^verbatim>\<open>event\<close> and \<^verbatim>\<open>hex\<close> of a line, or its error.
\<close>

section \<open>State\<close>

text \<open>Without an entry for its reads the list of lines and the bytes given are all that others see.\<close>

datatype relay_line =
    Ready_line
  | Tx_line string nat
  | Exit_line int
  | Cancelled_line
  | Error_line error

text \<open>
  \<open>rl_incoming\<close> and \<open>rl_pending\<close> are the two buffers, \<open>rl_given\<close> the bytes the terminal took and
  \<open>rl_emitted\<close> the lines printed; \<open>rl_from_node\<close> and \<open>rl_from_parent\<close> record all bytes read.
\<close>

record Relay =
  rl_incoming :: bytes
  rl_pending :: bytes
  rl_given :: bytes
  rl_emitted :: "relay_line list"
  rl_from_node :: bytes
  rl_from_parent :: bytes

definition new_relay :: Relay where
  "new_relay = \<lparr>rl_incoming = [], rl_pending = [], rl_given = [], rl_emitted = [],
     rl_from_node = [], rl_from_parent = []\<rparr>"

definition relay_emit :: "relay_line \<Rightarrow> Relay \<Rightarrow> Relay" where
  "relay_emit l r = r\<lparr>rl_emitted := rl_emitted r @ [l]\<rparr>"

text \<open>A read of the terminal; a hang-up (\<^verbatim>\<open>EIO\<close>) counts as no data.\<close>

datatype pty_read = Pty_bytes bytes | Pty_hangup | Pty_failed error

datatype ready = From_node pty_read | From_parent "bytes result"

datatype pty_write = Took nat | Full | Write_failed error

datatype drain = Drained bytes | Drained_none | Drain_failed error

record turn =
  tn_late :: bool
  tn_cancel :: bool
  tn_ready :: "ready list"
  tn_write :: pty_write
  tn_exit :: "int option"
  tn_drain :: drain

text \<open>How a turn leaves the loop: by \<^verbatim>\<open>return\<close> or by an exception.\<close>

datatype leave = Return int | Fail error

type_synonym json_line = "(string option \<times> string option) result"

section \<open>The node's bytes\<close>

definition upper :: "char \<Rightarrow> char" where
  "upper c = (let n = (of_char c :: nat) in if 97 \<le> n \<and> n \<le> 122 then char_of (n - 32) else c)"

definition tx_line :: "bytes \<Rightarrow> relay_line" where
  "tx_line data = Tx_line (map upper (hex data)) (length data)"

definition from_node :: "bytes \<Rightarrow> Relay \<Rightarrow> Relay" where
  "from_node data r =
     (if data = [] then r
      else relay_emit (tx_line data) (r\<lparr>rl_from_node := rl_from_node r @ data\<rparr>))"

section \<open>The parent's lines\<close>

text \<open>\<^verbatim>\<open>incoming.partition(b"\n")\<close>, when there is one.\<close>

definition split_line :: "bytes \<Rightarrow> (bytes \<times> bytes) option" where
  "split_line s =
     (case dropWhile (\<lambda>b. b \<noteq> 10) s of [] \<Rightarrow> None | _ # rest \<Rightarrow> Some (takeWhile (\<lambda>b. b \<noteq> 10) s, rest))"

definition parent_line :: "(bytes \<Rightarrow> json_line) \<Rightarrow> bytes \<Rightarrow> bytes result" where
  "parent_line loads line =
     try_bind (loads line) (\<lambda>(name, digits).
       if name \<noteq> Some ''serial_rx'' then Inl (ValueError ''Unexpected parent event'')
       else case digits of None \<Rightarrow> Inl KeyError | Some h \<Rightarrow> fromhex h)"

lemma split_line_shorter: "split_line s = Some (line, rest) \<Longrightarrow> length rest < length s"
proof -
  assume "split_line s = Some (line, rest)"
  then obtain b where "dropWhile (\<lambda>b. b \<noteq> 10) s = b # rest" by (auto simp: split_line_def split: list.splits)
  then have "length (b # rest) \<le> length s" by (metis length_dropWhile_le)
  then show ?thesis by simp
qed

text \<open>The loop over complete lines: the rest of the buffer, the bytes for the node, and an error.\<close>

function take_lines :: "(bytes \<Rightarrow> json_line) \<Rightarrow> bytes \<Rightarrow> bytes \<Rightarrow> bytes \<times> bytes \<times> error option" where
  "take_lines loads incoming pending =
     (case split_line incoming of
        None \<Rightarrow> (incoming, pending, None)
      | Some (line, rest) \<Rightarrow>
          (case parent_line loads line of
             Inl e \<Rightarrow> (rest, pending, Some e)
           | Inr data \<Rightarrow> take_lines loads rest (pending @ data)))"
  by pat_completeness auto
termination
  by (relation "measure (\<lambda>(loads, incoming, pending). length incoming)") (auto dest: split_line_shorter)

declare take_lines.simps [simp del]

definition from_parent :: "(bytes \<Rightarrow> json_line) \<Rightarrow> bytes \<Rightarrow> Relay \<Rightarrow> Relay \<times> leave option" where
  "from_parent loads data r =
     (if data = [] then (r, Some (Return 2))
      else
        let r1 = r\<lparr>rl_incoming := rl_incoming r @ data, rl_from_parent := rl_from_parent r @ data\<rparr> in
        if length (rl_incoming r1) > 131072 then (r1, Some (Fail (ValueError ''Oversized parent message'')))
        else case take_lines loads (rl_incoming r1) (rl_pending r1) of
          (rest, pending, err) \<Rightarrow> (r1\<lparr>rl_incoming := rest, rl_pending := pending\<rparr>, map_option Fail err))"

section \<open>A turn of the loop\<close>

fun relay_ready_one :: "(bytes \<Rightarrow> json_line) \<Rightarrow> ready \<Rightarrow> Relay \<Rightarrow> Relay \<times> leave option" where
  "relay_ready_one loads (From_node (Pty_bytes data)) r = (from_node data r, None)"
| "relay_ready_one loads (From_node Pty_hangup) r = (r, None)"
| "relay_ready_one loads (From_node (Pty_failed e)) r = (r, Some (Fail e))"
| "relay_ready_one loads (From_parent (Inl e)) r = (r, Some (Fail e))"
| "relay_ready_one loads (From_parent (Inr data)) r = from_parent loads data r"

fun relay_ready_all :: "(bytes \<Rightarrow> json_line) \<Rightarrow> ready list \<Rightarrow> Relay \<Rightarrow> Relay \<times> leave option" where
  "relay_ready_all loads [] r = (r, None)"
| "relay_ready_all loads (x # xs) r =
     (case relay_ready_one loads x r of
        (r1, Some l) \<Rightarrow> (r1, Some l)
      | (r1, None) \<Rightarrow> relay_ready_all loads xs r1)"

text \<open>Writing to the terminal, which takes a part, and the limit of what may wait for it.\<close>

definition relay_write :: "pty_write \<Rightarrow> Relay \<Rightarrow> Relay \<times> leave option" where
  "relay_write w r =
     (if rl_pending r = [] then (r, None)
      else case w of
        Write_failed e \<Rightarrow> (r, Some (Fail e))
      | _ \<Rightarrow>
          let r1 = (case w of
                Took n \<Rightarrow> r\<lparr>rl_given := rl_given r @ take n (rl_pending r), rl_pending := drop n (rl_pending r)\<rparr>
              | _ \<Rightarrow> r) in
          (r1, if length (rl_pending r1) > 1048576
               then Some (Fail (ValueError ''PTY receive backlog exceeded limit'')) else None))"

definition relay_exit :: "int option \<Rightarrow> drain \<Rightarrow> Relay \<Rightarrow> Relay \<times> leave option" where
  "relay_exit exited d r =
     (case exited of
        None \<Rightarrow> (r, None)
      | Some code \<Rightarrow>
          (case d of
             Drain_failed e \<Rightarrow> (r, Some (Fail e))
           | Drained data \<Rightarrow> (relay_emit (Exit_line code) (from_node data r), Some (Return code))
           | Drained_none \<Rightarrow> (relay_emit (Exit_line code) r, Some (Return code))))"

definition relay_turn :: "(bytes \<Rightarrow> json_line) \<Rightarrow> turn \<Rightarrow> Relay \<Rightarrow> Relay \<times> leave option" where
  "relay_turn loads t r =
     (if tn_late t \<or> tn_cancel t then (relay_emit Cancelled_line r, Some (Return 2))
      else case relay_ready_all loads (tn_ready t) r of
        (r1, Some l) \<Rightarrow> (r1, Some l)
      | (r1, None) \<Rightarrow>
          (case relay_write (tn_write t) r1 of
             (r2, Some l) \<Rightarrow> (r2, Some l)
           | (r2, None) \<Rightarrow> relay_exit (tn_exit t) (tn_drain t) r2))"

fun relay_loop :: "(bytes \<Rightarrow> json_line) \<Rightarrow> turn list \<Rightarrow> Relay \<Rightarrow> Relay \<times> leave option" where
  "relay_loop loads [] r = (r, None)"
| "relay_loop loads (t # ts) r =
     (case relay_turn loads t r of
        (r1, Some l) \<Rightarrow> (r1, Some l)
      | (r1, None) \<Rightarrow> relay_loop loads ts r1)"

section \<open>The process\<close>

text \<open>
  \<open>started\<close>: what opening the console log and starting the node give.  The result is \<open>None\<close> while
  the loop runs, then the exit code or the error that is let through.
\<close>

definition relay_settle :: "Relay \<Rightarrow> leave option \<Rightarrow> Relay \<times> (error + int) option" where
  "relay_settle r l =
     (case l of
        None \<Rightarrow> (r, None)
      | Some (Return code) \<Rightarrow> (r, Some (Inr code))
      | Some (Fail e) \<Rightarrow>
          if is_Exception e then (relay_emit (Error_line e) r, Some (Inr 3)) else (r, Some (Inl e)))"

definition relay_main :: "(bytes \<Rightarrow> json_line) \<Rightarrow> unit result \<Rightarrow> turn list \<Rightarrow> Relay \<times> (error + int) option" where
  "relay_main loads started turns =
     (case started of
        Inl e \<Rightarrow> relay_settle new_relay (Some (Fail e))
      | Inr _ \<Rightarrow>
          (case relay_loop loads turns (relay_emit Ready_line new_relay) of (r, l) \<Rightarrow> relay_settle r l))"

text \<open>The \<^verbatim>\<open>finally\<close> branch: the signals to a node that still runs, and to one that does not end by the first.\<close>

datatype signal = Terminate | Kill

definition relay_cleanup :: "bool \<Rightarrow> bool \<Rightarrow> signal list" where
  "relay_cleanup alive stubborn = (if \<not> alive then [] else if stubborn then [Terminate, Kill] else [Terminate])"

end
