(* ===== verification/Relay_Properties.thy ===== *)
theory Relay_Properties
  imports Pty_Relay Status_Experiment
begin

text \<open>
  The relay between its two ends: what a complete line, a piece of one and a full terminal do to
  the two directions; the relay as two byte pipes; and the relay in front of the gate of the
  driver experiment.
\<close>

section \<open>Lines\<close>

lemma split_line_simps [simp]:
  "split_line [] = None"
  "split_line (b # s) = (if b = 10 then Some ([], s) else map_option (\<lambda>(line, rest). (b # line, rest)) (split_line s))"
  by (simp_all add: split_line_def del: dropWhile_eq_Nil_conv split: list.split)

lemma split_line_None: "split_line s = None \<longleftrightarrow> 10 \<notin> set s"
  by (induction s) auto

lemma split_line_append: "split_line s = Some (line, rest) \<Longrightarrow> split_line (s @ d) = Some (line, rest @ d)"
  by (induction s arbitrary: line) (auto split: if_splits)

text \<open>The loop over lines depends on the stream only, not on where it is cut.\<close>

lemma take_lines_more:
  "take_lines loads s p = (rest, q, None) \<Longrightarrow> take_lines loads (s @ d) p = take_lines loads (rest @ d) q"
proof (induction loads s p arbitrary: rest q rule: take_lines.induct)
  case (1 loads s p)
  show ?case
  proof (cases "split_line s")
    case None
    then show ?thesis using "1.prems" by (simp add: take_lines.simps [of loads s])
  next
    case (Some x)
    obtain line more where x: "split_line s = Some (line, more)" using Some by (cases x) auto
    obtain data where data: "parent_line loads line = Inr data"
      using "1.prems" x by (cases "parent_line loads line") (auto simp: take_lines.simps [of loads s])
    have "take_lines loads more (p @ data) = (rest, q, None)"
      using "1.prems" x data by (simp add: take_lines.simps [of loads s])
    from "1.IH" [OF x refl data this] show ?thesis
      using split_line_append [OF x, of d] data by (simp add: take_lines.simps [of loads "s @ d"])
  qed
qed

lemma take_lines_pending:
  "take_lines loads s (p @ p') = (case take_lines loads s p' of (rest, q, e) \<Rightarrow> (rest, p @ q, e))"
proof (induction loads s p' rule: take_lines.induct)
  case (1 loads s p')
  then show ?case
    by (auto simp: take_lines.simps [of loads s] split: option.splits sum.splits prod.splits)
qed

lemma take_lines_grows: "take_lines loads s p = (rest, q, e) \<Longrightarrow> \<exists>more. q = p @ more"
  using take_lines_pending [of loads s p "[]"] by (auto split: prod.splits)

lemma take_lines_rest: "take_lines loads s p = (rest, q, None) \<Longrightarrow> 10 \<notin> set rest \<and> length rest \<le> length s"
proof (induction loads s p arbitrary: rest q rule: take_lines.induct)
  case (1 loads s p)
  show ?case
  proof (cases "split_line s")
    case None
    then have "10 \<notin> set s" by (simp add: split_line_None)
    with None show ?thesis using "1.prems" by (simp add: take_lines.simps [of loads s])
  next
    case (Some x)
    obtain line more where x: "split_line s = Some (line, more)" using Some by (cases x) auto
    obtain data where data: "parent_line loads line = Inr data"
      using "1.prems" x by (cases "parent_line loads line") (auto simp: take_lines.simps [of loads s])
    have "take_lines loads more (p @ data) = (rest, q, None)"
      using "1.prems" x data by (simp add: take_lines.simps [of loads s])
    from "1.IH" [OF x refl data this] split_line_shorter [OF x] show ?thesis by simp
  qed
qed

section \<open>What the relay has carried\<close>

text \<open>The bytes for the node in a stream from the parent: those of its lines, up to the first bad one.\<close>

definition payload :: "(bytes \<Rightarrow> json_line) \<Rightarrow> bytes \<Rightarrow> bytes" where
  "payload loads stream = fst (snd (take_lines loads stream []))"

fun told_tx :: "relay_line \<Rightarrow> bytes" where
  "told_tx (Tx_line digits n) = (case fromhex digits of Inl e \<Rightarrow> [] | Inr data \<Rightarrow> data)"
| "told_tx _ = []"

definition node_told :: "Relay \<Rightarrow> bool" where
  "node_told r \<longleftrightarrow> concat (map told_tx (rl_emitted r)) = rl_from_node r"

definition in_flow :: "(bytes \<Rightarrow> json_line) \<Rightarrow> Relay \<Rightarrow> bool" where
  "in_flow loads r \<longleftrightarrow>
     take_lines loads (rl_from_parent r) [] = (rl_incoming r, rl_given r @ rl_pending r, None) \<and>
     length (rl_incoming r) \<le> 131072"

text \<open>After a failure the buffers are left as they are; what was given stays a part of the stream.\<close>

definition gave_part :: "(bytes \<Rightarrow> json_line) \<Rightarrow> Relay \<Rightarrow> bool" where
  "gave_part loads r \<longleftrightarrow> (\<exists>more. payload loads (rl_from_parent r) = rl_given r @ rl_pending r @ more)"

lemma in_flow_gave: "in_flow loads r \<Longrightarrow> gave_part loads r"
  by (simp add: in_flow_def gave_part_def payload_def)

lemma payload_more: "take_lines loads s [] = (rest, q, None) \<Longrightarrow> \<exists>more. payload loads (s @ d) = q @ more"
  using take_lines_more [of loads s "[]" rest q d] take_lines_grows [of loads "rest @ d" q]
  by (cases "take_lines loads (rest @ d) q") (auto simp: payload_def)

lemma relay_emit_sel [simp]:
  "rl_incoming (relay_emit l r) = rl_incoming r" "rl_pending (relay_emit l r) = rl_pending r"
  "rl_given (relay_emit l r) = rl_given r" "rl_from_parent (relay_emit l r) = rl_from_parent r"
  "rl_emitted (relay_emit l r) = rl_emitted r @ [l]" "rl_from_node (relay_emit l r) = rl_from_node r"
  by (simp_all add: relay_emit_def)

lemma from_node_sel [simp]:
  "rl_incoming (from_node data r) = rl_incoming r" "rl_pending (from_node data r) = rl_pending r"
  "rl_given (from_node data r) = rl_given r" "rl_from_parent (from_node data r) = rl_from_parent r"
  by (simp_all add: from_node_def)

lemma in_flow_cong [simp]:
  "in_flow loads (relay_emit l r) = in_flow loads r" "in_flow loads (from_node data r) = in_flow loads r"
  "gave_part loads (relay_emit l r) = gave_part loads r" "gave_part loads (from_node data r) = gave_part loads r"
  by (simp_all add: in_flow_def gave_part_def)

lemma hex_value_upper: "n < 16 \<Longrightarrow> hex_value (upper (digit_char n)) = Some n"
proof -
  assume "n < 16"
  then have "n \<in> set [0..<16]" by simp
  moreover have "list_all (\<lambda>k. hex_value (upper (digit_char k)) = Some k) [0..<16]"
    by (simp add: upt_conv_Cons hex_value_def digit_char_def upper_def)
  ultimately show ?thesis by (simp only: list_all_iff)
qed

lemma fromhex_upper: "fromhex (map upper (hex data)) = Inr data"
proof (induction data)
  case (Cons b data)
  have "unat b < 256" using unsigned_less [of b] by simp
  then have "unat b div 16 < 16" "unat b mod 16 < 16" by auto
  then have "fromhex (map upper (hex (b # data))) = Inr (word_of_nat (16 * (unat b div 16) + unat b mod 16) # data)"
    using Cons.IH by (simp add: hex_def hex_value_upper hex_value_not_space [OF hex_value_upper])
  then show ?case by simp
qed (simp add: hex_def)

lemma told_tx_line [simp]: "told_tx (tx_line data) = data"
  by (simp add: tx_line_def fromhex_upper)

lemma node_told_from_node [simp]: "node_told r \<Longrightarrow> node_told (from_node data r)"
  by (simp add: node_told_def from_node_def relay_emit_def)

lemma node_told_emit [simp]: "told_tx l = [] \<Longrightarrow> node_told (relay_emit l r) = node_told r"
  by (simp add: node_told_def)

section \<open>Every part of a turn\<close>

lemma from_parent_flow:
  assumes "from_parent loads data r = (r', l)" "in_flow loads r"
  shows "gave_part loads r'" "l = None \<Longrightarrow> in_flow loads r'" "node_told r' = node_told r"
    "rl_emitted r' = rl_emitted r" "\<And>c. l = Some (Return c) \<Longrightarrow> in_flow loads r' \<and> c = 2"
proof -
  let ?s = "rl_from_parent r @ data"
  obtain rest q e where lines: "take_lines loads (rl_incoming r @ data) (rl_pending r) = (rest, q, e)"
    by (cases "take_lines loads (rl_incoming r @ data) (rl_pending r)") auto
  have flow: "take_lines loads (rl_from_parent r) [] = (rl_incoming r, rl_given r @ rl_pending r, None)"
    "length (rl_incoming r) \<le> 131072" using assms(2) by (simp_all add: in_flow_def)
  have whole: "take_lines loads ?s [] = (rest, rl_given r @ q, e)"
    using take_lines_more [OF flow(1), of data] take_lines_pending [of loads "rl_incoming r @ data" "rl_given r" "rl_pending r"] lines
    by simp
  obtain more where q: "q = rl_pending r @ more" using take_lines_grows [OF lines] by blast
  show "gave_part loads r'"
    using assms(1) in_flow_gave [OF assms(2)] lines whole q
    by (auto simp: from_parent_def Let_def gave_part_def payload_def split: if_splits)
  show "in_flow loads r'" if "l = None"
  proof -
    have "length rest \<le> 131072" if "e = None" "length (rl_incoming r @ data) \<le> 131072"
      using take_lines_rest [of loads "rl_incoming r @ data" "rl_pending r" rest q] lines that by simp
    then show ?thesis
      using assms(1) that lines whole
      by (auto simp: from_parent_def Let_def in_flow_def split: if_splits)
  qed
  show "node_told r' = node_told r" "rl_emitted r' = rl_emitted r"
    using assms(1) by (auto simp: from_parent_def Let_def node_told_def split: if_splits prod.splits)
  show "in_flow loads r' \<and> c = 2" if "l = Some (Return c)" for c
    using assms that by (auto simp: from_parent_def Let_def split: if_splits prod.splits)
qed

lemma ready_one_flow:
  assumes "relay_ready_one loads x r = (r', l)" "in_flow loads r"
  shows "gave_part loads r'" "l = None \<Longrightarrow> in_flow loads r'" "node_told r \<Longrightarrow> node_told r'"
  using assms from_parent_flow in_flow_gave
  by (cases "(loads, x, r)" rule: relay_ready_one.cases; fastforce)+

lemma ready_all_flow:
  "relay_ready_all loads xs r = (r', l) \<Longrightarrow> in_flow loads r \<Longrightarrow> node_told r \<Longrightarrow>
     gave_part loads r' \<and> (l = None \<longrightarrow> in_flow loads r') \<and> node_told r'"
proof (induction xs arbitrary: r)
  case (Cons x xs)
  obtain r1 l1 where x: "relay_ready_one loads x r = (r1, l1)" by fastforce
  note one = ready_one_flow [OF x Cons.prems(2)]
  show ?case
    using Cons.IH [of r1] Cons.prems one x by (cases l1) auto
qed (simp add: in_flow_gave)

lemma take_drop_append [simp]: "take n xs @ drop n xs @ ys = xs @ ys"
  by (simp flip: append_assoc)

lemma relay_write_flow:
  assumes "relay_write w r = (r', l)" "in_flow loads r"
  shows "gave_part loads r'" "l = None \<Longrightarrow> in_flow loads r'" "node_told r' = node_told r" "rl_emitted r' = rl_emitted r"
    "l = None \<Longrightarrow> rl_pending r' = [] \<or> length (rl_pending r') \<le> 1048576"
  using assms in_flow_gave [OF assms(2)]
  by (auto simp: relay_write_def Let_def in_flow_def gave_part_def node_told_def split: if_splits pty_write.splits)

lemma relay_exit_flow:
  assumes "relay_exit exited d r = (r', l)" "in_flow loads r"
  shows "in_flow loads r'" "node_told r \<Longrightarrow> node_told r'"
    "l = None \<Longrightarrow> r' = r" "\<And>c. l = Some (Return c) \<Longrightarrow> exited = Some c \<and> last (rl_emitted r') = Exit_line c"
  using assms by (auto simp: relay_exit_def split: option.splits drain.splits)

lemma relay_turn_flow:
  assumes "relay_turn loads t r = (r', l)" "in_flow loads r" "node_told r"
  shows "gave_part loads r'" "l = None \<Longrightarrow> in_flow loads r' \<and> length (rl_pending r') \<le> 1048576" "node_told r'"
proof -
  obtain r1 l1 where a: "relay_ready_all loads (tn_ready t) r = (r1, l1)" by fastforce
  obtain r2 l2 where b: "relay_write (tn_write t) r1 = (r2, l2)" by fastforce
  obtain r3 l3 where c: "relay_exit (tn_exit t) (tn_drain t) r2 = (r3, l3)" by fastforce
  note A = ready_all_flow [OF a assms(2,3)]
  note B = relay_write_flow [OF b, of loads]
  note C = relay_exit_flow [OF c, of loads]
  have result: "(r', l) = (if tn_late t \<or> tn_cancel t then (relay_emit Cancelled_line r, Some (Return 2))
      else if l1 \<noteq> None then (r1, l1) else if l2 \<noteq> None then (r2, l2) else (r3, l3))"
    using assms(1) by (auto simp: relay_turn_def a b c split: option.splits)
  show "gave_part loads r'" "l = None \<Longrightarrow> in_flow loads r' \<and> length (rl_pending r') \<le> 1048576" "node_told r'"
    using result A B C in_flow_gave assms(2,3) by (auto split: if_splits)
qed

lemma relay_loop_flow:
  "relay_loop loads ts r = (r', l) \<Longrightarrow> in_flow loads r \<Longrightarrow> node_told r \<Longrightarrow> length (rl_pending r) \<le> 1048576 \<Longrightarrow>
     gave_part loads r' \<and> (l = None \<longrightarrow> in_flow loads r' \<and> length (rl_pending r') \<le> 1048576) \<and> node_told r'"
proof (induction ts arbitrary: r)
  case (Cons t ts)
  obtain r1 l1 where t: "relay_turn loads t r = (r1, l1)" by fastforce
  note turn = relay_turn_flow [OF t Cons.prems(2,3)]
  show ?case using Cons.IH [of r1] Cons.prems(1) turn t by (cases l1) auto
qed (simp add: in_flow_gave)

text \<open>What is printed last says how the loop was left.\<close>

lemma ready_all_left:
  "relay_ready_all loads xs r = (r', Some (Return c)) \<Longrightarrow> c = 2 \<and> From_parent (Inr []) \<in> set xs"
proof (induction xs arbitrary: r)
  case (Cons x xs)
  obtain r1 l1 where x: "relay_ready_one loads x r = (r1, l1)" by fastforce
  have "c' = 2 \<and> x = From_parent (Inr [])" if "l1 = Some (Return c')" for c'
    using x that
    by (cases "(loads, x, r)" rule: relay_ready_one.cases) (auto simp: from_parent_def Let_def split: if_splits prod.splits)
  then show ?case using Cons x by (auto split: option.splits)
qed simp

lemma relay_turn_left:
  assumes "relay_turn loads t r = (r', Some (Return c))"
  shows "c = 2 \<and> (last (rl_emitted r') = Cancelled_line \<and> (tn_late t \<or> tn_cancel t) \<or> From_parent (Inr []) \<in> set (tn_ready t)) \<or>
    tn_exit t = Some c \<and> last (rl_emitted r') = Exit_line c"
proof -
  have wrote: "l \<noteq> Some (Return k)" if "relay_write w r1 = (r2, l)" for w r1 r2 l k
    using that by (auto simp: relay_write_def Let_def split: if_splits pty_write.splits)
  have exit': "tn_exit t = Some k \<and> last (rl_emitted r2) = Exit_line k"
    if "relay_exit (tn_exit t) d r1 = (r2, Some (Return k))" for d r1 r2 k
    using that by (auto simp: relay_exit_def split: option.splits drain.splits)
  show ?thesis
    using assms ready_all_left wrote exit'
    by (fastforce simp: relay_turn_def split: if_splits option.splits prod.splits)
qed

lemma relay_loop_left:
  "relay_loop loads ts r = (r', Some (Return c)) \<Longrightarrow>
     (\<exists>t \<in> set ts. (c = 2 \<and> (last (rl_emitted r') = Cancelled_line \<and> (tn_late t \<or> tn_cancel t) \<or>
        From_parent (Inr []) \<in> set (tn_ready t))) \<or>
      tn_exit t = Some c \<and> last (rl_emitted r') = Exit_line c)"
proof (induction ts arbitrary: r)
  case (Cons t ts)
  obtain r1 l1 where t: "relay_turn loads t r = (r1, l1)" by fastforce
  show ?case
  proof (cases l1)
    case None
    then show ?thesis using Cons t by auto
  next
    case (Some x)
    then have "relay_turn loads t r = (r', Some (Return c))" using Cons.prems t by simp
    from relay_turn_left [OF this] show ?thesis by auto
  qed
qed simp

lemma relay_main_flow:
  assumes "relay_main loads started turns = (r, out)"
  shows "node_told r" "gave_part loads r" "out = None \<Longrightarrow> in_flow loads r \<and> length (rl_pending r) \<le> 1048576"
proof -
  have new: "in_flow loads new_relay" "node_told new_relay"
    by (simp_all add: in_flow_def new_relay_def node_told_def take_lines.simps [of loads "[]"])
  define r0 where "r0 = relay_emit Ready_line new_relay"
  have r0: "in_flow loads r0" "node_told r0" "length (rl_pending r0) \<le> 1048576"
    using new by (simp_all add: r0_def) (simp add: new_relay_def)
  obtain r1 l where run: "relay_loop loads turns r0 = (r1, l)" by fastforce
  note loop = relay_loop_flow [OF run r0]
  have settled: "(r, out) = (case started of Inl e \<Rightarrow> relay_settle new_relay (Some (Fail e)) | Inr _ \<Rightarrow> relay_settle r1 l)"
    using assms run by (simp add: relay_main_def r0_def split: sum.splits)
  show "node_told r" "gave_part loads r" "out = None \<Longrightarrow> in_flow loads r \<and> length (rl_pending r) \<le> 1048576"
    using settled loop new in_flow_gave [OF new(1)]
    by (auto simp: relay_settle_def split: sum.splits option.splits leave.splits if_splits)
qed

section \<open>The gate behind the relay\<close>

lemma gate_packets_request:
  assumes "gt_buffer g @ concat chunks = STATUS_REQUEST" "\<not> gt_sent g" "gt_buffer g \<noteq> STATUS_REQUEST"
  shows "gate_packets (map (\<lambda>d. (d, True)) chunks) g = [STATUS_REQUEST]"
  using assms
proof (induction chunks arbitrary: g)
  case (Cons chunk chunks)
  let ?b = "gt_buffer g @ chunk"
  have whole: "STATUS_REQUEST = ?b @ concat chunks" using Cons.prems(1) by simp
  then have part: "isprefix ?b STATUS_REQUEST" by (auto simp: isprefix_iff)
  consider "chunk = []" | "chunk \<noteq> []" "?b \<noteq> STATUS_REQUEST" | "chunk \<noteq> []" "?b = STATUS_REQUEST" by blast
  then show ?case
  proof cases
    case 1
    then show ?thesis using Cons by (simp add: gate_accept_def)
  next
    case 2
    then have "length ?b \<noteq> length STATUS_REQUEST" using whole by (metis append_eq_append_conv append_Nil2)
    then have "gate_accept chunk True g = (g\<lparr>gt_buffer := ?b\<rparr>, Inr None)"
      using 2 part Cons.prems(2) by (simp add: gate_accept_def Let_def)
    then show ?thesis using Cons.IH [of "g\<lparr>gt_buffer := ?b\<rparr>"] Cons.prems 2 whole by simp
  next
    case 3
    then have "gate_accept chunk True g = (g\<lparr>gt_buffer := ?b, gt_sent := True\<rparr>, Inr (Some STATUS_REQUEST))"
      using part Cons.prems(2) by (simp add: gate_accept_def Let_def)
    then show ?thesis by (simp add: gate_packets_sent)
  qed
qed simp

text \<open>The driver's writes as the owner of the port is told of them.\<close>

definition writes_told :: "Relay \<Rightarrow> bytes list" where
  "writes_told r = map told_tx (rl_emitted r)"

section \<open>Properties\<close>


text \<open>A run: a line from the parent in two pieces, the driver's request in two writes, then its exit.\<close>

definition sample_loads :: "bytes \<Rightarrow> json_line" where
  "sample_loads line = Inr (Some ''serial_rx'', Some (if line = [1, 2] then ''06'' else ''15''))"

definition sample_turn :: turn where
  "sample_turn = \<lparr>tn_late = False, tn_cancel = False, tn_ready = [], tn_write = Full, tn_exit = None, tn_drain = Drained_none\<rparr>"

definition sample_turns :: "turn list" where
  "sample_turns =
     [sample_turn\<lparr>tn_ready := [From_parent (Inr [1]), From_node (Pty_bytes [0x02, 0x00])]\<rparr>,
      sample_turn\<lparr>tn_ready := [From_parent (Inr [2, 10, 3, 10, 0x30])], tn_write := Took 1\<rparr>,
      sample_turn\<lparr>tn_ready := [From_node (Pty_bytes [0x01, 0x00])]\<rparr>,
      sample_turn\<lparr>tn_exit := Some 0, tn_drain := Drained [0x31, 0x15, 0x12]\<rparr>]"

lemmas relay_eval = relay_main_def new_relay_def relay_emit_def relay_turn_def relay_write_def relay_exit_def
  relay_settle_def from_parent_def from_node_def sample_loads_def sample_turn_def sample_turns_def parent_line_def
  take_lines.simps hex_space_def hex_value_def tx_line_def Let_def

lemma sample_half:
  "\<exists>r. relay_main sample_loads (Inr ()) (take 3 sample_turns) = (r, None) \<and>
     rl_from_node r = [0x02, 0x00, 0x01, 0x00] \<and> rl_given r = [0x06] \<and> rl_pending r = [0x15]"
  by (simp add: relay_eval)

lemma sample_whole:
  "\<exists>r. relay_main sample_loads (Inr ()) sample_turns = (r, Some (Inr 0)) \<and> rl_from_node r = STATUS_REQUEST"
  by (simp add: relay_eval STATUS_REQUEST_def)




end
