(* ===== verification/Integration_Check.thy ===== *)
theory Integration_Check
  imports Relay_Properties
begin

text \<open>
  \<^verbatim>\<open>tools/ros2_status/integration_check.py\<close>: the offline check that runs the relay with the real
  driver against synthetic scanner bytes.  What the relay prints, how it exits and the evidence
  the driver leaves are an argument; the result is what was fed to the relay, in its pieces, and
  whether the check passed.
\<close>

section \<open>Synthetic bytes\<close>

definition STARTUP :: bytes where
  "STARTUP =
     [0x02, 0x81, 0x17, 0x00, 0x90, 0x4C, 0x4D, 0x53, 0x32, 0x30, 0x30, 0x3B, 0x33, 0x30, 0x31, 0x30,
      0x36, 0x33, 0x3B, 0x56, 0x30, 0x32, 0x2E, 0x30, 0x36, 0x20, 0x13, 0x64, 0x5A]"

definition synthetic_data :: "int \<Rightarrow> bytes" where
  "synthetic_data address =
     (let data = replicate (if address = 0x80 then 146 else 152) 0;
          data = [0x56, 0x30, 0x32, 0x2E, 0x31, 0x30, 0x20] @ drop 7 data in
      take 30 data @ [0x06, 0x15, 0x11, 0x13] @ drop 34 data)"

definition synthetic_reply :: "int \<Rightarrow> bytes result" where
  "synthetic_reply address = encode (0xB1 # synthetic_data address @ [0x10]) address"

section \<open>The check\<close>

text \<open>A row of the driver's evidence: its event and the keys that are looked at.\<close>

record evidence_row =
  rw_event :: string
  rw_hex :: "string option"
  rw_success :: bool
  rw_post_send :: "rat option"

text \<open>
  \<open>of_ready\<close>: the listener was ready in time; \<open>of_before\<close>, \<open>of_after\<close>: the lines of the relay
  until the trigger and from then on; \<open>of_code\<close>: its exit code, if it exits in time;
  \<open>of_rows\<close>: what reading the evidence gives.
\<close>

record Offline =
  of_ready :: bool
  of_before :: "relay_line list"
  of_after :: "relay_line list"
  of_code :: "int option"
  of_rows :: "evidence_row list result"

fun is_node_tx :: "relay_line \<Rightarrow> bool" where
  "is_node_tx (Tx_line digits n) = True"
| "is_node_tx _ = False"

text \<open>The loop that gathers seven bytes of the driver; an empty queue is the \<^verbatim>\<open>queue.Empty\<close> of a timeout.\<close>

fun node_packet :: "bytes \<Rightarrow> relay_line list \<Rightarrow> (bytes \<times> relay_line list) result" where
  "node_packet packet [] =
     (if 7 \<le> length packet then Inr (packet, []) else Inl (RuntimeError ''queue.Empty''))"
| "node_packet packet (e # es) =
     (if 7 \<le> length packet then Inr (packet, e # es)
      else case e of
        Tx_line digits n \<Rightarrow> try_bind (fromhex digits) (\<lambda>data. node_packet (packet @ data) es)
      | Error_line err \<Rightarrow> Inl AssertionError
      | Exit_line code \<Rightarrow> Inl AssertionError
      | _ \<Rightarrow> node_packet packet es)"

text \<open>The bytes of the \<^verbatim>\<open>rx_raw\<close> rows.\<close>

fun raw_rows :: "evidence_row list \<Rightarrow> bytes result" where
  "raw_rows [] = Inr []"
| "raw_rows (row # rows) =
     (if rw_event row \<noteq> ''rx_raw'' then raw_rows rows
      else case rw_hex row of
        None \<Rightarrow> Inl KeyError
      | Some digits \<Rightarrow> try_bind (fromhex digits) (\<lambda>data. try_bind (raw_rows rows) (\<lambda>rest. Inr (data @ rest))))"

definition check_rows :: "bytes \<Rightarrow> evidence_row list \<Rightarrow> unit result" where
  "check_rows reply rows =
     (if rows = [] \<or> length (filter (\<lambda>row. rw_event row = ''library_tx_completed'') rows) \<noteq> 1 then Inl AssertionError
      else
        let final = last rows in
        if rw_event final \<noteq> ''result'' \<or> \<not> rw_success final then Inl AssertionError
        else case rw_post_send final of
          None \<Rightarrow> Inl KeyError
        | Some seconds \<Rightarrow>
            if seconds < 6 then Inl AssertionError
            else try_bind (raw_rows rows) (\<lambda>raw.
                   if raw \<noteq> STARTUP @ [0x06] @ reply then Inl AssertionError else Inr ()))"

definition integration_check :: "int \<Rightarrow> Offline \<Rightarrow> bytes list \<times> unit result" where
  "integration_check address w =
     (if \<not> of_ready w then ([], Inl AssertionError)
      else
        let first = [take 3 STARTUP, drop 3 STARTUP] in
        if list_ex is_node_tx (of_before w) then (first, Inl AssertionError)
        else case node_packet [] (of_after w) of
          Inl e \<Rightarrow> (first, Inl e)
        | Inr (packet, late) \<Rightarrow>
            if packet \<noteq> [0x02, 0x00, 0x01, 0x00, 0x31, 0x15, 0x12] then (first, Inl AssertionError)
            else case synthetic_reply address of
              Inl e \<Rightarrow> (first, Inl e)
            | Inr reply \<Rightarrow>
                (first @ [0x06 # take 3 reply, slice 3 70 reply, drop 70 reply],
                 case of_code w of
                   None \<Rightarrow> Inl (SubprocessError ''TimeoutExpired'')
                 | Some code \<Rightarrow>
                     if code \<noteq> 0 \<or> list_ex is_node_tx late then Inl AssertionError
                     else try_bind (of_rows w) (check_rows reply)))"

text \<open>The clean-up of a relay that still runs: it is told to cancel, and ended if it does not.\<close>

definition check_cleanup :: "bool \<Rightarrow> bool \<Rightarrow> bool \<times> signal list" where
  "check_cleanup alive stubborn = (if \<not> alive then (False, []) else (True, if stubborn then [Terminate] else []))"

section \<open>Property\<close>

lemma node_packet_told:
  "node_packet packet es = Inr (q, late) \<Longrightarrow>
   \<exists>used. es = used @ late \<and> q = packet @ concat (map told_tx used)"
proof (induction packet es rule: node_packet.induct)
  case (2 packet e es)
  show ?case
  proof (cases "7 \<le> length packet")
    case True
    then show ?thesis using "2.prems" by simp
  next
    case False
    show ?thesis
    proof (cases e)
      case (Tx_line digits n)
      then obtain data where data: "fromhex digits = Inr data" "node_packet (packet @ data) es = Inr (q, late)"
        using "2.prems" False by (auto simp: try_bind_eq_Inr)
      then obtain used where "es = used @ late" "q = (packet @ data) @ concat (map told_tx used)"
        using "2.IH" False Tx_line by metis
      then show ?thesis using Tx_line data by (intro exI [of _ "e # used"]) simp
    next
      case Ready_line
      then obtain used where "es = used @ late" "q = packet @ concat (map told_tx used)"
        using "2.IH" False "2.prems" by auto
      then show ?thesis using Ready_line by (intro exI [of _ "e # used"]) simp
    next
      case Cancelled_line
      then obtain used where "es = used @ late" "q = packet @ concat (map told_tx used)"
        using "2.IH" False "2.prems" by auto
      then show ?thesis using Cancelled_line by (intro exI [of _ "e # used"]) simp
    qed (use "2.prems" False in simp_all)
  qed
qed (simp split: if_splits)

lemma no_node_tx: "\<not> list_ex is_node_tx es \<Longrightarrow> concat (map told_tx es) = []"
  by (induction es) (auto elim: is_node_tx.elims told_tx.elims)

definition startup_frame :: Frame where
  "startup_frame = \<lparr>frame_address = 0x81, frame_payload = slice 4 27 STARTUP, frame_raw = STARTUP\<rparr>"

lemma startup_genuine: "genuine (EvFrame startup_frame)"
  by (simp add: startup_frame_def STARTUP_def slice_def encode_def STX_def MAX_PAYLOAD_def crc16_def crc16_step_def to_bytes2_def)

definition synthetic_frame :: "int \<Rightarrow> bytes \<Rightarrow> Frame" where
  "synthetic_frame address reply =
     \<lparr>frame_address = address, frame_payload = 0xB1 # synthetic_data address @ [0x10], frame_raw = reply\<rparr>"

lemma reply_exists:
  assumes "address \<in> {0x80, 0x81}"
  shows "\<exists>reply. synthetic_reply address = Inr reply \<and> genuine (EvFrame (synthetic_frame address reply)) \<and> 150 < length reply"
proof -
  have "length (synthetic_data address) \<in> {146, 152}" by (simp add: synthetic_data_def Let_def)
  then have "well_sized (0xB1 # synthetic_data address @ [0x10]) address"
    using assms by (auto simp: well_sized_def MAX_PAYLOAD_def)
  then obtain reply where reply: "synthetic_reply address = Inr reply"
    unfolding synthetic_reply_def using encode_Inr_iff by blast
  then have "length reply = length (synthetic_data address) + 8"
    using encode_length [of "0xB1 # synthetic_data address @ [0x10]" address reply] by (simp add: synthetic_reply_def)
  then show ?thesis
    using reply \<open>length (synthetic_data address) \<in> _\<close> by (auto simp: synthetic_frame_def synthetic_reply_def)
qed

lemma chunks_joined:
  assumes "70 \<le> length reply"
  shows "concat [take 3 STARTUP, drop 3 STARTUP, 0x06 # take 3 reply, slice 3 70 reply, drop 70 reply] = STARTUP @ [0x06] @ reply"
proof -
  have "take 3 reply @ slice 3 70 reply @ drop 70 reply = reply"
    using append_take_drop_id [of 3 reply] append_take_drop_id [of 67 "drop 3 reply"] by (simp add: slice_def)
  then show ?thesis by simp
qed

lemma feeds_parse:
  assumes "address \<in> {0x80, 0x81}" "synthetic_reply address = Inr reply"
  shows "\<exists>g cs. feed_chunks new_framer [take 3 STARTUP, drop 3 STARTUP, 0x06 # take 3 reply, slice 3 70 reply, drop 70 reply] =
      (g, [EvFrame startup_frame, EvControl ACK, EvFrame (synthetic_frame address reply)], cs) \<and> buffer g = []"
proof -
  have reply: "genuine (EvFrame (synthetic_frame address reply))" "150 < length reply"
    using reply_exists [OF assms(1)] assms(2) by auto
  let ?es = "[EvFrame startup_frame, EvControl ACK, EvFrame (synthetic_frame address reply)]"
  have wire: "concat (map wire_of ?es) = STARTUP @ [0x06] @ reply"
    by (simp add: startup_frame_def synthetic_frame_def)
  show ?thesis
    by (rule feed_chunks_wire)
      (use reply startup_genuine chunks_joined [of reply] wire in \<open>simp_all add: new_framer_def\<close>)
qed


text \<open>The run of the relay above, with evidence of the bytes fed.\<close>

definition good_rows :: "bytes \<Rightarrow> evidence_row list" where
  "good_rows raw =
     [\<lparr>rw_event = ''rx_raw'', rw_hex = Some (hex raw), rw_success = False, rw_post_send = None\<rparr>,
      \<lparr>rw_event = ''library_tx_completed'', rw_hex = None, rw_success = False, rw_post_send = None\<rparr>,
      \<lparr>rw_event = ''result'', rw_hex = None, rw_success = True, rw_post_send = Some 6\<rparr>]"

lemma good_rows_pass: "check_rows reply (good_rows (STARTUP @ [0x06] @ reply)) = Inr ()"
  by (simp add: check_rows_def good_rows_def fromhex_hex del: append_Cons fromhex.simps)

lemma sample_lines:
  "\<exists>r. relay_main sample_loads (Inr ()) sample_turns = (r, Some (Inr 0)) \<and>
     rl_emitted r = [Ready_line, tx_line [0x02, 0x00], tx_line [0x01, 0x00], tx_line [0x31, 0x15, 0x12], Exit_line 0]"
  by (simp add: relay_eval)


end
