(* ===== verification/Simulator_Types.thy ===== *)
theory Simulator_Types
  imports Simulator
begin

text \<open>
  The simulated scanner under arbitrary use: whatever is written to it, its fields stay in their
  types, everything it packs into bytes fits, and its operations raise two exceptions only.
\<close>

section \<open>Uses\<close>

datatype sim_call = Sim_open | Sim_write bytes | Sim_read nat | Sim_set_baud int | Sim_produce | Sim_close

fun sim_do :: "sim_call \<Rightarrow> Simulator \<Rightarrow> Simulator result" where
  "sim_do Sim_open m = Inr (sim_open m)"
| "sim_do (Sim_write data) m = sim_write data m"
| "sim_do (Sim_read limit) m = (case sim_read limit m of (r, m') \<Rightarrow> try_bind r (\<lambda>_. Inr m'))"
| "sim_do (Sim_set_baud baud) m = Inr (sim_set_baud baud m)"
| "sim_do Sim_produce m = produce m"
| "sim_do Sim_close m = Inr (sim_close m)"

fun sim_use :: "sim_call list \<Rightarrow> Simulator \<Rightarrow> Simulator result" where
  "sim_use [] m = Inr m"
| "sim_use (c # cs) m = try_bind (sim_do c m) (sim_use cs)"

section \<open>Types\<close>

definition SIM_RATES :: "int set" where
  "SIM_RATES = {9600, 19200, 38400, 500000}"

definition SIM_MODES :: "byte set" where
  "SIM_MODES = {0, 0x24, 0x25}"

definition sim_typed :: "Simulator \<Rightarrow> bool" where
  "sim_typed m \<longleftrightarrow>
     well_formed_configuration (sim_config m) \<and> validate_geometry (sim_angle m) (sim_resolution m) = Inr () \<and>
     sim_device_baud m \<in> SIM_RATES \<and> sim_mode m \<in> SIM_MODES \<and> sim_status m = 0x10 \<and>
     sim_scan_index m < 256 \<and> sim_telegram_index m < 256 \<and> [] \<notin> set (sim_queue m)"

lemma typed_new: "b \<in> SIM_RATES \<Longrightarrow> sim_typed (new_simulator a b r)"
  using sim_ok_new [of b a r] by (simp add: sim_typed_def sim_ok_def new_simulator_def SIM_RATES_def SIM_MODES_def)

text \<open>Changes of one field.\<close>

lemma typed_changes [simp]:
  "sim_typed m \<Longrightarrow> c \<in> SIM_MODES \<Longrightarrow> sim_typed (m\<lparr>sim_mode := c\<rparr>)"
  "sim_typed m \<Longrightarrow> b \<in> SIM_RATES \<Longrightarrow> sim_typed (m\<lparr>sim_device_baud := b\<rparr>)"
  "sim_typed m \<Longrightarrow> validate_geometry a q = Inr () \<Longrightarrow> sim_typed (m\<lparr>sim_angle := a, sim_resolution := q\<rparr>)"
  "sim_typed m \<Longrightarrow> well_formed_configuration cf \<Longrightarrow> sim_typed (m\<lparr>sim_config := cf\<rparr>)"
  "sim_typed m \<Longrightarrow> i < 256 \<Longrightarrow> j < 256 \<Longrightarrow> sim_typed (m\<lparr>sim_scan_index := i, sim_telegram_index := j\<rparr>)"
  "sim_typed (m\<lparr>sim_commands := cs\<rparr>) = sim_typed m" "sim_typed (m\<lparr>silence_next := n\<rparr>) = sim_typed m"
  "sim_typed (m\<lparr>nak_next := n\<rparr>) = sim_typed m" "sim_typed (m\<lparr>sim_incoming := f\<rparr>) = sim_typed m"
  "sim_typed (m\<lparr>sim_baud := baud\<rparr>) = sim_typed m" "sim_typed (m\<lparr>producing := p\<rparr>) = sim_typed m"
  by (simp_all add: sim_typed_def)

lemma typed_emit [simp]: "sim_typed (emit data m) = sim_typed m"
  using fragments_nonempty [of EMIT_STEPS data] by (auto simp: sim_typed_def emit_def EMIT_STEPS_def)

lemma unit_error: "conf_unit c = Inl e \<Longrightarrow> e = ProtocolError ''Reserved measurement unit''"
  by (auto simp: conf_unit_def split: if_splits)

definition unit_fault :: error where
  "unit_fault = ProtocolError ''Reserved measurement unit''"

definition fine :: "('a \<Rightarrow> bool) \<Rightarrow> 'a result \<Rightarrow> bool" where
  "fine P r = (case r of Inl e \<Rightarrow> e = unit_fault | Inr x \<Rightarrow> P x)"

lemma fine_simps [simp]: "fine P (Inl e) = (e = unit_fault)" "fine P (Inr x) = P x"
  by (simp_all add: fine_def)

lemma fine_bind: "fine P r \<Longrightarrow> (\<And>x. P x \<Longrightarrow> fine Q (f x)) \<Longrightarrow> fine Q (try_bind r f)"
  by (cases r) simp_all

lemma fine_mono: "fine P r \<Longrightarrow> (\<And>x. P x \<Longrightarrow> Q x) \<Longrightarrow> fine Q r"
  by (cases r) simp_all

lemma status_data_fine:
  assumes "sim_typed m"
  shows "fine (\<lambda>data. length data = 152) (status_data m)"
proof -
  have "sim_device_baud m \<in> {9600, 19200, 38400, 500000}" using assms by (simp add: sim_typed_def SIM_RATES_def)
  then obtain code where code: "status_baud_code (sim_device_baud m) = Some code" using status_baud_code_Some by blast
  show ?thesis
  proof (cases "conf_unit (sim_config m)")
    case (Inl e)
    then show ?thesis using code unit_error by (simp add: status_data_def unit_fault_def)
  next
    case (Inr u)
    obtain data where "status_data m = Inr data" "length data = 152" by (rule status_data_layout [OF code Inr])
    then show ?thesis by simp
  qed
qed

lemma baud_of_code_rate: "baud_of_code c = Some b \<Longrightarrow> b \<in> SIM_RATES"
  by (auto simp: baud_of_code_def BAUD_CODES_def SIM_RATES_def split: if_splits)

text \<open>A reply fits into a telegram, and the state it leaves is typed.\<close>

definition good_answer :: "bytes \<times> int option \<times> Simulator \<Rightarrow> bool" where
  "good_answer a \<longleftrightarrow>
     (case a of (reply, baud, m) \<Rightarrow> 0 < length reply \<and> length reply < 200 \<and> sim_typed m \<and>
        (\<forall>b. baud = Some b \<longrightarrow> b \<in> SIM_RATES))"

lemma answer_mode_good: "sim_typed m \<Longrightarrow> good_answer (answer_mode payload m)"
  by (auto simp: answer_mode_def good_answer_def SIM_MODES_def Let_def dest: baud_of_code_rate)

lemma answer_variant_good:
  "sim_typed m \<Longrightarrow> length payload = 5 \<Longrightarrow> answer_variant payload m = (reply, m') \<Longrightarrow> good_answer (reply, None, m')"
  by (auto simp: answer_variant_def good_answer_def Let_def split: sum.splits)

lemma sim_answer_good:
  assumes "sim_typed m"
  shows "fine good_answer (sim_answer payload m)"
proof -
  have plain: "good_answer (reply, None, m)" if "0 < length reply" "length reply < 200" for reply
    using that assms by (simp add: good_answer_def)
  have identity: "length identity_bytes = 22" by (simp add: identity_bytes_def encode_ascii_def)
  have "length (conf_raw (sim_config m)) \<le> 34"
    using assms by (auto simp: sim_typed_def well_formed_configuration_def)
  then have conf: "good_answer (0xF4 # conf_raw (sim_config m), None, m)" by (intro plain) simp_all
  have status: "fine good_answer (try_bind (status_data m) (\<lambda>data. Inr (0xB1 # data, None, m)))"
    by (rule fine_bind [OF status_data_fine [OF assms]]) (simp add: plain)
  have written: "fine good_answer (try_bind (make_configuration (drop 1 payload)) (\<lambda>c.
      Inr ([0xF7, 1] @ conf_raw c, None, m\<lparr>sim_config := c\<rparr>)))" if "length payload \<in> {33, 35}"
    using that assms
    by (auto simp: make_configuration_def good_answer_def well_formed_configuration_def)
  have variant: "fine good_answer (case answer_variant payload m of (reply, m') \<Rightarrow> Inr (reply, None, m'))"
    if "length payload = 5"
    using answer_variant_good [OF assms that] by (simp split: prod.split)
  show ?thesis
    unfolding sim_answer_def
    using status conf answer_mode_good [OF assms, of payload] variant written identity
    by (simp add: plain)
qed

lemma encode_fine: "0 < length payload \<Longrightarrow> length payload \<le> 808 \<Longrightarrow> fine (\<lambda>_. True) (encode payload 0x81)"
  using encode_Inr_iff [of payload "0x81"] by (cases payload) (auto simp: well_sized_def MAX_PAYLOAD_def)

lemma reply_to_typed:
  assumes "sim_typed m"
  shows "fine sim_typed (reply_to payload m)"
  unfolding reply_to_def
proof (rule fine_bind [OF sim_answer_good [OF assms]])
  fix a :: "bytes \<times> int option \<times> Simulator"
  assume "good_answer a"
  then obtain reply baud m1 where a: "a = (reply, baud, m1)" "0 < length reply" "length reply < 200" "sim_typed m1"
    "\<And>b. baud = Some b \<Longrightarrow> b \<in> SIM_RATES"
    unfolding good_answer_def by (cases a) auto
  let ?m = "if omit_ack m1 then m1 else emit [control_byte ACK] m1"
  have "sim_typed (new_device_baud baud (emit raw ?m))" for raw
    using a(4,5) by (simp add: new_device_baud_def split: option.split)
  then have "fine sim_typed (try_bind (encode (reply @ [sim_status ?m]) 0x81) (\<lambda>raw. Inr (new_device_baud baud (emit raw ?m))))"
    using a(2,3) by (intro fine_bind [OF encode_fine]) simp_all
  then show "fine sim_typed (case a of (reply, baud, m1) \<Rightarrow>
      let m2 = if omit_ack m1 then m1 else emit [control_byte ACK] m1 in
      try_bind (encode (reply @ [sim_status m2]) 0x81) (\<lambda>raw. Inr (new_device_baud baud (emit raw m2))))"
    using a(1) by (simp add: Let_def)
qed

lemma sim_events_typed: "sim_typed m \<Longrightarrow> fine sim_typed (sim_events es m)"
proof (induction es arbitrary: m)
  case (Cons e es)
  have "fine sim_typed (sim_event e m)"
    using Cons.prems reply_to_typed by (cases e) (simp_all add: Let_def)
  then show ?case using Cons.IH by (simp add: fine_bind)
qed simp

lemma sim_write_typed: "sim_typed m \<Longrightarrow> fine sim_typed (sim_write data m)"
  using sim_events_typed by (simp add: sim_write_def split: prod.split)

section \<open>Scans\<close>

lemma round_real_bounds: "of_int a \<le> x \<Longrightarrow> x < of_int b \<Longrightarrow> a \<le> round_real x \<and> round_real x \<le> b"
proof -
  assume x: "of_int a \<le> x" "x < of_int b"
  then have "a \<le> \<lfloor>x\<rfloor>" "\<lfloor>x\<rfloor> < b" by (simp_all add: le_floor_iff floor_less_iff)
  moreover have "a \<le> round x" "round x \<le> b" using x unfolding round_def by linarith+
  ultimately show ?thesis by (simp add: round_real_def)
qed

text \<open>The room is between 2 and 6 metres away, so that a distance fits into two bytes.\<close>

lemma sim_value_bounds:
  assumes "scale \<in> {100, 1000}"
  shows "200 \<le> sim_value m scale i \<and> sim_value m scale i \<le> 6000"
proof -
  have "2 \<le> sim_distance m i \<and> sim_distance m i < 6"
  proof -
    have "2 \<le> 38 / 10 + 11 / 10 * s + 35 / 100 * c \<and> 38 / 10 + 11 / 10 * s + 35 / 100 * c < 6"
      if "- 1 \<le> s" "s \<le> 1" "- 1 \<le> c" "c \<le> 1" for s c :: real
      using that by simp
    then show ?thesis unfolding sim_distance_def Let_def by (simp only: sin_ge_minus_one sin_le_one cos_ge_minus_one cos_le_one)
  qed
  then have "of_int 200 \<le> sim_distance m i * scale" "sim_distance m i * scale < of_int 6000"
    using assms by auto
  from round_real_bounds [OF this] show ?thesis by (simp add: sim_value_def)
qed

lemma geometry_steps:
  "validate_geometry a r = Inr () \<Longrightarrow> 100 \<le> py_round (of_int a / r) \<and> py_round (of_int a / r) \<le> 400"
  by (erule geometryE; hypsubst; simp)

lemma sim_count_bounds: "sim_typed m \<Longrightarrow> 101 \<le> sim_count m \<and> sim_count m \<le> 401"
  using geometry_steps by (simp add: sim_typed_def sim_count_def)

lemma length_pairs: "length (concat (map (\<lambda>i. to_bytes2 (f i)) is)) = 2 * length is"
  by (induction "is") simp_all

lemma scan_payload_fine:
  assumes "sim_typed m"
  shows "fine (\<lambda>payload. 0 < length payload \<and> length payload \<le> 808) (scan_payload m)"
  unfolding scan_payload_def
proof (rule fine_bind [where P = "\<lambda>_. True"])
  show "fine (\<lambda>_. True) (conf_unit (sim_config m))"
    using unit_error by (cases "conf_unit (sim_config m)") (simp_all add: unit_fault_def)
  have "nat (sim_count m) \<le> 401" using sim_count_bounds [OF assms] by linarith
  then show "fine (\<lambda>payload. 0 < length payload \<and> length payload \<le> 808)
      (let header = if unit = ''mm'' then sim_count m OR 0x4000 else sim_count m;
           scale = if unit = ''mm'' then 1000 else 100 in
       Inr (0xB0 # to_bytes2 header @ concat (map (\<lambda>i. to_bytes2 (sim_value m scale i)) [0..<nat (sim_count m)]) @
        (if conf_indices (sim_config m) then [word_of_nat (sim_scan_index m), word_of_nat (sim_telegram_index m)] else []) @
        [sim_status m]))" for unit
    by (simp add: Let_def length_pairs)
qed

lemma produce_typed:
  assumes "sim_typed m"
  shows "fine sim_typed (produce m)"
proof -
  have "fine (\<lambda>(raw, m'). sim_typed m') (scan_bytes m)"
    unfolding scan_bytes_def
  proof (rule fine_bind [OF scan_payload_fine [OF assms]], elim conjE)
    fix payload :: bytes
    assume "0 < length payload" "length payload \<le> 808"
    then show "fine (\<lambda>(raw, m'). sim_typed m') (try_bind (encode payload 0x81) (\<lambda>raw.
        Inr (raw, m\<lparr>sim_scan_index := (sim_scan_index m + nat (py_round (1 / sim_resolution m))) mod 256,
                 sim_telegram_index := (sim_telegram_index m + 1) mod 256\<rparr>)))"
      using assms by (intro fine_bind [OF encode_fine]) simp_all
  qed
  then have "fine sim_typed (try_bind (scan_bytes m) (\<lambda>(raw, m'). Inr (emit raw m')))"
    by (rule fine_bind) (simp split: prod.splits)
  then show ?thesis using assms by (simp add: produce_def)
qed

section \<open>Property\<close>

lemma sim_do_typed:
  assumes "sim_typed m"
  shows "case sim_do c m of Inl e \<Rightarrow> (case c of Sim_read _ \<Rightarrow> e = EOFError ''Simulator closed'' | _ \<Rightarrow> e = unit_fault)
    | Inr m' \<Rightarrow> sim_typed m'"
proof (cases c)
  case (Sim_write data)
  then show ?thesis using sim_write_typed [OF assms, of data] by (simp add: fine_def split: sum.splits)
next
  case Sim_produce
  then show ?thesis using produce_typed [OF assms] by (simp add: fine_def split: sum.splits)
next
  case (Sim_read limit)
  then show ?thesis
    using assms by (cases "sim_queue m") (auto simp: sim_read_def sim_typed_def Let_def)
qed (use assms in \<open>simp_all add: sim_open_def sim_set_baud_def sim_close_def sim_typed_def\<close>)

lemma sim_use_typed: "sim_use cs m = Inr m' \<Longrightarrow> sim_typed m \<Longrightarrow> sim_typed m'"
proof (induction cs arbitrary: m)
  case (Cons c cs)
  from Cons.prems(1) obtain m1 where "sim_do c m = Inr m1" "sim_use cs m1 = Inr m'"
    by (auto simp: try_bind_eq_Inr)
  then show ?case using Cons.IH sim_do_typed [OF Cons.prems(2), of c] by simp
qed simp



end
