(* ===== verification/Tcp_Transport.thy ===== *)
theory Tcp_Transport
  imports Transports
begin

text \<open>
  \<^verbatim>\<open>transports/tcp.py\<close> in full: the device's end of a bridge.  Every await takes one \<open>sock\<close> from a
  list, what the socket or its timer gave; an operation that has used up the list is \<open>None\<close>, still
  waiting.  \<open>Transports\<close> has the same operations with one answer each; the theory ends with the
  proof that these are what the operations here amount to.
\<close>

section \<open>Sockets\<close>

text \<open>A reply of the bridge: whether \<^verbatim>\<open>ok\<close> is set, and the keys it may hold.\<close>

record bridge_reply =
  rp_ok :: bool
  rp_data_port :: "int option"
  rp_baud :: "int option"

text \<open>
  The end of an await: it returned; a line came, with a reply if it is JSON; bytes came; the
  timer ran out; an exception.
\<close>

datatype sock = Went | Line "bridge_reply option" | Came bytes | Late | Broke error

datatype control_line = Ask_lease string | Ask_baud int

record Tcp =
  tc_host :: string
  tc_port :: int
  tc_baud :: int
  tc_control_port :: "int option"
  tc_token :: string
  tc_can_set_baud :: bool
  tc_data :: bool
  tc_control :: bool
  tc_lines :: "control_line list"
  tc_sent :: bytes
  tc_reached :: "int option"

text \<open>
  \<open>tc_data\<close> and \<open>tc_control\<close>: the reader and writer of a connection are there; \<open>tc_lines\<close> and
  \<open>tc_sent\<close>: what was written to them; \<open>tc_reached\<close>: the port of the last data connection.
\<close>

definition new_tcp :: "string \<Rightarrow> int \<Rightarrow> int \<Rightarrow> int option \<Rightarrow> string \<Rightarrow> Tcp" where
  "new_tcp host port baud control_port token =
     \<lparr>tc_host = host, tc_port = port, tc_baud = baud, tc_control_port = control_port, tc_token = token,
      tc_can_set_baud = control_port \<noteq> None, tc_data = False, tc_control = False, tc_lines = [],
      tc_sent = [], tc_reached = None\<rparr>"

type_synonym 'a tcp = "Tcp \<Rightarrow> sock list \<Rightarrow> ('a result \<times> Tcp \<times> sock list) option"

definition c_ret :: "'a \<Rightarrow> 'a tcp" where
  "c_ret x t ss = Some (Inr x, t, ss)"

definition c_raise :: "error \<Rightarrow> 'a tcp" where
  "c_raise e t ss = Some (Inl e, t, ss)"

definition c_bind :: "'a tcp \<Rightarrow> ('a \<Rightarrow> 'b tcp) \<Rightarrow> 'b tcp" where
  "c_bind m f t ss =
     (case m t ss of
        None \<Rightarrow> None
      | Some (Inl e, t', ss') \<Rightarrow> Some (Inl e, t', ss')
      | Some (Inr x, t', ss') \<Rightarrow> f x t' ss')"

definition c_catch :: "'a tcp \<Rightarrow> (error \<Rightarrow> 'a tcp) \<Rightarrow> 'a tcp" where
  "c_catch m h t ss =
     (case m t ss of
        Some (Inl e, t', ss') \<Rightarrow> h e t' ss'
      | r \<Rightarrow> r)"

definition c_modify :: "(Tcp \<Rightarrow> Tcp) \<Rightarrow> unit tcp" where
  "c_modify f t ss = Some (Inr (), f t, ss)"

definition c_get :: "(Tcp \<Rightarrow> 'a) \<Rightarrow> 'a tcp" where
  "c_get f t ss = Some (Inr (f t), t, ss)"

definition c_await :: "(sock \<Rightarrow> 'a result) \<Rightarrow> 'a tcp" where
  "c_await f t ss = (case ss of [] \<Rightarrow> None | s # rest \<Rightarrow> Some (f s, t, rest))"

lemmas c_steps = c_ret_def c_raise_def c_bind_def c_catch_def c_modify_def c_get_def c_await_def

text \<open>A plain await, and one for a reply line.\<close>

fun went :: "sock \<Rightarrow> unit result" where
  "went Late = Inl (TimeoutError [])"
| "went (Broke e) = Inl e"
| "went _ = Inr ()"

fun reply_of :: "sock \<Rightarrow> bridge_reply result" where
  "reply_of Late = Inl (TimeoutError [])"
| "reply_of (Broke e) = Inl e"
| "reply_of (Line (Some r)) =
     (if rp_ok r then Inr r
      else Inl (OSError ''Bridge rejected control request (check token, lease, and baud)''))"
| "reply_of _ = Inl (ValueError ''Expecting value'')"

definition key :: "'a option \<Rightarrow> 'a result" where
  "key v = (case v of None \<Rightarrow> Inl KeyError | Some x \<Rightarrow> Inr x)"

definition c_key :: "'a option \<Rightarrow> 'a tcp" where
  "c_key v = (case key v of Inl e \<Rightarrow> c_raise e | Inr x \<Rightarrow> c_ret x)"

section \<open>The operations\<close>

definition tcp_request :: "control_line \<Rightarrow> bridge_reply tcp" where
  "tcp_request line =
     c_bind (c_get tc_control) (\<lambda>connected.
     if \<not> connected then c_raise (OSError ''Bridge control channel is not connected'')
     else
       c_bind (c_modify (\<lambda>t. t\<lparr>tc_lines := tc_lines t @ [line]\<rparr>)) (\<lambda>_.
       c_bind (c_await went) (\<lambda>_. c_await reply_of)))"

text \<open>\<^verbatim>\<open>wait_closed\<close> of one writer; only an \<^verbatim>\<open>OSError\<close> is passed over.\<close>

fun closed_by :: "sock \<Rightarrow> unit result" where
  "closed_by (Broke e) = (if is_OSError e then Inr () else Inl e)"
| "closed_by _ = Inr ()"

definition close_writer :: "bool \<Rightarrow> unit tcp" where
  "close_writer there =
     (if there then c_await closed_by else c_ret ())"

definition tcp_close :: "unit tcp" where
  "tcp_close =
     c_bind (c_get tc_data) (\<lambda>data. c_bind (close_writer data) (\<lambda>_.
     c_bind (c_get tc_control) (\<lambda>control. c_bind (close_writer control) (\<lambda>_.
     c_modify (\<lambda>t. t\<lparr>tc_data := False, tc_control := False\<rparr>)))))"

definition tcp_lease :: "int tcp" where
  "tcp_lease =
     c_bind (c_await went) (\<lambda>_.
     c_bind (c_modify (\<lambda>t. t\<lparr>tc_control := True\<rparr>)) (\<lambda>_.
     c_bind (c_get tc_token) (\<lambda>token.
     c_bind (tcp_request (Ask_lease token)) (\<lambda>lease.
     c_bind (c_key (rp_data_port lease)) (\<lambda>port.
     c_bind (c_key (rp_baud lease)) (\<lambda>baud.
     c_bind (c_modify (\<lambda>t. t\<lparr>tc_baud := baud\<rparr>)) (\<lambda>_. c_ret port)))))))"

definition tcp_open :: "unit tcp" where
  "tcp_open =
     c_catch
       (c_bind (c_get (\<lambda>t. tc_control_port t \<noteq> None)) (\<lambda>leased.
        c_bind (if leased then tcp_lease else c_get tc_port) (\<lambda>port.
        c_bind (c_await went) (\<lambda>_.
        c_modify (\<lambda>t. t\<lparr>tc_data := True, tc_reached := Some port\<rparr>)))))
       (\<lambda>e. c_bind tcp_close (\<lambda>_. c_raise e))"

fun bytes_of :: "sock \<Rightarrow> bytes result" where
  "bytes_of Late = Inr []"
| "bytes_of (Broke e) = Inl e"
| "bytes_of (Came data) = (if data = [] then Inl (EOFError ''Bridge disconnected'') else Inr data)"
| "bytes_of _ = Inl (EOFError ''Bridge disconnected'')"

definition tcp_read :: "bytes tcp" where
  "tcp_read =
     c_bind (c_get tc_data) (\<lambda>there.
     if \<not> there then c_raise (EOFError ''TCP connection closed'')
     else c_await bytes_of)"

definition tcp_write :: "bytes \<Rightarrow> unit tcp" where
  "tcp_write data =
     c_bind (c_get tc_data) (\<lambda>there.
     if \<not> there then c_raise (EOFError ''TCP connection closed'')
     else c_bind (c_modify (\<lambda>t. t\<lparr>tc_sent := tc_sent t @ data\<rparr>)) (\<lambda>_. c_await went))"

definition tcp_set_baud :: "int \<Rightarrow> unit tcp" where
  "tcp_set_baud baud =
     c_bind (c_get tc_can_set_baud) (\<lambda>can.
     if \<not> can
     then
       c_bind (c_get tc_baud) (\<lambda>now.
       if baud \<noteq> now
       then c_raise (ValueError ''A transparent bridge without control supports fixed baud only'')
       else c_ret ())
     else
       c_bind (tcp_request (Ask_baud baud)) (\<lambda>result.
       c_bind (c_key (rp_baud result)) (\<lambda>actual.
       if actual \<noteq> baud then c_raise (OSError ''Host adapter baud verification failed'')
       else c_modify (\<lambda>t. t\<lparr>tc_baud := baud\<rparr>))))"

section \<open>What they amount to\<close>

definition tcp_view :: "Tcp \<Rightarrow> Transport" where
  "tcp_view t = \<lparr>tr_kind = TCP, tr_where = tc_host t, tr_baud = tc_baud t, tr_can_set_baud = tc_can_set_baud t,
     tr_opened = tc_data t, tr_metadata = None, tr_timestamp = None\<rparr>"

definition tcp_ok :: "Tcp \<Rightarrow> bool" where
  "tcp_ok t \<longleftrightarrow> tc_can_set_baud t = (tc_control_port t \<noteq> None)"

lemma tcp_ok_new: "tcp_ok (new_tcp host port baud control_port token)"
  by (simp add: tcp_ok_def new_tcp_def)

lemma tcp_view_sel [simp]:
  "tr_kind (tcp_view t) = TCP" "tr_baud (tcp_view t) = tc_baud t" "tr_opened (tcp_view t) = tc_data t"
  "tr_can_set_baud (tcp_view t) = tc_can_set_baud t"
  by (simp_all add: tcp_view_def)

lemma create_tcp:
  assumes "cfg_transport s = TCP" "create_transport s devices = Inr tr"
  shows "tr = tcp_view (new_tcp (cfg_host s) (cfg_tcp_port s) (cfg_baud s) (cfg_control_port s) token)"
  using assms by (simp add: create_transport_def new_transport_def tcp_view_def new_tcp_def)

text \<open>Any error can be the answer of an operation whose first step is an await.\<close>

lemma error_answer:
  "transport_open (tcp_view t) (Raised e) = Inl e" "transport_set_baud (tcp_view t) baud (Raised e) = Inl e"
  by (simp_all add: transport_open_def transport_set_baud_def plain_answer_def)

lemma c_steps_eq:
  "c_bind m f t ss = Some (r, t', ss') \<longleftrightarrow>
     (\<exists>e. m t ss = Some (Inl e, t', ss') \<and> r = Inl e) \<or>
     (\<exists>x u us. m t ss = Some (Inr x, u, us) \<and> f x u us = Some (r, t', ss'))"
  by (auto simp: c_bind_def split: option.splits prod.splits sum.splits)

lemma c_prims_eq:
  "c_ret x t ss = Some (r, t', ss') \<longleftrightarrow> r = Inr x \<and> t' = t \<and> ss' = ss"
  "c_raise e t ss = Some (r, t', ss') \<longleftrightarrow> r = Inl e \<and> t' = t \<and> ss' = ss"
  "c_modify f t ss = Some (q, t', ss') \<longleftrightarrow> q = Inr () \<and> t' = f t \<and> ss' = ss"
  "c_get g t ss = Some (r, t', ss') \<longleftrightarrow> r = Inr (g t) \<and> t' = t \<and> ss' = ss"
  "c_await h t ss = Some (r, t', ss') \<longleftrightarrow> (\<exists>s. ss = s # ss' \<and> r = h s) \<and> t' = t"
  "c_key v t ss = Some (r, t', ss') \<longleftrightarrow> r = key v \<and> t' = t \<and> ss' = ss"
  by (auto simp: c_steps c_key_def split: list.splits sum.splits)

lemma c_bind_Inr:
  "c_bind m f t ss = Some (Inr y, t', ss') \<longleftrightarrow>
     (\<exists>x u us. m t ss = Some (Inr x, u, us) \<and> f x u us = Some (Inr y, t', ss'))"
  by (auto simp: c_steps_eq)

lemmas c_eqs = c_steps_eq c_prims_eq

lemma c_catch_eq:
  "c_catch m h t ss = Some (r, t', ss') \<longleftrightarrow>
     (\<exists>x. r = Inr x \<and> m t ss = Some (Inr x, t', ss')) \<or>
     (\<exists>e u us. m t ss = Some (Inl e, u, us) \<and> h e u us = Some (r, t', ss'))"
  by (auto simp: c_catch_def split: option.splits prod.splits sum.splits)

text \<open>What an operation leaves alone.\<close>

definition c_leaves :: "(Tcp \<Rightarrow> 'b) \<Rightarrow> 'a tcp \<Rightarrow> bool" where
  "c_leaves f m \<longleftrightarrow> (\<forall>t ss r t' ss'. m t ss = Some (r, t', ss') \<longrightarrow> f t' = f t)"

lemma c_leavesD: "c_leaves f m \<Longrightarrow> m t ss = Some (r, t', ss') \<Longrightarrow> f t' = f t"
  unfolding c_leaves_def by blast

named_theorems c_leaves_intros

lemma c_leaves_prims [c_leaves_intros]:
  "c_leaves f (c_ret x)" "c_leaves f (c_raise e)" "c_leaves f (c_get g)" "c_leaves f (c_await h)" "c_leaves f (c_key v)"
  by (simp_all add: c_leaves_def c_prims_eq)

lemma c_leaves_modify [c_leaves_intros]: "(\<And>t. f (g t) = f t) \<Longrightarrow> c_leaves f (c_modify g)"
  by (simp add: c_leaves_def c_prims_eq)

lemma c_leaves_bind [c_leaves_intros]: "c_leaves f m \<Longrightarrow> (\<And>x. c_leaves f (g x)) \<Longrightarrow> c_leaves f (c_bind m g)"
  unfolding c_leaves_def c_steps_eq by metis

lemma c_leaves_catch [c_leaves_intros]: "c_leaves f m \<Longrightarrow> (\<And>e. c_leaves f (h e)) \<Longrightarrow> c_leaves f (c_catch m h)"
  unfolding c_leaves_def c_catch_eq by metis

lemma c_leaves_if [c_leaves_intros]: "c_leaves f m \<Longrightarrow> c_leaves f n \<Longrightarrow> c_leaves f (if b then m else n)"
  by simp

definition fixed :: "Tcp \<Rightarrow> string \<times> bool \<times> int option" where
  "fixed t = (tc_host t, tc_can_set_baud t, tc_control_port t)"

lemma request_leaves [c_leaves_intros]:
  "c_leaves fixed (tcp_request line)" "c_leaves tc_data (tcp_request line)" "c_leaves tc_baud (tcp_request line)"
  unfolding tcp_request_def by (intro c_leaves_intros; simp add: fixed_def)+

lemma lease_leaves: "c_leaves fixed tcp_lease" "c_leaves tc_data tcp_lease"
  unfolding tcp_lease_def by (intro c_leaves_intros; simp add: fixed_def)+

lemma tcp_open_Inr:
  assumes "tcp_open t ss = Some (Inr u, t', ss')" "tcp_ok t"
  shows "(\<exists>a. transport_open (tcp_view t) a = Inr (tcp_view t')) \<and> tcp_ok t' \<and> tc_data t'"
proof -
  have body: "c_bind (c_get (\<lambda>t. tc_control_port t \<noteq> None)) (\<lambda>leased.
        c_bind (if leased then tcp_lease else c_get tc_port) (\<lambda>port.
        c_bind (c_await went) (\<lambda>_.
        c_modify (\<lambda>t. t\<lparr>tc_data := True, tc_reached := Some port\<rparr>)))) t ss = Some (Inr u, t', ss')"
    using assms(1) unfolding tcp_open_def c_catch_eq by (simp add: c_bind_Inr [of tcp_close] c_prims_eq)
  show ?thesis
  proof (cases "tc_control_port t")
    case None
    then have "t' = t\<lparr>tc_data := True, tc_reached := Some (tc_port t)\<rparr>"
      using body by (auto simp: c_bind_Inr c_prims_eq)
    then show ?thesis
      using assms(2) None by (auto simp: tcp_ok_def tcp_view_def transport_open_def plain_answer_def intro!: exI [of _ Completed])
  next
    case (Some cp)
    then obtain port v vs where v: "tcp_lease t ss = Some (Inr port, v, vs)"
      "t' = v\<lparr>tc_data := True, tc_reached := Some port\<rparr>"
      using body by (auto simp: c_bind_Inr c_prims_eq)
    with c_leavesD [OF lease_leaves(1) v(1)] have "fixed t' = fixed t" "tc_data t'" by (simp_all add: fixed_def)
    then show ?thesis
      using assms(2) Some
      by (auto simp: tcp_ok_def tcp_view_def transport_open_def fixed_def intro!: exI [of _ "Replied (Accepted (tc_baud t'))"])
  qed
qed

text \<open>The outcome of an operation, as an operation of \<open>Transports\<close> has it.\<close>

definition via :: "'a result \<Rightarrow> Tcp \<Rightarrow> Transport result" where
  "via r t = try_bind r (\<lambda>_. Inr (tcp_view t))"

lemma via_simps [simp]: "via (Inl e) t = Inl e" "via (Inr x) t = Inr (tcp_view t)"
  by (simp_all add: via_def)

lemma tcp_open_via:
  assumes "tcp_open t ss = Some (r, t', ss')" "tcp_ok t"
  shows "\<exists>a. transport_open (tcp_view t) a = via r t'"
proof (cases r)
  case (Inl e)
  then show ?thesis using error_answer(1) by auto
next
  case (Inr u)
  then show ?thesis using tcp_open_Inr [of t ss u t' ss'] assms by simp
qed

lemma tcp_set_baud_via:
  assumes "tcp_set_baud baud t ss = Some (r, t', ss')"
  shows "case set_baud_guard (tcp_view t) baud of
      Inl e \<Rightarrow> r = Inl e \<and> t' = t
    | Inr _ \<Rightarrow> \<exists>a. transport_set_baud (tcp_view t) baud a = via r t'"
proof (cases "tc_can_set_baud t")
  case False
  then show ?thesis
    using assms
    by (auto simp: tcp_set_baud_def c_eqs set_baud_guard_def require_def transport_set_baud_def plain_answer_def
        tcp_view_def split: if_splits intro!: exI [of _ Completed])
next
  case True
  then have guard: "set_baud_guard (tcp_view t) baud = Inr ()" by (simp add: set_baud_guard_def)
  show ?thesis
  proof (cases r)
    case (Inl e)
    then show ?thesis using guard error_answer(2) by (auto intro: exI [of _ "Raised e"])
  next
    case (Inr u)
    obtain result v vs where v: "tcp_request (Ask_baud baud) t ss = Some (Inr result, v, vs)" "t' = v\<lparr>tc_baud := baud\<rparr>"
      using assms True Inr by (auto simp: tcp_set_baud_def c_bind_Inr c_prims_eq split: if_splits)
    have "fixed v = fixed t" "tc_data v = tc_data t"
      using c_leavesD [OF request_leaves(1) v(1)] c_leavesD [OF request_leaves(2) v(1)] by simp_all
    then have "transport_set_baud (tcp_view t) baud (Replied (Accepted baud)) = Inr (tcp_view t')"
      using True v(2) by (simp add: transport_set_baud_def tcp_view_def fixed_def)
    then show ?thesis using guard Inr by (auto intro: exI [of _ "Replied (Accepted baud)"])
  qed
qed

lemma closed_by_Inl: "closed_by s = Inl e \<Longrightarrow> \<not> is_OSError e"
  by (cases s) (auto split: if_splits)

lemma close_writer_eq:
  "close_writer there t ss = Some (r, t', ss') \<Longrightarrow> t' = t \<and> (\<forall>e. r = Inl e \<longrightarrow> \<not> is_OSError e)"
  by (auto simp: close_writer_def c_prims_eq closed_by_Inl split: if_splits)

lemma bytes_of_raw: "tc_data t \<Longrightarrow> \<exists>raw. transport_read (tcp_view t) raw = bytes_of s"
proof -
  assume t: "tc_data t"
  have "transport_read (tcp_view t) TimedOut = bytes_of Late"
    "transport_read (tcp_view t) (Chunk d) = bytes_of (Came d)"
    "transport_read (tcp_view t) (ReadRaised e) = bytes_of (Broke e)"
    "transport_read (tcp_view t) (Chunk []) = bytes_of Went" "transport_read (tcp_view t) (Chunk []) = bytes_of (Line r)" for d e r
    using t by (simp_all add: transport_read_def)
  then show ?thesis by (cases s) blast+
qed

lemma tcp_close_via:
  assumes "tcp_close t ss = Some (r, t', ss')" "tc_data t"
  shows "\<exists>a. transport_close (tcp_view t) a = via r t'"
proof (cases r)
  case (Inr u)
  then have "t' = t\<lparr>tc_data := False, tc_control := False\<rparr>"
    using assms(1) by (auto simp: tcp_close_def c_bind_Inr c_prims_eq dest!: close_writer_eq)
  then have "transport_close (tcp_view t) Completed = via r t'"
    using assms(2) Inr by (simp add: transport_close_def tcp_view_def)
  then show ?thesis ..
next
  case (Inl e)
  then have "\<not> is_OSError e"
    using assms(1) by (auto simp: tcp_close_def c_eqs dest!: close_writer_eq)
  then have "transport_close (tcp_view t) (Raised e) = via r t'"
    using assms(2) Inl by (simp add: transport_close_def)
  then show ?thesis ..
qed

lemma tcp_read_via:
  assumes "tcp_read t ss = Some (r, t', ss')" "tc_data t"
  shows "t' = t" "\<exists>raw. transport_read (tcp_view t) raw = r"
proof -
  show "t' = t" using assms by (auto simp: tcp_read_def c_eqs split: if_splits)
  show "\<exists>raw. transport_read (tcp_view t) raw = r"
    using assms bytes_of_raw by (auto simp: tcp_read_def c_eqs split: if_splits)
qed

lemma tcp_write_via:
  assumes "tcp_write data t ss = Some (r, t', ss')"
  shows "case write_guard (tcp_view t) of
      Inl e \<Rightarrow> r = Inl e \<and> t' = t
    | Inr _ \<Rightarrow> (\<exists>a. plain_answer a = r) \<and> tcp_view t' = tcp_view t \<and> tc_sent t' = tc_sent t @ data"
proof (cases "tc_data t")
  case False
  then show ?thesis using assms by (auto simp: tcp_write_def c_eqs write_guard_def require_def)
next
  case True
  have "\<exists>a. plain_answer a = went s" for s
    by (cases s) (auto simp: plain_answer_def intro: exI [of _ Completed] exI [of _ Elapsed] exI [of _ "Raised e" for e])
  then show ?thesis
    using True assms by (auto simp: tcp_write_def c_eqs write_guard_def require_def tcp_view_def)
qed

section \<open>Sessions\<close>

text \<open>
  A client opens the transport, makes its calls and closes it; the first exception ends the
  session.  The result is what the reads returned.
\<close>

datatype call = Call_read | Call_write bytes | Call_set_baud int

fun tcp_calls :: "call list \<Rightarrow> bytes list tcp" where
  "tcp_calls [] = c_bind tcp_close (\<lambda>_. c_ret [])"
| "tcp_calls (Call_read # calls) = c_bind tcp_read (\<lambda>d. c_bind (tcp_calls calls) (\<lambda>ds. c_ret (d # ds)))"
| "tcp_calls (Call_write data # calls) = c_bind (tcp_write data) (\<lambda>_. tcp_calls calls)"
| "tcp_calls (Call_set_baud baud # calls) = c_bind (tcp_set_baud baud) (\<lambda>_. tcp_calls calls)"

definition tcp_session :: "call list \<Rightarrow> bytes list tcp" where
  "tcp_session calls = c_bind tcp_open (\<lambda>_. tcp_calls calls)"

text \<open>
  The same session with the transport of \<open>Transports\<close>: one answer from outside for each call,
  whichever it is, and the reads' results with the transport left at the end.
\<close>

inductive transport_serves :: "call list \<Rightarrow> Transport \<Rightarrow> (bytes list \<times> Transport) result \<Rightarrow> bool" where
  closes: "transport_close tr a = q \<Longrightarrow> transport_serves [] tr (try_bind q (\<lambda>tr'. Inr ([], tr')))"
| reads: "transport_read tr raw = Inr d \<Longrightarrow> transport_serves calls tr r \<Longrightarrow>
    transport_serves (Call_read # calls) tr (try_bind r (\<lambda>(ds, tr'). Inr (d # ds, tr')))"
| reads_not: "transport_read tr raw = Inl e \<Longrightarrow> transport_serves (Call_read # calls) tr (Inl e)"
| writes: "write_guard tr = Inr () \<Longrightarrow> plain_answer a = Inr () \<Longrightarrow> transport_serves calls tr r \<Longrightarrow>
    transport_serves (Call_write data # calls) tr r"
| writes_not: "try_bind (write_guard tr) (\<lambda>_. plain_answer a) = Inl e \<Longrightarrow>
    transport_serves (Call_write data # calls) tr (Inl e)"
| sets: "set_baud_guard tr baud = Inr () \<Longrightarrow> transport_set_baud tr baud a = Inr tr' \<Longrightarrow>
    transport_serves calls tr' r \<Longrightarrow> transport_serves (Call_set_baud baud # calls) tr r"
| sets_not: "try_bind (set_baud_guard tr baud) (\<lambda>_. transport_set_baud tr baud a) = Inl e \<Longrightarrow>
    transport_serves (Call_set_baud baud # calls) tr (Inl e)"

definition session_answer :: "bytes list result \<Rightarrow> Tcp \<Rightarrow> (bytes list \<times> Transport) result" where
  "session_answer r t = try_bind r (\<lambda>ds. Inr (ds, tcp_view t))"

fun written :: "call list \<Rightarrow> bytes" where
  "written [] = []"
| "written (Call_write data # calls) = data @ written calls"
| "written (_ # calls) = written calls"

lemma session_answer_simps [simp]:
  "session_answer (Inl e) t = Inl e" "session_answer (Inr ds) t = Inr (ds, tcp_view t)"
  by (simp_all add: session_answer_def)

lemma c_bind_ret:
  "c_bind m (\<lambda>x. c_ret (f x)) t ss = Some (r, t', ss') \<longleftrightarrow>
     (\<exists>q. m t ss = Some (q, t', ss') \<and> r = try_bind q (\<lambda>x. Inr (f x)))"
  by (auto simp: c_bind_def c_ret_def split: option.splits prod.splits sum.splits)

lemma close_leaves: "c_leaves tc_sent tcp_close"
  unfolding tcp_close_def close_writer_def by (intro c_leaves_intros; simp)+

lemma set_baud_keeps:
  assumes "tcp_set_baud baud t ss = Some (r, t', ss')"
  shows "tc_data t' = tc_data t" "tc_sent t' = tc_sent t"
proof -
  have "c_leaves tc_data (tcp_set_baud baud)" "c_leaves tc_sent (tcp_set_baud baud)"
    unfolding tcp_set_baud_def tcp_request_def by (intro c_leaves_intros; simp)+
  then show "tc_data t' = tc_data t" "tc_sent t' = tc_sent t" using assms by (blast dest: c_leavesD)+
qed

lemma open_keeps_sent:
  assumes "tcp_open t ss = Some (r, t', ss')"
  shows "tc_sent t' = tc_sent t"
proof -
  have "c_leaves tc_sent tcp_open"
    unfolding tcp_open_def tcp_lease_def tcp_request_def by (intro c_leaves_intros close_leaves; simp)+
  then show ?thesis using assms by (rule c_leavesD)
qed

lemma calls_served:
  assumes "tcp_calls calls t ss = Some (r, t', ss')" "tc_data t"
  shows "transport_serves calls (tcp_view t) (session_answer r t') \<and>
    (\<forall>ds. r = Inr ds \<longrightarrow> tc_sent t' = tc_sent t @ written calls)"
  using assms
proof (induction calls arbitrary: t ss r)
  case Nil
  then obtain q where q: "tcp_close t ss = Some (q, t', ss')" "r = try_bind q (\<lambda>_. Inr [])"
    by (auto simp: c_bind_ret)
  obtain a where "transport_close (tcp_view t) a = via q t'" using tcp_close_via [OF q(1) Nil(2)] by blast
  from closes [of _ a, OF this] have "transport_serves [] (tcp_view t) (session_answer r t')"
    using q(2) by (cases q) simp_all
  then show ?case using c_leavesD [OF close_leaves q(1)] by simp
next
  case (Cons c calls)
  show ?case
  proof (cases c)
    case Call_read
    consider (failed) e where "tcp_read t ss = Some (Inl e, t', ss')" "r = Inl e"
      | (got) d u us q where "tcp_read t ss = Some (Inr d, u, us)" "tcp_calls calls u us = Some (q, t', ss')"
          "r = try_bind q (\<lambda>ds. Inr (d # ds))"
      using Cons.prems(1) Call_read
      by (auto simp: c_steps_eq [of tcp_read] c_bind_ret)
    then show ?thesis
    proof cases
      case failed
      then show ?thesis
        using tcp_read_via(2) [OF failed(1) Cons.prems(2)] Call_read by (auto intro: reads_not)
    next
      case got
      note read = tcp_read_via [OF got(1) Cons.prems(2)]
      obtain raw where raw: "transport_read (tcp_view t) raw = Inr d" using read(2) by blast
      note IH = Cons.IH [OF got(2) [unfolded read(1)] Cons.prems(2)]
      then have "transport_serves (Call_read # calls) (tcp_view t) (session_answer r t')"
        using reads [OF raw, of calls "session_answer q t'"] got(3) by (cases q) simp_all
      then show ?thesis using IH got(3) Call_read by (cases q) simp_all
    qed
  next
    case (Call_write data)
    have guard: "write_guard (tcp_view t) = Inr ()" using Cons.prems(2) by (simp add: write_guard_def require_def)
    consider (failed) e where "tcp_write data t ss = Some (Inl e, t', ss')" "r = Inl e"
      | (gone) u us where "tcp_write data t ss = Some (Inr (), u, us)" "tcp_calls calls u us = Some (r, t', ss')"
      using Cons.prems(1) Call_write by (auto simp: c_eqs)
    then show ?thesis
    proof cases
      case failed
      then show ?thesis using tcp_write_via [OF failed(1)] guard Call_write by (auto intro: writes_not)
    next
      case gone
      from tcp_write_via [OF gone(1)] guard obtain a where a: "plain_answer a = Inr ()"
        "tcp_view u = tcp_view t" "tc_sent u = tc_sent t @ data" by auto
      have "tc_data u" using a(2) Cons.prems(2) by (metis tcp_view_sel(3))
      from Cons.IH [OF gone(2) this] a writes [OF guard a(1), of calls "session_answer r t'" data]
      show ?thesis using Call_write by simp
    qed
  next
    case (Call_set_baud baud)
    consider (failed) e where "tcp_set_baud baud t ss = Some (Inl e, t', ss')" "r = Inl e"
      | (set) u us where "tcp_set_baud baud t ss = Some (Inr (), u, us)" "tcp_calls calls u us = Some (r, t', ss')"
      using Cons.prems(1) Call_set_baud by (auto simp: c_eqs)
    then show ?thesis
    proof cases
      case failed
      have "\<exists>a. try_bind (set_baud_guard (tcp_view t) baud) (\<lambda>_. transport_set_baud (tcp_view t) baud a) = Inl e"
        using tcp_set_baud_via [OF failed(1)] by (cases "set_baud_guard (tcp_view t) baud") auto
      then show ?thesis using failed(2) Call_set_baud by (auto intro: sets_not)
    next
      case set
      from tcp_set_baud_via [OF set(1)] obtain a where a: "set_baud_guard (tcp_view t) baud = Inr ()"
        "transport_set_baud (tcp_view t) baud a = Inr (tcp_view u)"
        by (cases "set_baud_guard (tcp_view t) baud") auto
      note kept = set_baud_keeps [OF set(1)]
      from Cons.IH [OF set(2)] kept Cons.prems(2) sets [OF a, of calls "session_answer r t'"]
      show ?thesis using Call_set_baud by simp
    qed
  qed
qed


definition example_tcp :: Settings where
  "example_tcp = default_settings\<lparr>cfg_transport := TCP, cfg_control_port := Some 7001\<rparr>"

definition example_socks :: "sock list" where
  "example_socks = [Went, Went, Line (Some \<lparr>rp_ok = True, rp_data_port = Some 7000, rp_baud = Some 9600\<rparr>), Went,
     Went, Late, Came [6], Went, Line (Some \<lparr>rp_ok = True, rp_data_port = None, rp_baud = Some 38400\<rparr>), Went, Went]"

definition example_calls :: "call list" where
  "example_calls = [Call_write [2, 0], Call_read, Call_read, Call_set_baud 38400]"

lemma example_session:
  "\<exists>t. tcp_session example_calls (new_tcp (cfg_host example_tcp) (cfg_tcp_port example_tcp) (cfg_baud example_tcp)
      (cfg_control_port example_tcp) ''secret'') example_socks = Some (Inr [[], [6]], t, []) \<and> tc_baud t = 38400"
  unfolding example_calls_def example_socks_def example_tcp_def
  by (simp add: tcp_session_def tcp_open_def tcp_lease_def tcp_request_def tcp_write_def tcp_read_def
      tcp_set_baud_def tcp_close_def close_writer_def key_def new_tcp_def c_steps c_key_def default_settings_def)


end
