(* ===== verification/Step_Runs.thy ===== *)
theory Step_Runs
  imports Prelude
begin

text \<open>
  Machines whose steps may be impossible: what interleaves in the program is a list of events, an
  event is a partial function on the state, and a run is their composition.  The bridge, its
  shutdown, the link of a client with the bridge and the serial transport are such machines.
\<close>

locale stepping =
  fixes step :: "'e \<Rightarrow> 's \<Rightarrow> 's option" and run :: "'e list \<Rightarrow> 's \<Rightarrow> 's option"
  assumes run_Nil: "run [] s = Some s"
    and run_Cons: "run (e # es) s = (case step e s of None \<Rightarrow> None | Some s' \<Rightarrow> run es s')"
begin

lemma run_Cons_Some: "run (e # es) s = Some t \<longleftrightarrow> (\<exists>s'. step e s = Some s' \<and> run es s' = Some t)"
  by (simp add: run_Cons split: option.split)

lemma run_one: "run [e] s = step e s"
  by (simp add: run_Cons run_Nil split: option.split)

lemma run_append: "run (es @ fs) s = (case run es s of None \<Rightarrow> None | Some s' \<Rightarrow> run fs s')"
  by (induction es arbitrary: s) (simp_all add: run_Nil run_Cons split: option.split)

text \<open>What every possible step among \<open>E\<close> keeps, a run of such events keeps.\<close>

lemma run_keeps:
  assumes "\<And>e s s'. e \<in> E \<Longrightarrow> step e s = Some s' \<Longrightarrow> I s \<Longrightarrow> I s'" "run es s = Some t" "set es \<subseteq> E" "I s"
  shows "I t"
  using assms(2-4)
proof (induction es arbitrary: s)
  case (Cons e es)
  then obtain s' where "step e s = Some s'" "run es s' = Some t" by (auto simp: run_Cons_Some)
  with Cons assms(1) [of e s s'] show ?case by simp
qed (simp add: run_Nil)

text \<open>With a step that refines a total function \<open>g\<close> under an abstraction, a run refines its composition.\<close>

lemma run_refines:
  assumes "\<And>e s s'. step e s = Some s' \<Longrightarrow> I s \<Longrightarrow> I s' \<and> a s' = g e (a s)" "run es s = Some t" "I s"
  shows "I t \<and> a t = fold g es (a s)"
  using assms(2,3)
proof (induction es arbitrary: s)
  case (Cons e es)
  then obtain s' where s': "step e s = Some s'" "run es s' = Some t" by (auto simp: run_Cons_Some)
  with Cons assms(1) [OF s'(1)] show ?case by simp
qed (simp add: run_Nil)

end

end
