(* ===== verification/Serial_Transport.thy ===== *)
theory Serial_Transport
  imports Transports Step_Runs
begin

text \<open>
  \<^verbatim>\<open>transports/serial.py\<close> as a state machine: the calls of the port run in worker threads, so that
  writes, changes of the rate and the closing can meet.  A lock lets one write or one change of
  the rate go on at a time; closing does not take it.  Each step is the completion of one call
  of the port, with what it gave.
\<close>

section \<open>State\<close>

record Serial_port =
  sp_open :: bool
  sp_rate :: int

text \<open>
  What holds the lock: a write, with the pieces the port has taken and the bytes that remain, or
  a change of the rate.
\<close>

datatype serial_job = Unlocked | Writing bytes "bytes list" bytes | Setting int

text \<open>A write that has ended: its rate and data, the pieces taken, and whether it was complete.\<close>

record ended_write =
  wr_rate :: int
  wr_asked :: bytes
  wr_pieces :: "bytes list"
  wr_complete :: bool

text \<open>\<open>se_wire\<close>: the bytes on the line, each with the rate of the port then; \<open>se_ended\<close>: the writes so far.\<close>

record Serial =
  se_baud :: int
  se_port :: "Serial_port option"
  se_job :: serial_job
  se_wire :: "(int \<times> byte) list"
  se_ended :: "ended_write list"

definition new_serial :: "int \<Rightarrow> Serial" where
  "new_serial baud = \<lparr>se_baud = baud, se_port = None, se_job = Unlocked, se_wire = [], se_ended = []\<rparr>"

section \<open>Operations\<close>

definition serial_opened :: "Serial \<Rightarrow> Serial" where
  "serial_opened s = s\<lparr>se_port := Some \<lparr>sp_open = True, sp_rate = se_baud s\<rparr>\<rparr>"

text \<open>\<^verbatim>\<open>_device\<close>\<close>

definition live_port :: "Serial \<Rightarrow> Serial_port result" where
  "live_port s =
     (case se_port s of
        Some p \<Rightarrow> if sp_open p then Inr p else Inl (EOFError ''Serial device closed'')
      | None \<Rightarrow> Inl (EOFError ''Serial device closed''))"

text \<open>How many bytes \<^verbatim>\<open>read\<close> asks the port for.\<close>

definition serial_read :: "int \<Rightarrow> int \<Rightarrow> Serial \<Rightarrow> int result" where
  "serial_read limit in_waiting s = try_bind (live_port s) (\<lambda>_. Inr (serial_read_size limit in_waiting))"

definition end_write :: "bytes \<Rightarrow> bytes list \<Rightarrow> bool \<Rightarrow> Serial \<Rightarrow> Serial" where
  "end_write asked pieces ok s =
     s\<lparr>se_job := Unlocked,
       se_ended := se_ended s @ [\<lparr>wr_rate = se_baud s, wr_asked = asked, wr_pieces = pieces, wr_complete = ok\<rparr>]\<rparr>"

text \<open>\<^verbatim>\<open>_write\<close>, to its first call of the port: with nothing to write at the paced rate there is none.\<close>

definition begin_write :: "bytes \<Rightarrow> Serial \<Rightarrow> unit result \<times> Serial" where
  "begin_write data s =
     (case live_port s of
        Inl e \<Rightarrow> (Inl e, s)
      | Inr _ \<Rightarrow>
          if se_baud s = 500000 \<and> data = [] then (Inr (), end_write data [] True s)
          else (Inr (), s\<lparr>se_job := Writing data [] data\<rparr>))"

definition on_wire :: "bytes \<Rightarrow> Serial \<Rightarrow> Serial" where
  "on_wire data s =
     (case se_port s of
        None \<Rightarrow> s
      | Some p \<Rightarrow> s\<lparr>se_wire := se_wire s @ map (Pair (sp_rate p)) data\<rparr>)"

text \<open>The port has taken \<open>n\<close> bytes of what \<^verbatim>\<open>write\<close> gave it, and is flushed.\<close>

definition port_took :: "nat \<Rightarrow> bytes \<Rightarrow> bytes list \<Rightarrow> bytes \<Rightarrow> Serial \<Rightarrow> Serial" where
  "port_took n asked pieces rest s =
     (let chunk = (if se_baud s = 500000 then take 1 rest else rest);
          left = (if se_baud s = 500000 then drop 1 rest else []);
          taken = take n chunk;
          s' = on_wire taken s in
      if n \<noteq> length chunk then end_write asked (pieces @ [taken]) False s'
      else if left = [] then end_write asked (pieces @ [taken]) True s'
      else s'\<lparr>se_job := Writing asked (pieces @ [taken]) left\<rparr>)"

definition begin_baud :: "int \<Rightarrow> Serial \<Rightarrow> unit result \<times> Serial" where
  "begin_baud baud s =
     (case live_port s of Inl e \<Rightarrow> (Inl e, s) | Inr _ \<Rightarrow> (Inr (), s\<lparr>se_job := Setting baud\<rparr>))"

definition baud_done :: "int \<Rightarrow> Serial \<Rightarrow> Serial" where
  "baud_done baud s =
     s\<lparr>se_port := map_option (\<lambda>p. p\<lparr>sp_rate := baud\<rparr>) (se_port s), se_baud := baud, se_job := Unlocked\<rparr>"

section \<open>Interleaving\<close>

text \<open>
  \<open>Port_write\<close>, \<open>Port_write_raised\<close>: a call of \<^verbatim>\<open>write\<close> of the port has ended; \<open>Baud_raised\<close>: the
  assignment of the rate has raised, and the port is left at some rate; \<open>Port_close\<close>: \<^verbatim>\<open>close\<close> of
  the port has ended, by returning or, \<open>Port_close_raised\<close>, with an exception, open or not.
\<close>

datatype serial_event =
    Open_returned
  | Write_called bytes
  | Port_write nat
  | Port_write_raised
  | Baud_called int
  | Baud_returned
  | Baud_raised int
  | Port_close
  | Port_close_raised bool

fun serial_step :: "serial_event \<Rightarrow> Serial \<Rightarrow> Serial option" where
  "serial_step Open_returned s =
     (if se_port s = None \<and> se_job s = Unlocked then Some (serial_opened s) else None)"
| "serial_step (Write_called data) s = (if se_job s = Unlocked then Some (snd (begin_write data s)) else None)"
| "serial_step (Port_write n) s =
     (case (se_job s, live_port s) of
        (Writing asked pieces rest, Inr _) \<Rightarrow> Some (port_took n asked pieces rest s)
      | _ \<Rightarrow> None)"
| "serial_step Port_write_raised s =
     (case se_job s of Writing asked pieces rest \<Rightarrow> Some (end_write asked pieces False s) | _ \<Rightarrow> None)"
| "serial_step (Baud_called baud) s = (if se_job s = Unlocked then Some (snd (begin_baud baud s)) else None)"
| "serial_step Baud_returned s = (case se_job s of Setting baud \<Rightarrow> Some (baud_done baud s) | _ \<Rightarrow> None)"
| "serial_step (Baud_raised rate) s =
     (case se_job s of
        Setting baud \<Rightarrow>
          Some (s\<lparr>se_port := map_option (\<lambda>p. p\<lparr>sp_rate := rate\<rparr>) (se_port s), se_job := Unlocked\<rparr>)
      | _ \<Rightarrow> None)"
| "serial_step Port_close s = Some (s\<lparr>se_port := None\<rparr>)"
| "serial_step (Port_close_raised still) s =
     (if se_port s = None then None
      else Some (s\<lparr>se_port := map_option (\<lambda>p. p\<lparr>sp_open := still\<rparr>) (se_port s)\<rparr>))"

fun serial_run :: "serial_event list \<Rightarrow> Serial \<Rightarrow> Serial option" where
  "serial_run [] s = Some s"
| "serial_run (e # es) s = (case serial_step e s of None \<Rightarrow> None | Some s' \<Rightarrow> serial_run es s')"

interpretation serial: stepping serial_step serial_run
  by unfold_locales simp_all

section \<open>Invariant\<close>

fun under_way :: "serial_job \<Rightarrow> bytes list" where
  "under_way (Writing asked pieces rest) = pieces"
| "under_way _ = []"

text \<open>Bytes as they go over the line at one rate.\<close>

definition at_rate :: "int \<Rightarrow> bytes list \<Rightarrow> (int \<times> byte) list" where
  "at_rate rate pieces = map (Pair rate) (concat pieces)"

text \<open>The pieces a write is handed over in: byte by byte at the paced rate, otherwise in one.\<close>

definition paced :: "int \<Rightarrow> bytes list \<Rightarrow> bool" where
  "paced rate pieces \<longleftrightarrow> (if rate = 500000 then \<forall>p \<in> set pieces. length p \<le> 1 else length pieces \<le> 1)"

definition whole_write :: "ended_write \<Rightarrow> bool" where
  "whole_write w \<longleftrightarrow>
     isprefix (concat (wr_pieces w)) (wr_asked w) \<and> paced (wr_rate w) (wr_pieces w) \<and>
     (wr_complete w \<longrightarrow> concat (wr_pieces w) = wr_asked w)"

fun job_whole :: "int \<Rightarrow> serial_job \<Rightarrow> bool" where
  "job_whole rate (Writing asked pieces rest) \<longleftrightarrow>
     asked = concat pieces @ rest \<and> paced rate pieces \<and> (rate \<noteq> 500000 \<longrightarrow> pieces = [])"
| "job_whole rate _ \<longleftrightarrow> True"

definition serial_ok :: "Serial \<Rightarrow> bool" where
  "serial_ok s \<longleftrightarrow>
     (\<forall>p. se_port s = Some p \<longrightarrow> sp_rate p = se_baud s) \<and>
     se_wire s = concat (map (\<lambda>w. at_rate (wr_rate w) (wr_pieces w)) (se_ended s)) @ at_rate (se_baud s) (under_way (se_job s)) \<and>
     list_all whole_write (se_ended s) \<and> job_whole (se_baud s) (se_job s)"

lemma at_rate_simps [simp]: "at_rate rate [] = []" "at_rate rate (ps @ qs) = at_rate rate ps @ at_rate rate qs"
  "at_rate rate [p] = map (Pair rate) p"
  by (simp_all add: at_rate_def)

lemma live_port_Inr: "live_port s = Inr p \<longleftrightarrow> se_port s = Some p \<and> sp_open p"
  by (auto simp: live_port_def split: option.splits)

lemma end_write_ok:
  assumes "serial_ok s" "se_job s = Writing asked pieces rest"
  shows "serial_ok (end_write asked pieces False s)"
  using assms by (auto simp: serial_ok_def end_write_def whole_write_def isprefix_def)

lemma port_took_ok:
  assumes "serial_ok s" "se_job s = Writing asked pieces rest" "live_port s = Inr p"
  shows "serial_ok (port_took n asked pieces rest s)"
proof -
  have p: "se_port s = Some p" "sp_rate p = se_baud s" using assms by (auto simp: live_port_Inr serial_ok_def)
  have job: "asked = concat pieces @ rest" "paced (se_baud s) pieces" "se_baud s \<noteq> 500000 \<Longrightarrow> pieces = []"
    using assms(1,2) by (auto simp: serial_ok_def)
  show ?thesis
  proof (cases "se_baud s = 500000")
    case True
    then show ?thesis
      using assms(1,2) p job
      by (cases rest; cases n)
        (auto simp: port_took_def on_wire_def end_write_def serial_ok_def whole_write_def paced_def isprefix_iff Let_def)
  next
    case False
    then show ?thesis
      using assms(1,2) p job
      by (auto simp: port_took_def on_wire_def end_write_def serial_ok_def whole_write_def paced_def isprefix_def min_def Let_def)
  qed
qed

lemma serial_step_ok:
  assumes "serial_step e s = Some s'" "serial_ok s" "\<And>r. e \<noteq> Baud_raised r"
  shows "serial_ok s'"
proof (cases e)
  case (Port_write n)
  then obtain asked pieces rest p where "se_job s = Writing asked pieces rest" "live_port s = Inr p"
    "s' = port_took n asked pieces rest s"
    using assms(1) by (auto split: serial_job.splits sum.splits)
  then show ?thesis using port_took_ok assms(2) by blast
next
  case Port_write_raised
  then show ?thesis using assms(1,2) end_write_ok by (auto split: serial_job.splits)
next
  case (Write_called data)
  then show ?thesis
    using assms(1,2)
    by (auto simp: begin_write_def end_write_def serial_ok_def whole_write_def paced_def isprefix_def split: if_splits sum.splits)
next
  case (Baud_called baud)
  then show ?thesis
    using assms(1,2) by (auto simp: begin_baud_def serial_ok_def split: if_splits sum.splits)
next
  case Baud_returned
  then show ?thesis
    using assms(1,2) by (auto simp: baud_done_def serial_ok_def split: serial_job.splits)
qed (use assms in \<open>auto simp: serial_opened_def serial_ok_def split: if_splits\<close>)

lemma serial_run_ok:
  assumes "serial_run es s = Some s'" "serial_ok s" "\<forall>r. Baud_raised r \<notin> set es"
  shows "serial_ok s'"
proof (rule serial.run_keeps [where E = "- range Baud_raised", OF _ assms(1)])
  fix e x x'
  assume "e \<in> - range Baud_raised" "serial_step e x = Some x'" "serial_ok x"
  then show "serial_ok x'" using serial_step_ok [of e x x'] by blast
qed (use assms(2,3) in auto)

section \<open>Property\<close>


definition serial_events :: "serial_event list" where
  "serial_events = [Open_returned, Write_called [2, 0], Port_write 2, Baud_called 500000, Baud_returned,
     Write_called [6, 7, 8], Port_write 1, Port_write 1, Port_close, Port_write_raised]"


end
