(* ===== verification/Bridge.thy ===== *)
theory Bridge
  imports Step_Runs
begin

text \<open>
  \<^verbatim>\<open>bridge.py\<close>: a serial port behind two sockets.  A control connection that knows the token
  leases the port; the lease opens a listener for one data connection, whose bytes go to the
  port unchanged.  The state is cut at the awaits: every function below is what happens between
  two of them, and \<open>bridge_step\<close> says which of them may come next.  Of asyncio the model uses
  what its documentation says of \<^verbatim>\<open>Server.wait_closed\<close>: it returns when the server is closed
  and all its connections have finished.
\<close>

section \<open>State\<close>

text \<open>
  Where a control connection is: before its first line, starting the listener, with the lease,
  waiting in \<^verbatim>\<open>_end_lease\<close> for the listener or for the data task, and over.
\<close>

datatype control_phase = Greeting | Opening | Leased | Waiting_server | Waiting_data | Gone

record Client =
  cl_peer :: string
  cl_token :: string
  cl_phase :: control_phase

text \<open>
  \<open>br_data_server\<close>: whether the listener accepts connections, if it exists; \<open>br_data_task\<close>: the
  address at the other end of the data connection; \<open>br_live\<close>: its socket is open; \<open>br_serial\<close>:
  the bytes handed to the port, with the address they came from; \<open>br_sent_back\<close>: the bytes from
  the port that were written to data connections.
\<close>

record Bridge =
  br_control :: bool
  br_token :: string
  br_high_speed :: bool
  br_baud :: int
  br_lease :: bool
  br_peer :: "string option"
  br_clients :: "Client list"
  br_data_server :: "bool option"
  br_data_task :: "string option"
  br_live :: bool
  br_serial :: "(string \<times> bytes) list"
  br_sent_back :: bytes

definition new_bridge :: "bool \<Rightarrow> bool \<Rightarrow> string \<Rightarrow> bool \<Rightarrow> int \<Rightarrow> Bridge result" where
  "new_bridge loopback control token high_speed baud =
     (if \<not> loopback \<and> token = []
      then Inl (ValueError ''A non-loopback bridge requires LMS_BRIDGE_TOKEN and control mode'')
      else if token \<noteq> [] \<and> \<not> control then Inl (ValueError ''Tokens require the separate control channel'')
      else Inr \<lparr>br_control = control, br_token = token, br_high_speed = high_speed, br_baud = baud,
             br_lease = False, br_peer = None, br_clients = [], br_data_server = None,
             br_data_task = None, br_live = False, br_serial = [], br_sent_back = []\<rparr>)"

text \<open>\<^verbatim>\<open>start\<close>, once the port is open: without a control channel the data listener is up at once.\<close>

definition bridge_start :: "Bridge \<Rightarrow> Bridge" where
  "bridge_start b = (if br_control b then b else b\<lparr>br_data_server := Some True\<rparr>)"

text \<open>\<^verbatim>\<open>run_bridge\<close>: the guard on the rate before anything is opened.\<close>

definition run_bridge :: "bool \<Rightarrow> bool \<Rightarrow> string \<Rightarrow> bool \<Rightarrow> int \<Rightarrow> Bridge result" where
  "run_bridge loopback control token high_speed baud =
     (if baud = 500000 \<and> \<not> high_speed
      then Inl (ValueError ''500000 baud needs --high-speed after verifying an RS-422 adapter'')
      else try_bind (new_bridge loopback control token high_speed baud) (\<lambda>b. Inr (bridge_start b)))"

section \<open>The control connection\<close>

definition set_phase :: "nat \<Rightarrow> control_phase \<Rightarrow> Bridge \<Rightarrow> Bridge" where
  "set_phase i ph b = b\<lparr>br_clients := (br_clients b)[i := (br_clients b ! i)\<lparr>cl_phase := ph\<rparr>]\<rparr>"

definition control_connect :: "string \<Rightarrow> Bridge \<Rightarrow> Bridge" where
  "control_connect peer b =
     b\<lparr>br_clients := br_clients b @ [\<lparr>cl_peer = peer, cl_token = [], cl_phase = Greeting\<rparr>]\<rparr>"

text \<open>
  The first line, \<open>None\<close> if it does not arrive or is not JSON: otherwise its operation and its
  token.  Between the look at the lease and taking it there is no await.
\<close>

definition control_hello :: "nat \<Rightarrow> (string \<times> string) option \<Rightarrow> Bridge \<Rightarrow> Bridge" where
  "control_hello i line b =
     (case line of
        None \<Rightarrow> set_phase i Gone b
      | Some (operation, token) \<Rightarrow>
          (let b' = b\<lparr>br_clients := (br_clients b)[i := (br_clients b ! i)\<lparr>cl_token := token\<rparr>]\<rparr> in
           if operation \<noteq> ''lease'' \<or> br_lease b \<or> token \<noteq> br_token b then set_phase i Gone b'
           else set_phase i Opening (b'\<lparr>br_lease := True, br_peer := Some (cl_peer (br_clients b ! i))\<rparr>)))"

text \<open>\<^verbatim>\<open>_end_lease\<close>, from its end to its beginning.\<close>

definition release :: "nat \<Rightarrow> Bridge \<Rightarrow> Bridge" where
  "release i b = set_phase i Gone (b\<lparr>br_lease := False, br_peer := None\<rparr>)"

definition end_lease_data :: "nat \<Rightarrow> Bridge \<Rightarrow> Bridge" where
  "end_lease_data i b = (if br_data_task b \<noteq> None then set_phase i Waiting_data b else release i b)"

definition end_lease :: "nat \<Rightarrow> Bridge \<Rightarrow> Bridge" where
  "end_lease i b =
     (if br_data_server b \<noteq> None then set_phase i Waiting_server (b\<lparr>br_data_server := Some False\<rparr>)
      else end_lease_data i b)"

definition server_closed :: "nat \<Rightarrow> Bridge \<Rightarrow> Bridge" where
  "server_closed i b = end_lease_data i (b\<lparr>br_data_server := None\<rparr>)"

definition control_opened :: "nat \<Rightarrow> bool \<Rightarrow> Bridge \<Rightarrow> Bridge" where
  "control_opened i ok b =
     (if ok then set_phase i Leased (b\<lparr>br_data_server := Some True\<rparr>) else end_lease i b)"

definition BRIDGE_RATES :: "int set" where
  "BRIDGE_RATES = {9600, 19200, 38400, 500000}"

text \<open>A request for a rate; the answer tells whether it is granted.\<close>

definition control_baud :: "int \<Rightarrow> Bridge \<Rightarrow> Bridge \<times> bool" where
  "control_baud baud b =
     (if baud \<in> BRIDGE_RATES
      then if baud = 500000 \<and> \<not> br_high_speed b then (b, False) else (b\<lparr>br_baud := baud\<rparr>, True)
      else (b, False))"

definition control_lost :: "nat \<Rightarrow> Bridge \<Rightarrow> Bridge" where
  "control_lost i b = (if cl_phase (br_clients b ! i) = Greeting then set_phase i Gone b else end_lease i b)"

section \<open>The data connection\<close>

definition data_connect :: "string \<Rightarrow> Bridge \<Rightarrow> Bridge" where
  "data_connect peer b =
     (if br_data_task b \<noteq> None \<or> br_control b \<and> (\<not> br_lease b \<or> br_peer b \<noteq> Some peer) then b
      else
        let b' = b\<lparr>br_data_task := Some peer, br_live := True\<rparr> in
        if br_control b then b'\<lparr>br_data_server := Some False\<rparr> else b')"

definition data_bytes :: "bytes \<Rightarrow> Bridge \<Rightarrow> Bridge" where
  "data_bytes data b = b\<lparr>br_serial := br_serial b @ [(the (br_data_task b), data)]\<rparr>"

definition serial_bytes :: "bytes \<Rightarrow> Bridge \<Rightarrow> Bridge" where
  "serial_bytes data b = b\<lparr>br_sent_back := br_sent_back b @ data\<rparr>"

section \<open>Interleaving\<close>

datatype happening =
    Control_connect string
  | Control_hello nat "(string \<times> string) option"
  | Control_opened nat bool
  | Control_baud nat int
  | Control_lost nat
  | Server_closed nat
  | Data_over nat
  | Data_connect string
  | Data_bytes bytes
  | Serial_bytes bytes
  | Data_end
  | Data_finish

definition in_phase :: "nat \<Rightarrow> control_phase set \<Rightarrow> Bridge \<Rightarrow> bool" where
  "in_phase i phs b \<longleftrightarrow> i < length (br_clients b) \<and> cl_phase (br_clients b ! i) \<in> phs"

text \<open>What may happen when, and what it does; \<open>None\<close> if it cannot happen.\<close>

fun bridge_step :: "happening \<Rightarrow> Bridge \<Rightarrow> Bridge option" where
  "bridge_step (Control_connect peer) b = (if br_control b then Some (control_connect peer b) else None)"
| "bridge_step (Control_hello i line) b = (if in_phase i {Greeting} b then Some (control_hello i line b) else None)"
| "bridge_step (Control_opened i ok) b = (if in_phase i {Opening} b then Some (control_opened i ok b) else None)"
| "bridge_step (Control_baud i baud) b = (if in_phase i {Leased} b then Some (fst (control_baud baud b)) else None)"
| "bridge_step (Control_lost i) b =
     (if in_phase i {Greeting, Opening, Leased} b then Some (control_lost i b) else None)"
| "bridge_step (Server_closed i) b =
     (if in_phase i {Waiting_server} b \<and> \<not> br_live b then Some (server_closed i b) else None)"
| "bridge_step (Data_over i) b =
     (if in_phase i {Waiting_data} b \<and> br_data_task b = None then Some (release i b) else None)"
| "bridge_step (Data_connect peer) b =
     (if br_data_server b = Some True then Some (data_connect peer b) else None)"
| "bridge_step (Data_bytes data) b = (if br_live b then Some (data_bytes data b) else None)"
| "bridge_step (Serial_bytes data) b = (if br_live b then Some (serial_bytes data b) else None)"
| "bridge_step Data_end b = (if br_live b then Some (b\<lparr>br_live := False\<rparr>) else None)"
| "bridge_step Data_finish b =
     (if br_data_task b \<noteq> None \<and> \<not> br_live b then Some (b\<lparr>br_data_task := None\<rparr>) else None)"

fun bridge_run :: "happening list \<Rightarrow> Bridge \<Rightarrow> Bridge option" where
  "bridge_run [] b = Some b"
| "bridge_run (h # hs) b = (case bridge_step h b of None \<Rightarrow> None | Some b' \<Rightarrow> bridge_run hs b')"

interpretation br: stepping bridge_step bridge_run
  by unfold_locales simp_all

section \<open>Invariant\<close>

definition owning :: "Client \<Rightarrow> bool" where
  "owning c \<longleftrightarrow> cl_phase c \<in> {Opening, Leased, Waiting_server, Waiting_data}"

text \<open>Whoever owns the lease showed the token and is at the address the data must come from.\<close>

definition rightful :: "Bridge \<Rightarrow> Client \<Rightarrow> bool" where
  "rightful b c \<longleftrightarrow> br_lease b \<and> cl_token c = br_token b \<and> br_peer b = Some (cl_peer c)"

definition owners :: "Bridge \<Rightarrow> nat set" where
  "owners b = {i. i < length (br_clients b) \<and> owning (br_clients b ! i)}"

text \<open>The listener and the data connection, as the owner's control connection goes on.\<close>

fun stage_ok :: "control_phase \<Rightarrow> Bridge \<Rightarrow> bool" where
  "stage_ok Opening b \<longleftrightarrow> br_data_server b = None \<and> br_data_task b = None"
| "stage_ok Leased b \<longleftrightarrow> br_data_server b \<noteq> None"
| "stage_ok Waiting_server b \<longleftrightarrow> br_data_server b = Some False"
| "stage_ok Waiting_data b \<longleftrightarrow> br_data_server b = None"
| "stage_ok _ b \<longleftrightarrow> True"

definition lease_ok :: "Bridge \<Rightarrow> bool" where
  "lease_ok b \<longleftrightarrow>
     (if br_lease b
      then \<exists>i. owners b = {i} \<and> rightful b (br_clients b ! i) \<and> stage_ok (cl_phase (br_clients b ! i)) b
      else owners b = {} \<and> br_data_server b = None \<and> br_data_task b = None) \<and>
     (br_data_task b \<noteq> None \<longrightarrow> br_peer b = br_data_task b) \<and> (br_live b \<longrightarrow> br_data_task b \<noteq> None)"

definition forwarded_ok :: "Bridge \<Rightarrow> bool" where
  "forwarded_ok b \<longleftrightarrow>
     (\<forall>(peer, data) \<in> set (br_serial b).
        \<exists>c \<in> set (br_clients b). cl_peer c = peer \<and> cl_token c = br_token b \<and> cl_phase c \<noteq> Greeting)"

definition bridge_ok :: "Bridge \<Rightarrow> bool" where
  "bridge_ok b \<longleftrightarrow>
     br_control b \<and> lease_ok b \<and> forwarded_ok b \<and> (br_baud b = 500000 \<longrightarrow> br_high_speed b)"

lemma set_phase_sel [simp]:
  "br_control (set_phase i ph b) = br_control b" "br_token (set_phase i ph b) = br_token b"
  "br_lease (set_phase i ph b) = br_lease b" "br_peer (set_phase i ph b) = br_peer b"
  "br_data_server (set_phase i ph b) = br_data_server b" "br_data_task (set_phase i ph b) = br_data_task b"
  "br_live (set_phase i ph b) = br_live b" "br_serial (set_phase i ph b) = br_serial b"
  "br_baud (set_phase i ph b) = br_baud b" "br_high_speed (set_phase i ph b) = br_high_speed b"
  "length (br_clients (set_phase i ph b)) = length (br_clients b)"
  by (simp_all add: set_phase_def)

lemma set_phase_nth [simp]:
  "i < length (br_clients b) \<Longrightarrow> br_clients (set_phase i ph b) ! i = (br_clients b ! i)\<lparr>cl_phase := ph\<rparr>"
  by (simp add: set_phase_def)

lemma rightful_phase [simp]: "rightful b (c\<lparr>cl_phase := ph\<rparr>) = rightful b c"
  by (simp add: rightful_def)

lemma stage_ok_cong [simp]: "stage_ok ph (set_phase i ph' b) = stage_ok ph b"
  by (cases ph) simp_all

abbreviation owner_phases :: "control_phase set" where
  "owner_phases \<equiv> {Opening, Leased, Waiting_server, Waiting_data}"

lemma owners_set_phase:
  "i < length (br_clients b) \<Longrightarrow>
   owners (set_phase i ph b) = (if ph \<in> owner_phases then insert i (owners b) else owners b - {i})"
  by (auto simp: owners_def set_phase_def nth_list_update owning_def)

lemma owners_irrelevant [simp]:
  "owners (b\<lparr>br_data_server := s\<rparr>) = owners b" "owners (b\<lparr>br_data_task := t\<rparr>) = owners b"
  "owners (b\<lparr>br_live := l\<rparr>) = owners b" "owners (b\<lparr>br_serial := w\<rparr>) = owners b"
  "owners (b\<lparr>br_baud := n\<rparr>) = owners b" "owners (b\<lparr>br_sent_back := v\<rparr>) = owners b" "owners (b\<lparr>br_lease := e, br_peer := p\<rparr>) = owners b"
  by (simp_all add: owners_def)

lemma in_phase_sel [simp]: "in_phase i phs (b\<lparr>br_data_server := s\<rparr>) = in_phase i phs b"
  by (simp add: in_phase_def)

text \<open>The connection in an owner's phase is the owner.\<close>

lemma the_owner:
  assumes "lease_ok b" "in_phase i phs b" "phs \<subseteq> owner_phases"
  shows "br_lease b" "owners b = {i}" "i < length (br_clients b)" "rightful b (br_clients b ! i)"
    "stage_ok (cl_phase (br_clients b ! i)) b"
proof -
  have i: "i \<in> owners b" using assms(2,3) by (auto simp: in_phase_def owners_def owning_def)
  then show l: "br_lease b" using assms(1) by (auto simp: lease_ok_def split: if_splits)
  then obtain k where "owners b = {k}" "rightful b (br_clients b ! k)" "stage_ok (cl_phase (br_clients b ! k)) b"
    using assms(1) by (auto simp: lease_ok_def)
  with i show "owners b = {i}" "rightful b (br_clients b ! i)" "stage_ok (cl_phase (br_clients b ! i)) b" by auto
  show "i < length (br_clients b)" using assms(2) by (simp add: in_phase_def)
qed

lemma rightful_irrelevant [simp]:
  "rightful (b\<lparr>br_data_server := s\<rparr>) c = rightful b c" "rightful (b\<lparr>br_data_task := t\<rparr>) c = rightful b c"
  "rightful (b\<lparr>br_live := l\<rparr>) c = rightful b c" "rightful (b\<lparr>br_serial := w\<rparr>) c = rightful b c"
  "rightful (b\<lparr>br_baud := n\<rparr>) c = rightful b c" "rightful (b\<lparr>br_sent_back := v\<rparr>) c = rightful b c"
  "rightful (set_phase i ph b) c = rightful b c"
  by (simp_all add: rightful_def)

text \<open>The owner moves on, with the listener as its new phase has it, or gives the lease back.\<close>

lemma owner_moves:
  assumes "lease_ok b" "in_phase i phs b" "phs \<subseteq> owner_phases" "ph \<in> owner_phases"
    "stage_ok ph (b\<lparr>br_data_server := s\<rparr>)"
  shows "lease_ok (set_phase i ph (b\<lparr>br_data_server := s\<rparr>))"
  using the_owner [OF assms(1-3)] assms(1,4,5) owners_set_phase [of i "b\<lparr>br_data_server := s\<rparr>" ph]
  by (auto simp: lease_ok_def)

lemma owner_releases:
  assumes "lease_ok b" "in_phase i phs b" "phs \<subseteq> owner_phases" "br_data_task b = None"
  shows "lease_ok (release i (b\<lparr>br_data_server := None\<rparr>))"
  using the_owner [OF assms(1-3)] assms(1,4)
    owners_set_phase [of i "b\<lparr>br_data_server := None, br_lease := False, br_peer := None\<rparr>" Gone]
  by (auto simp: lease_ok_def release_def owners_def)

lemma server_closed_ok:
  assumes "lease_ok b" "in_phase i phs b" "phs \<subseteq> owner_phases"
  shows "lease_ok (server_closed i b)"
  using owner_moves [OF assms, of Waiting_data None] owner_releases [OF assms]
  by (simp add: server_closed_def end_lease_data_def)

lemma end_lease_ok:
  assumes "lease_ok b" "in_phase i phs b" "phs \<subseteq> owner_phases"
  shows "lease_ok (end_lease i b)"
proof -
  have "end_lease i b = server_closed i b" if "br_data_server b = None"
    using that by (cases b) (simp add: end_lease_def server_closed_def)
  then show ?thesis
    using owner_moves [OF assms, of Waiting_server "Some False"] server_closed_ok [OF assms]
    by (cases "br_data_server b") (simp_all add: end_lease_def)
qed

lemma stranger_changes:
  assumes "lease_ok b" "in_phase i {Greeting} b" "\<not> owning c"
  shows "lease_ok (b\<lparr>br_clients := (br_clients b)[i := c]\<rparr>)" (is "lease_ok ?b")
proof -
  have i: "i \<notin> owners b" "i < length (br_clients b)"
    using assms(2) by (auto simp: in_phase_def owners_def owning_def)
  have same: "owners ?b = owners b" using i assms(3) by (auto simp: owners_def nth_list_update split: if_splits)
  have r: "rightful ?b x = rightful b x" "stage_ok ph ?b = stage_ok ph b" for x ph
    by (simp add: rightful_def) (cases ph; simp)
  show ?thesis
  proof (cases "br_lease b")
    case True
    then obtain k where "owners b = {k}" "rightful b (br_clients b ! k)" "stage_ok (cl_phase (br_clients b ! k)) b"
      using assms(1) by (auto simp: lease_ok_def)
    moreover have "k \<noteq> i" using i calculation by auto
    ultimately show ?thesis using assms(1) True by (simp add: lease_ok_def same r)
  qed (use assms(1) in \<open>auto simp: lease_ok_def same\<close>)
qed

lemma lease_ok_stranger:
  assumes "lease_ok b" "in_phase i {Greeting} b"
  shows "lease_ok (set_phase i Gone (b\<lparr>br_clients := (br_clients b)[i := (br_clients b ! i)\<lparr>cl_token := t\<rparr>]\<rparr>))"
    "lease_ok (set_phase i Gone b)"
  using stranger_changes [OF assms, of "(br_clients b ! i)\<lparr>cl_token := t, cl_phase := Gone\<rparr>"]
    stranger_changes [OF assms, of "(br_clients b ! i)\<lparr>cl_phase := Gone\<rparr>"] assms(2)
  by (simp_all add: set_phase_def owning_def in_phase_def)

lemma lease_taken:
  assumes "lease_ok b" "in_phase i {Greeting} b" "\<not> br_lease b"
  shows "lease_ok (set_phase i Opening (b\<lparr>br_clients := (br_clients b)[i := (br_clients b ! i)\<lparr>cl_token := br_token b\<rparr>],
     br_lease := True, br_peer := Some (cl_peer (br_clients b ! i))\<rparr>))" (is "lease_ok ?b")
proof -
  have i: "i < length (br_clients b)" and free: "owners b = {}" "br_data_server b = None" "br_data_task b = None" "\<not> br_live b"
    using assms by (auto simp: in_phase_def lease_ok_def)
  then have "owners ?b = {i}" by (auto simp: set_phase_def owners_def nth_list_update owning_def)
  then show ?thesis using i free by (auto simp: lease_ok_def set_phase_def rightful_def)
qed


lemma stage_ok_irrelevant [simp]:
  "stage_ok ph (b\<lparr>br_baud := n\<rparr>) = stage_ok ph b" "stage_ok ph (b\<lparr>br_serial := w\<rparr>) = stage_ok ph b"
  "stage_ok ph (b\<lparr>br_live := l\<rparr>) = stage_ok ph b" "stage_ok ph (b\<lparr>br_sent_back := v\<rparr>) = stage_ok ph b"
  by (cases ph; simp)+

lemma lease_ok_irrelevant:
  "lease_ok (b\<lparr>br_baud := n\<rparr>) = lease_ok b" "lease_ok (b\<lparr>br_serial := w\<rparr>) = lease_ok b"
  "lease_ok (b\<lparr>br_sent_back := v\<rparr>) = lease_ok b"
  "lease_ok b \<Longrightarrow> lease_ok (b\<lparr>br_live := False\<rparr>)"
  by (simp_all add: lease_ok_def split: if_splits)

lemma lease_ok_finish: "lease_ok b \<Longrightarrow> \<not> br_live b \<Longrightarrow> lease_ok (b\<lparr>br_data_task := None\<rparr>)"
proof -
  have "stage_ok ph b \<Longrightarrow> stage_ok ph (b\<lparr>br_data_task := None\<rparr>)" for ph by (cases ph) simp_all
  then show "lease_ok b \<Longrightarrow> \<not> br_live b \<Longrightarrow> lease_ok (b\<lparr>br_data_task := None\<rparr>)"
    by (auto simp: lease_ok_def split: if_splits)
qed

lemma step_lease_ok:
  assumes "bridge_step h b = Some b'" "lease_ok b" "br_control b"
  shows "lease_ok b'"
proof (cases h)
  case (Control_connect peer)
  have "owners (control_connect peer b) = owners b"
    by (auto simp: owners_def control_connect_def nth_append owning_def less_Suc_eq)
  moreover have "br_clients (control_connect peer b) ! k = br_clients b ! k" if "k \<in> owners b" for k
    using that by (simp add: owners_def control_connect_def nth_append)
  moreover have "rightful (control_connect peer b) x = rightful b x" "stage_ok ph (control_connect peer b) = stage_ok ph b" for x ph
    by (simp add: rightful_def control_connect_def) (cases ph; simp add: control_connect_def)
  moreover have "b' = control_connect peer b" using assms(1) Control_connect by (simp split: if_splits)
  ultimately show ?thesis
    using assms(2) unfolding lease_ok_def by (auto simp: control_connect_def split: if_splits)
next
  case (Control_hello i line)
  then show ?thesis
    using assms lease_ok_stranger [OF assms(2)] lease_taken [OF assms(2)]
    by (auto simp: control_hello_def Let_def split: if_splits option.splits)
next
  case (Control_opened i ok)
  then show ?thesis
    using assms end_lease_ok [of b i "{Opening}"] owner_moves [of b i "{Opening}" Leased "Some True"]
    by (auto simp: control_opened_def split: if_splits)
next
  case (Control_lost i)
  show ?thesis
  proof (cases "in_phase i {Greeting} b")
    case True
    then show ?thesis
      using assms Control_lost lease_ok_stranger(2) [OF assms(2) True] by (auto simp: control_lost_def in_phase_def split: if_splits)
  next
    case False
    then have i: "in_phase i {Opening, Leased} b" "b' = end_lease i b"
      using assms(1) Control_lost by (auto simp: control_lost_def in_phase_def split: if_splits)
    then show ?thesis using end_lease_ok [OF assms(2) i(1)] by simp
  qed
next
  case (Server_closed i)
  then show ?thesis
    using assms server_closed_ok [of b i "{Waiting_server}"] by (auto split: if_splits)
next
  case (Data_over i)
  then have i: "in_phase i {Waiting_data} b" "br_data_task b = None" "b' = release i b"
    using assms(1) by (auto split: if_splits)
  moreover have "br_data_server b = None"
    using the_owner(5) [OF assms(2) i(1)] i(1) by (simp add: in_phase_def)
  then have "b\<lparr>br_data_server := None\<rparr> = b" by (cases b) simp
  ultimately show ?thesis using owner_releases [OF assms(2) i(1)] by simp
next
  case (Data_connect peer)
  then have server: "br_data_server b = Some True" and b': "b' = data_connect peer b"
    using assms(1) by (auto split: if_splits)
  then obtain k where k: "br_lease b" "owners b = {k}" "rightful b (br_clients b ! k)"
    "stage_ok (cl_phase (br_clients b ! k)) b"
    using assms(2) by (auto simp: lease_ok_def split: if_splits)
  moreover have "owning (br_clients b ! k)" using k(2) by (auto simp: owners_def)
  ultimately have "cl_phase (br_clients b ! k) = Leased" using server by (auto simp: owning_def)
  then show ?thesis
    using k assms(2,3) by (auto simp: b' data_connect_def Let_def lease_ok_def)
qed (use assms in \<open>auto simp: control_baud_def data_bytes_def serial_bytes_def lease_ok_irrelevant lease_ok_finish split: if_splits\<close>)


text \<open>Connections keep their address, and once they have greeted their token.\<close>

definition remembers :: "Client list \<Rightarrow> Client list \<Rightarrow> bool" where
  "remembers cs cs' \<longleftrightarrow>
     (\<forall>c \<in> set cs. cl_phase c \<noteq> Greeting \<longrightarrow>
        (\<exists>c' \<in> set cs'. cl_peer c' = cl_peer c \<and> cl_token c' = cl_token c \<and> cl_phase c' \<noteq> Greeting))"

lemma remembers_refl [simp]: "remembers cs cs"
  by (auto simp: remembers_def)

lemma remembers_update:
  assumes "i < length cs"
    "cl_phase (cs ! i) \<noteq> Greeting \<Longrightarrow> cl_peer c = cl_peer (cs ! i) \<and> cl_token c = cl_token (cs ! i) \<and> cl_phase c \<noteq> Greeting"
  shows "remembers cs (cs[i := c])"
  unfolding remembers_def
proof (intro ballI impI)
  fix x assume "x \<in> set cs" "cl_phase x \<noteq> Greeting"
  then obtain k where k: "k < length cs" "x = cs ! k" by (auto simp: in_set_conv_nth)
  show "\<exists>c' \<in> set (cs[i := c]). cl_peer c' = cl_peer x \<and> cl_token c' = cl_token x \<and> cl_phase c' \<noteq> Greeting"
  proof (cases "k = i")
    case True
    then show ?thesis using assms k \<open>cl_phase x \<noteq> Greeting\<close> by (auto intro: bexI [of _ c] set_update_memI)
  next
    case False
    then have "x \<in> set (cs[i := c])" using k by (metis length_list_update nth_list_update_neq nth_mem)
    then show ?thesis using \<open>cl_phase x \<noteq> Greeting\<close> by blast
  qed
qed

lemma remembers_append: "remembers cs (cs @ ds)"
  unfolding remembers_def by (auto intro: bexI [rotated])

lemmas ops = control_connect_def control_hello_def control_opened_def control_baud_def control_lost_def
  server_closed_def end_lease_def end_lease_data_def release_def data_connect_def data_bytes_def serial_bytes_def Let_def

lemma step_serial_same: "bridge_step h b = Some b' \<Longrightarrow> (\<And>data. h \<noteq> Data_bytes data) \<Longrightarrow> br_serial b' = br_serial b"
  by (cases h) (auto simp: ops split: if_splits option.splits)

lemma step_remembers:
  assumes "bridge_step h b = Some b'"
  shows "remembers (br_clients b) (br_clients b')"
    and "br_token b' = br_token b" "br_control b' = br_control b" "br_high_speed b' = br_high_speed b"
proof -
  show "remembers (br_clients b) (br_clients b')"
    using assms
    by (cases h)
      (auto simp: ops set_phase_def remembers_append in_phase_def intro!: remembers_update split: if_splits option.splits)
  show "br_token b' = br_token b" "br_control b' = br_control b" "br_high_speed b' = br_high_speed b"
    using assms by (cases h; auto simp: ops split: if_splits option.splits)+
qed

lemma step_serial:
  assumes "bridge_step h b = Some b'" "lease_ok b"
  shows "br_serial b' = br_serial b \<or>
    (\<exists>c data. c \<in> set (br_clients b) \<and> cl_token c = br_token b \<and> cl_phase c \<noteq> Greeting \<and>
       br_serial b' = br_serial b @ [(cl_peer c, data)] \<and> br_clients b' = br_clients b)"
proof (cases h)
  case (Data_bytes data)
  then have live: "br_live b" "b' = data_bytes data b" using assms(1) by (auto split: if_splits)
  then have "br_lease b" using assms(2) by (auto simp: lease_ok_def split: if_splits)
  then obtain k where k: "owners b = {k}" "rightful b (br_clients b ! k)" using assms(2) by (auto simp: lease_ok_def)
  have "k \<in> owners b" using k(1) by simp
  then have "owning (br_clients b ! k)" "br_clients b ! k \<in> set (br_clients b)" by (simp_all add: owners_def)
  moreover have "br_peer b = br_data_task b" using live(1) assms(2) unfolding lease_ok_def by blast
  then have "br_data_task b = Some (cl_peer (br_clients b ! k))" using k(2) by (simp add: rightful_def)
  then have "br_serial b' = br_serial b @ [(cl_peer (br_clients b ! k), data)]" "br_clients b' = br_clients b"
    using live(2) by (simp_all add: data_bytes_def)
  moreover have "cl_phase (br_clients b ! k) \<noteq> Greeting" using \<open>owning (br_clients b ! k)\<close> by (auto simp: owning_def)
  ultimately show ?thesis
    using k(2) unfolding rightful_def by blast
qed (use step_serial_same [OF assms(1)] in blast)+

lemma step_forwarded_ok:
  assumes "bridge_step h b = Some b'" "forwarded_ok b" "lease_ok b"
  shows "forwarded_ok b'"
proof -
  note kept = step_remembers [OF assms(1)]
  have "\<exists>c \<in> set (br_clients b'). cl_peer c = peer \<and> cl_token c = br_token b \<and> cl_phase c \<noteq> Greeting"
    if "\<exists>c \<in> set (br_clients b). cl_peer c = peer \<and> cl_token c = br_token b \<and> cl_phase c \<noteq> Greeting" for peer
    using that kept(1) unfolding remembers_def by metis
  with step_serial [OF assms(1,3)] assms(2) kept(2) show ?thesis
    unfolding forwarded_ok_def by fastforce
qed

lemma step_bridge_ok:
  assumes "bridge_step h b = Some b'" "bridge_ok b"
  shows "bridge_ok b'"
proof -
  have "br_baud b' = 500000 \<longrightarrow> br_high_speed b"
    using assms
    by (cases h) (auto simp: bridge_ok_def ops split: if_splits option.splits)
  then show ?thesis
    using assms step_lease_ok [OF assms(1)] step_forwarded_ok [OF assms(1)] step_remembers(3,4) [OF assms(1)]
    by (simp add: bridge_ok_def)
qed

lemma run_bridge_ok: "bridge_run hs b = Some b' \<Longrightarrow> bridge_ok b \<Longrightarrow> bridge_ok b'"
  using br.run_keeps [where I = bridge_ok and E = UNIV] step_bridge_ok by blast

lemma started_ok: "run_bridge loopback True token high_speed baud = Inr b \<Longrightarrow> bridge_ok b"
  by (auto simp: run_bridge_def new_bridge_def bridge_start_def try_bind_eq_Inr bridge_ok_def lease_ok_def forwarded_ok_def
      owners_def split: if_splits)


section \<open>Properties\<close>

text \<open>
  C21: a controlled bridge serves one client that knows the token.  In whatever order control
  and data connections come, go and speak, at most one control connection holds the lease; it
  has shown the token; the data connection, if any, comes from its address; every byte handed
  to the serial port came from the address of a control connection that had shown the token;
  and the rate of 500000 is set only if the bridge was started for it.
\<close>

theorem bridge_serves_one_client:
  assumes "run_bridge loopback True token high_speed baud = Inr b" "bridge_run hs b = Some b'"
  shows "(br_lease b' \<longrightarrow> (\<exists>i. owners b' = {i} \<and> cl_token (br_clients b' ! i) = br_token b' \<and>
        (br_data_task b' \<noteq> None \<longrightarrow> br_data_task b' = Some (cl_peer (br_clients b' ! i))))) \<and>
    (\<not> br_lease b' \<longrightarrow> owners b' = {} \<and> br_data_task b' = None) \<and> forwarded_ok b' \<and>
    (br_baud b' = 500000 \<longrightarrow> br_high_speed b')"
proof -
  have ok: "bridge_ok b'" using run_bridge_ok [OF assms(2) started_ok [OF assms(1)]] .
  then have lease: "lease_ok b'" by (simp add: bridge_ok_def)
  have "\<exists>i. owners b' = {i} \<and> rightful b' (br_clients b' ! i)" if "br_lease b'"
    using lease that by (auto simp: lease_ok_def)
  moreover have "owners b' = {} \<and> br_data_task b' = None" if "\<not> br_lease b'"
    using lease that by (simp add: lease_ok_def)
  moreover have "br_data_task b' \<noteq> None \<Longrightarrow> br_peer b' = br_data_task b'"
    using lease by (simp add: lease_ok_def)
  ultimately show ?thesis using ok unfolding bridge_ok_def rightful_def by metis
qed

definition example_bridge :: Bridge where
  "example_bridge = \<lparr>br_control = True, br_token = ''secret'', br_high_speed = False, br_baud = 9600,
     br_lease = False, br_peer = None, br_clients = [], br_data_server = None,
     br_data_task = None, br_live = False, br_serial = [], br_sent_back = []\<rparr>"

definition example_greeting :: "happening list" where
  "example_greeting = [Control_connect ''10.0.0.2'', Control_hello 0 (Some (''lease'', ''secret'')),
     Control_connect ''10.0.0.3'', Control_hello 1 (Some (''lease'', ''secret'')), Control_opened 0 True,
     Data_connect ''10.0.0.3'', Data_connect ''10.0.0.2'', Data_bytes [0x02, 0x06]]"

lemmas bridge_eval = ops set_phase_def in_phase_def BRIDGE_RATES_def example_bridge_def

lemma example_start: "run_bridge False True ''secret'' False 9600 = Inr example_bridge"
  by (simp add: run_bridge_def new_bridge_def bridge_start_def example_bridge_def)

lemma example_leased:
  "\<exists>b'. bridge_run example_greeting example_bridge = Some b' \<and> br_serial b' = [(''10.0.0.2'', [0x02, 0x06])] \<and> br_lease b' \<and>
     br_live b' \<and> in_phase 0 {Leased} b'"
  by (simp add: bridge_eval example_greeting_def)

theorem bridge_serves_one_client_witness:
  "\<exists>b'. bridge_run example_greeting example_bridge = Some b' \<and>
     br_serial b' = [(''10.0.0.2'', [0x02, 0x06])] \<and> (\<exists>i. owners b' = {i})"
proof -
  obtain b' where b': "bridge_run example_greeting example_bridge = Some b'"
    "br_serial b' = [(''10.0.0.2'', [0x02, 0x06])]" "br_lease b'" using example_leased by blast
  from bridge_serves_one_client [OF example_start b'(1)] b' show ?thesis by blast
qed

lemma step_waits:
  assumes "bridge_step h b = Some b'" "lease_ok b" "in_phase i {Waiting_server} b" "br_live b" "h \<noteq> Data_end"
  shows "in_phase i {Waiting_server} b' \<and> br_live b'"
proof -
  note owner = the_owner [OF assms(2,3)]
  have server: "br_data_server b = Some False" and i: "cl_phase (br_clients b ! i) = Waiting_server" "i < length (br_clients b)"
    using owner assms(3) by (auto simp: in_phase_def)
  have only: "j = i" if "in_phase j owner_phases b" for j
    using the_owner(2) [OF assms(2) that] owner(2) by simp
  then have other: "\<not> in_phase j {Opening} b" "\<not> in_phase j {Leased} b" "\<not> in_phase j {Waiting_data} b"
    "\<not> in_phase j {Opening, Leased} b" for j
    using i by (fastforce simp: in_phase_def)+
  show ?thesis
  proof (cases h)
    case (Control_lost j)
    then have "in_phase j {Greeting} b" using assms(1) other(4) by (auto simp: in_phase_def split: if_splits)
    then have "j \<noteq> i" "b' = set_phase j Gone b"
      using assms(1) Control_lost i by (auto simp: in_phase_def control_lost_def)
    then show ?thesis using assms(3,4) by (simp add: in_phase_def set_phase_def)
  next
    case (Control_hello j line)
    then have "j \<noteq> i" "b' = control_hello j line b" using assms(1) i by (auto simp: in_phase_def split: if_splits)
    then show ?thesis
      using assms(3,4) owner(1)
      by (auto simp: in_phase_def control_hello_def set_phase_def Let_def split: option.splits)
  qed (use assms other server i in \<open>auto simp: in_phase_def control_connect_def data_bytes_def serial_bytes_def nth_append split: if_splits\<close>)
qed

lemma run_waits:
  assumes "bridge_run hs b = Some b'" "bridge_ok b" "in_phase i {Waiting_server} b" "br_live b" "Data_end \<notin> set hs"
  shows "in_phase i {Waiting_server} b' \<and> br_live b' \<and> bridge_ok b'"
proof (rule br.run_keeps [where E = "- {Data_end}", OF _ assms(1)])
  fix h c c'
  assume "h \<in> - {Data_end}" "bridge_step h c = Some c'" "in_phase i {Waiting_server} c \<and> br_live c \<and> bridge_ok c"
  then show "in_phase i {Waiting_server} c' \<and> br_live c' \<and> bridge_ok c'"
    using step_waits [of h c c' i] step_bridge_ok [of h c c'] by (auto simp: bridge_ok_def)
qed (use assms in auto)

text \<open>
  The lease can outlive its control connection.  When the control connection has ended but
  the data connection is still up, \<^verbatim>\<open>_end_lease\<close> waits for the listener, and the listener's
  \<^verbatim>\<open>wait_closed\<close> waits for the data connection: until the client itself ends it, the lease stays
  taken, whatever else happens, and the client's bytes go on to the serial port.
\<close>

theorem lease_outlives_control:
  assumes "run_bridge loopback True token high_speed baud = Inr b" "bridge_run hs b = Some c"
    and "in_phase i {Waiting_server} c" "br_live c" "bridge_run hs' c = Some d" "Data_end \<notin> set hs'"
  shows "br_lease d \<and> in_phase i {Waiting_server} d \<and>
    (\<exists>e. bridge_step (Data_bytes data) d = Some e \<and> br_serial e = br_serial d @ [(the (br_data_task d), data)])"
proof -
  have "bridge_ok c" using run_bridge_ok [OF assms(2) started_ok [OF assms(1)]] .
  from run_waits [OF assms(5) this assms(3,4,6)]
  have d: "in_phase i {Waiting_server} d" "br_live d" "lease_ok d" by (simp_all add: bridge_ok_def)
  then show ?thesis using the_owner(1) [OF d(3,1)] by (simp add: data_bytes_def)
qed

theorem lease_outlives_control_witness:
  "\<exists>c d. bridge_run (example_greeting @ [Control_lost 0]) example_bridge = Some c \<and>
     bridge_run [Control_connect ''10.0.0.3'', Control_hello 2 (Some (''lease'', ''secret'')), Data_bytes [0x15]] c = Some d \<and>
     br_lease d \<and> in_phase 0 {Waiting_server} d"
proof -
  obtain c d where c: "bridge_run (example_greeting @ [Control_lost 0]) example_bridge = Some c"
    "in_phase 0 {Waiting_server} c" "br_live c"
    "bridge_run [Control_connect ''10.0.0.3'', Control_hello 2 (Some (''lease'', ''secret'')), Data_bytes [0x15]] c = Some d"
    by (simp add: bridge_eval example_greeting_def)
  from lease_outlives_control [OF example_start c(1-4)] c show ?thesis by auto
qed

end
