(* ===== verification/Bridge_Link.thy ===== *)
theory Bridge_Link
  imports Tcp_Transport Bridge
begin

text \<open>
  A device at one end of a bridge and the serial port at the other: \<^verbatim>\<open>transports/tcp.py\<close> and
  \<^verbatim>\<open>bridge.py\<close> composed.  The two talk over a control connection, one request at a time, and a
  data connection, of which the model keeps the bytes under way in each direction: a connection
  delivers what was written, in order and in pieces of any size.
\<close>

section \<open>The control conversation\<close>

text \<open>
  What the loop of \<^verbatim>\<open>_control\<close> makes of a line: the operation \<^verbatim>\<open>baud\<close> with the value of its key,
  \<^verbatim>\<open>status\<close>, or anything else.
\<close>

datatype control_request = Rate_request "int option" | Status_request | Other_request

definition accepted :: "int \<Rightarrow> bridge_reply" where
  "accepted rate = \<lparr>rp_ok = True, rp_data_port = None, rp_baud = Some rate\<rparr>"

definition refused :: bridge_reply where
  "refused = \<lparr>rp_ok = False, rp_data_port = None, rp_baud = None\<rparr>"

fun bridge_answer :: "control_request \<Rightarrow> Bridge \<Rightarrow> Bridge \<times> bridge_reply" where
  "bridge_answer (Rate_request (Some rate)) b =
     (case control_baud rate b of (b', granted) \<Rightarrow> (b', if granted then accepted (br_baud b') else refused))"
| "bridge_answer (Rate_request None) b = (b, refused)"
| "bridge_answer Status_request b = (b, accepted (br_baud b))"
| "bridge_answer Other_request b = (b, refused)"

text \<open>The reply to the first line, as the lease was taken or not.\<close>

definition lease_reply :: "nat \<Rightarrow> int \<Rightarrow> Bridge \<Rightarrow> bridge_reply" where
  "lease_reply i port b =
     (if in_phase i {Opening} b
      then \<lparr>rp_ok = True, rp_data_port = Some port, rp_baud = Some (br_baud b)\<rparr> else refused)"

section \<open>The two ends\<close>

text \<open>
  \<open>ln_out\<close> and \<open>ln_in\<close>: the bytes under way to the bridge and to the client; \<open>ln_got\<close>: what the
  client's reads have returned.
\<close>

record Link =
  ln_tcp :: Tcp
  ln_bridge :: Bridge
  ln_out :: bytes
  ln_in :: bytes
  ln_got :: bytes

text \<open>
  The client at the address \<open>me\<close> opens its transport: its control connection greets, gets its
  reply from a bridge whose listener came up at \<open>port\<close>, and connects the data.  \<open>None\<close> if this
  order of things cannot happen.
\<close>

definition link_open :: "string \<Rightarrow> int \<Rightarrow> Tcp \<Rightarrow> Bridge \<Rightarrow> (unit result \<times> Link) option" where
  "link_open me port t b =
     (let i = length (br_clients b) in
      case bridge_run [Control_connect me, Control_hello i (Some (''lease'', tc_token t))] b of
        None \<Rightarrow> None
      | Some b1 \<Rightarrow>
          (let reply = lease_reply i port b1;
               b2 = (if rp_ok reply then bridge_run [Control_opened i True, Data_connect me] b1 else Some b1) in
           case (b2, tcp_open t [Went, Went, Line (Some reply), Went]) of
             (Some b', Some (r, t', _)) \<Rightarrow>
               Some (r, \<lparr>ln_tcp = t', ln_bridge = b', ln_out = [], ln_in = [], ln_got = []\<rparr>)
           | _ \<Rightarrow> None))"

text \<open>
  What can happen to an open link: the client writes, reads at most \<open>n\<close> bytes or finds the line
  idle, and asks for a rate; the bridge takes at most \<open>n\<close> bytes to the port or brings some from
  it; something happens to another connection.
\<close>

datatype link_event =
    Client_writes bytes
  | Client_reads nat
  | Client_idles
  | Client_sets_baud int
  | Bridge_takes nat
  | Bridge_brings bytes
  | Elsewhere happening

fun foreign :: "nat \<Rightarrow> happening \<Rightarrow> bool" where
  "foreign i (Control_connect peer) \<longleftrightarrow> True"
| "foreign i (Control_hello j line) \<longleftrightarrow> j \<noteq> i"
| "foreign i (Control_opened j ok) \<longleftrightarrow> j \<noteq> i"
| "foreign i (Control_baud j baud) \<longleftrightarrow> j \<noteq> i"
| "foreign i (Control_lost j) \<longleftrightarrow> j \<noteq> i"
| "foreign i (Server_closed j) \<longleftrightarrow> j \<noteq> i"
| "foreign i (Data_over j) \<longleftrightarrow> j \<noteq> i"
| "foreign i (Data_connect peer) \<longleftrightarrow> True"
| "foreign i _ \<longleftrightarrow> False"

definition passes :: "nat \<Rightarrow> bytes \<Rightarrow> bool" where
  "passes n line \<longleftrightarrow> 0 < n \<and> n \<le> 4096 \<and> n \<le> length line"

definition with_tcp :: "('a result \<times> Tcp \<times> sock list) option \<Rightarrow> ('a \<Rightarrow> Link \<Rightarrow> Link) \<Rightarrow> Link \<Rightarrow> Link option" where
  "with_tcp m f l =
     (case m of
        Some (Inr x, t, _) \<Rightarrow> Some (f x (l\<lparr>ln_tcp := t\<rparr>))
      | Some (Inl e, t, _) \<Rightarrow> Some (l\<lparr>ln_tcp := t\<rparr>)
      | None \<Rightarrow> None)"

definition with_bridge :: "Bridge option \<Rightarrow> (Link \<Rightarrow> Link) \<Rightarrow> Link \<Rightarrow> Link option" where
  "with_bridge m f l = (case m of Some b \<Rightarrow> Some (f (l\<lparr>ln_bridge := b\<rparr>)) | None \<Rightarrow> None)"

fun link_step :: "nat \<Rightarrow> link_event \<Rightarrow> Link \<Rightarrow> Link option" where
  "link_step i (Client_writes data) l =
     with_tcp (tcp_write data (ln_tcp l) [Went])
       (\<lambda>_ l'. l'\<lparr>ln_out := ln_out l @ drop (length (tc_sent (ln_tcp l))) (tc_sent (ln_tcp l'))\<rparr>) l"
| "link_step i (Client_reads n) l =
     (if passes n (ln_in l)
      then with_tcp (tcp_read (ln_tcp l) [Came (take n (ln_in l))])
             (\<lambda>data l'. l'\<lparr>ln_got := ln_got l @ data, ln_in := drop n (ln_in l)\<rparr>) l
      else None)"
| "link_step i Client_idles l =
     with_tcp (tcp_read (ln_tcp l) [Late]) (\<lambda>data l'. l'\<lparr>ln_got := ln_got l @ data\<rparr>) l"
| "link_step i (Client_sets_baud rate) l =
     (if in_phase i {Leased} (ln_bridge l)
      then case bridge_answer (Rate_request (Some rate)) (ln_bridge l) of
          (b, reply) \<Rightarrow> with_tcp (tcp_set_baud rate (ln_tcp l) [Went, Line (Some reply)]) (\<lambda>_ l'. l') (l\<lparr>ln_bridge := b\<rparr>)
      else None)"
| "link_step i (Bridge_takes n) l =
     (if passes n (ln_out l)
      then with_bridge (bridge_step (Data_bytes (take n (ln_out l))) (ln_bridge l)) (\<lambda>l'. l'\<lparr>ln_out := drop n (ln_out l)\<rparr>) l
      else None)"
| "link_step i (Bridge_brings data) l =
     with_bridge (bridge_step (Serial_bytes data) (ln_bridge l)) (\<lambda>l'. l'\<lparr>ln_in := ln_in l @ data\<rparr>) l"
| "link_step i (Elsewhere h) l = (if foreign i h then with_bridge (bridge_step h (ln_bridge l)) (\<lambda>l'. l') l else None)"

fun link_run :: "nat \<Rightarrow> link_event list \<Rightarrow> Link \<Rightarrow> Link option" where
  "link_run i [] l = Some l"
| "link_run i (e # es) l = (case link_step i e l of None \<Rightarrow> None | Some l' \<Rightarrow> link_run i es l')"

text \<open>
  The client closes: its data connection ends first, then its control connection, and the bridge
  takes the lease back.
\<close>

definition link_close :: "nat \<Rightarrow> Link \<Rightarrow> (unit result \<times> Link) option" where
  "link_close i l =
     (case (tcp_close (ln_tcp l) [Went, Went],
            bridge_run [Data_end, Data_finish, Control_lost i, Server_closed i] (ln_bridge l)) of
        (Some (r, t, _), Some b) \<Rightarrow> Some (r, l\<lparr>ln_tcp := t, ln_bridge := b\<rparr>)
      | _ \<Rightarrow> None)"

interpretation link: stepping "link_step i" "link_run i" for i
  by unfold_locales simp_all

section \<open>A serial line\<close>

text \<open>
  What the two should amount to: a line with one rate, a queue in each direction, and nothing
  else.  \<open>sl_sent\<close> and \<open>sl_wire\<close>: what the client has written and how much of it is on the wire;
  \<open>sl_come\<close> and \<open>sl_got\<close>: what has come from the wire and how much of it the client has.
\<close>

record Serial_line =
  sl_rate :: int
  sl_sent :: bytes
  sl_wire :: bytes
  sl_come :: bytes
  sl_got :: bytes

fun line_step :: "bool \<Rightarrow> link_event \<Rightarrow> Serial_line \<Rightarrow> Serial_line" where
  "line_step fast (Client_writes data) sl = sl\<lparr>sl_sent := sl_sent sl @ data\<rparr>"
| "line_step fast (Bridge_takes n) sl = sl\<lparr>sl_wire := take (length (sl_wire sl) + n) (sl_sent sl)\<rparr>"
| "line_step fast (Bridge_brings data) sl = sl\<lparr>sl_come := sl_come sl @ data\<rparr>"
| "line_step fast (Client_reads n) sl = sl\<lparr>sl_got := take (length (sl_got sl) + n) (sl_come sl)\<rparr>"
| "line_step fast (Client_sets_baud rate) sl =
     (if rate \<in> {9600, 19200, 38400} \<or> rate = 500000 \<and> fast then sl\<lparr>sl_rate := rate\<rparr> else sl)"
| "line_step fast _ sl = sl"

text \<open>The line a link is, since the bridge had handed over \<open>k\<close> pieces and brought \<open>m\<close> bytes.\<close>

definition line_of :: "nat \<Rightarrow> nat \<Rightarrow> Link \<Rightarrow> Serial_line" where
  "line_of k m l =
     \<lparr>sl_rate = tc_baud (ln_tcp l), sl_sent = tc_sent (ln_tcp l),
      sl_wire = concat (map snd (drop k (br_serial (ln_bridge l)))),
      sl_come = drop m (br_sent_back (ln_bridge l)), sl_got = ln_got l\<rparr>"

definition link_ok :: "nat \<Rightarrow> nat \<Rightarrow> nat \<Rightarrow> Link \<Rightarrow> bool" where
  "link_ok i k m l \<longleftrightarrow>
     bridge_ok (ln_bridge l) \<and> in_phase i {Leased} (ln_bridge l) \<and> br_live (ln_bridge l) \<and>
     tc_data (ln_tcp l) \<and> tc_control (ln_tcp l) \<and> tc_can_set_baud (ln_tcp l) \<and>
     tc_baud (ln_tcp l) = br_baud (ln_bridge l) \<and>
     k \<le> length (br_serial (ln_bridge l)) \<and> m \<le> length (br_sent_back (ln_bridge l)) \<and>
     tc_sent (ln_tcp l) = sl_wire (line_of k m l) @ ln_out l \<and> sl_come (line_of k m l) = ln_got l @ ln_in l"

lemma foreign_step:
  assumes "bridge_step h b = Some b'" "bridge_ok b" "in_phase i {Leased} b" "br_live b" "foreign i h"
  shows "in_phase i {Leased} b' \<and> br_live b' \<and> br_baud b' = br_baud b \<and> br_serial b' = br_serial b \<and>
    br_sent_back b' = br_sent_back b"
proof -
  have ok: "lease_ok b" using assms(2) by (simp add: bridge_ok_def)
  note owner = the_owner [OF ok assms(3)]
  have i: "cl_phase (br_clients b ! i) = Leased" "i < length (br_clients b)"
    using assms(3) by (auto simp: in_phase_def)
  have task: "br_data_task b \<noteq> None" using ok assms(4) by (simp add: lease_ok_def)
  have "j = i" if "in_phase j owner_phases b" for j
    using the_owner(2) [OF ok that] owner(2) by simp
  then have other: "\<not> in_phase j {Opening} b" "\<not> in_phase j {Waiting_server} b" "\<not> in_phase j {Waiting_data} b"
    "in_phase j {Greeting, Opening, Leased} b \<Longrightarrow> j \<noteq> i \<Longrightarrow> in_phase j {Greeting} b"
    "in_phase j {Leased} b \<Longrightarrow> j = i" for j
    using i by (fastforce simp: in_phase_def)+
  show ?thesis
  proof (cases h)
    case (Control_lost j)
    then have j: "j \<noteq> i" "in_phase j {Greeting} b" "b' = control_lost j b"
      using assms(1,5) other(4) by (auto split: if_splits)
    then have "b' = set_phase j Gone b" by (auto simp: in_phase_def control_lost_def)
    then show ?thesis using assms(3,4) j(1) by (simp add: in_phase_def set_phase_def)
  next
    case (Control_hello j line)
    then have "j \<noteq> i" "b' = control_hello j line b" using assms(1,5) by (auto split: if_splits)
    then show ?thesis
      using assms(3,4) owner(1)
      by (auto simp: in_phase_def control_hello_def set_phase_def Let_def split: option.splits)
  next
    case (Control_connect peer)
    then have "b' = control_connect peer b" using assms(1) by (simp split: if_splits)
    then show ?thesis using assms(3,4) i(2) by (simp add: in_phase_def control_connect_def nth_append)
  next
    case (Data_connect peer)
    then have "b' = b" using assms(1) task by (auto simp: data_connect_def split: if_splits)
    then show ?thesis using assms(3,4) by simp
  next
    case (Control_opened j ok')
    then show ?thesis using assms(1) other(1) by simp
  next
    case (Server_closed j)
    then show ?thesis using assms(1) other(2) by simp
  next
    case (Data_over j)
    then show ?thesis using assms(1) other(3) by simp
  next
    case (Control_baud j r)
    then have "in_phase j {Leased} b" "j \<noteq> i" using assms(1,5) by (auto simp del: One_nat_def split: if_splits)
    then show ?thesis using other(5) by blast
  qed (use assms(5) in simp_all)
qed

lemma bridge_takes:
  assumes "bridge_step (Data_bytes d) b = Some b'" "in_phase i {Leased} b" "k \<le> length (br_serial b)"
  shows "in_phase i {Leased} b' \<and> br_live b' \<and> br_baud b' = br_baud b \<and> br_sent_back b' = br_sent_back b \<and>
    k \<le> length (br_serial b') \<and> concat (map snd (drop k (br_serial b'))) = concat (map snd (drop k (br_serial b))) @ d"
  using assms by (auto simp: data_bytes_def in_phase_def split: if_splits)

lemma bridge_brings:
  assumes "bridge_step (Serial_bytes d) b = Some b'" "in_phase i {Leased} b" "m \<le> length (br_sent_back b)"
  shows "in_phase i {Leased} b' \<and> br_live b' \<and> br_baud b' = br_baud b \<and> br_serial b' = br_serial b \<and>
    m \<le> length (br_sent_back b') \<and> drop m (br_sent_back b') = drop m (br_sent_back b) @ d"
  using assms by (auto simp: serial_bytes_def in_phase_def split: if_splits)

lemma bridge_grants:
  assumes "bridge_answer (Rate_request (Some rate)) b = (b', reply)" "in_phase i {Leased} b" "bridge_ok b"
  shows "in_phase i {Leased} b' \<and> br_live b' = br_live b \<and> br_serial b' = br_serial b \<and> br_sent_back b' = br_sent_back b \<and>
    bridge_ok b' \<and> br_high_speed b' = br_high_speed b \<and>
    (if rate \<in> {9600, 19200, 38400} \<or> rate = 500000 \<and> br_high_speed b
     then br_baud b' = rate \<and> reply = accepted rate else br_baud b' = br_baud b \<and> reply = refused)"
proof -
  have b': "b' = fst (control_baud rate b)" using assms(1) by (simp split: prod.splits)
  then have "bridge_step (Control_baud i rate) b = Some b'" using assms(2) by simp
  from step_bridge_ok [OF this assms(3)] have "bridge_ok b'" .
  moreover have "in_phase i {Leased} b'" "br_live b' = br_live b" "br_serial b' = br_serial b"
    "br_sent_back b' = br_sent_back b" "br_high_speed b' = br_high_speed b"
    using b' assms(2) by (simp_all add: control_baud_def in_phase_def)
  moreover have "if rate \<in> {9600, 19200, 38400} \<or> rate = 500000 \<and> br_high_speed b
     then br_baud b' = rate \<and> reply = accepted rate else br_baud b' = br_baud b \<and> reply = refused"
    using assms(1) by (auto simp: control_baud_def BRIDGE_RATES_def split: if_splits)
  ultimately show ?thesis by blast
qed

text \<open>What the client's operations do at one end, with the answers that a live link gives.\<close>

lemma client_writes: "tc_data t \<Longrightarrow> tcp_write data t [Went] = Some (Inr (), t\<lparr>tc_sent := tc_sent t @ data\<rparr>, [])"
  by (simp add: tcp_write_def c_steps)

lemma client_reads: "tc_data t \<Longrightarrow> d \<noteq> [] \<Longrightarrow> tcp_read t [Came d] = Some (Inr d, t, [])"
  by (simp add: tcp_read_def c_steps)

lemma client_idles: "tc_data t \<Longrightarrow> tcp_read t [Late] = Some (Inr [], t, [])"
  by (simp add: tcp_read_def c_steps)

lemma client_sets_baud:
  assumes "tc_control t" "tc_can_set_baud t"
  shows "tcp_set_baud rate t [Went, Line (Some (accepted rate))] =
      Some (Inr (), t\<lparr>tc_lines := tc_lines t @ [Ask_baud rate], tc_baud := rate\<rparr>, [])"
    "\<exists>e. tcp_set_baud rate t [Went, Line (Some refused)] = Some (Inl e, t\<lparr>tc_lines := tc_lines t @ [Ask_baud rate]\<rparr>, [])"
  using assms by (simp_all add: tcp_set_baud_def tcp_request_def accepted_def refused_def key_def c_key_def c_steps)

lemma with_tcp_simps [simp]:
  "with_tcp (Some (Inr x, t, ss)) f l = Some (f x (l\<lparr>ln_tcp := t\<rparr>))" "with_tcp (Some (Inl e, t, ss)) f l = Some (l\<lparr>ln_tcp := t\<rparr>)"
  by (simp_all add: with_tcp_def)

lemma with_bridge_eq: "with_bridge m f l = Some l' \<longleftrightarrow> (\<exists>b. m = Some b \<and> l' = f (l\<lparr>ln_bridge := b\<rparr>))"
  by (auto simp: with_bridge_def split: option.splits)

text \<open>The invariant, taken apart once for the steps below.\<close>

lemma link_okD:
  assumes "link_ok i k m l"
  shows "bridge_ok (ln_bridge l)" "in_phase i {Leased} (ln_bridge l)" "br_live (ln_bridge l)"
    "tc_data (ln_tcp l)" "tc_control (ln_tcp l)" "tc_can_set_baud (ln_tcp l)"
    "tc_baud (ln_tcp l) = br_baud (ln_bridge l)"
    "k \<le> length (br_serial (ln_bridge l))" "m \<le> length (br_sent_back (ln_bridge l))"
    "tc_sent (ln_tcp l) = concat (map snd (drop k (br_serial (ln_bridge l)))) @ ln_out l"
    "drop m (br_sent_back (ln_bridge l)) = ln_got l @ ln_in l"
  using assms by (simp_all add: link_ok_def line_of_def)

lemma step_fast: "bridge_step h b = Some b' \<Longrightarrow> br_high_speed b' = br_high_speed b"
  using step_remembers by blast

lemma link_step_refines:
  assumes "link_step i e l = Some l'" "link_ok i k m l"
  shows "link_ok i k m l' \<and> line_of k m l' = line_step (br_high_speed (ln_bridge l)) e (line_of k m l) \<and>
    br_high_speed (ln_bridge l') = br_high_speed (ln_bridge l)"
proof -
  note l = link_okD [OF assms(2)]
  show ?thesis
  proof (cases e)
    case (Client_writes data)
    then show ?thesis using assms(1) l by (auto simp: client_writes link_ok_def line_of_def)
  next
    case (Client_reads n)
    then have n: "passes n (ln_in l)" using assms(1) by (simp split: if_splits)
    then have "take n (ln_in l) \<noteq> []" by (auto simp: passes_def)
    then show ?thesis using Client_reads n assms(1) l by (auto simp: client_reads link_ok_def line_of_def)
  next
    case Client_idles
    then show ?thesis using assms l by (auto simp: client_idles)
  next
    case (Client_sets_baud rate)
    obtain b reply where b: "bridge_answer (Rate_request (Some rate)) (ln_bridge l) = (b, reply)" by fastforce
    note grants = bridge_grants [OF b l(2,1)]
    show ?thesis
    proof (cases "rate \<in> {9600, 19200, 38400} \<or> rate = 500000 \<and> br_high_speed (ln_bridge l)")
      case True
      with grants have "br_baud b = rate" "reply = accepted rate" by auto
      then show ?thesis
        using Client_sets_baud assms(1) b l grants True client_sets_baud(1) [OF l(5,6), of rate]
        by (auto simp: link_ok_def line_of_def simp del: bridge_answer.simps)
    next
      case False
      then have r: "br_baud b = br_baud (ln_bridge l)" "reply = refused" using grants by (metis (full_types))+
      obtain x where "tcp_set_baud rate (ln_tcp l) [Went, Line (Some refused)] =
          Some (Inl x, (ln_tcp l)\<lparr>tc_lines := tc_lines (ln_tcp l) @ [Ask_baud rate]\<rparr>, [])"
        using client_sets_baud(2) [OF l(5,6)] by blast
      then have "l' = l\<lparr>ln_bridge := b, ln_tcp := (ln_tcp l)\<lparr>tc_lines := tc_lines (ln_tcp l) @ [Ask_baud rate]\<rparr>\<rparr>"
        using Client_sets_baud assms(1) b l(2) r by (simp del: bridge_answer.simps)
      then show ?thesis
        using Client_sets_baud l grants r False by (auto simp: link_ok_def line_of_def)
    qed
  next
    case (Bridge_takes n)
    then obtain b where n: "passes n (ln_out l)" "bridge_step (Data_bytes (take n (ln_out l))) (ln_bridge l) = Some b"
      "l' = l\<lparr>ln_bridge := b, ln_out := drop n (ln_out l)\<rparr>"
      using assms(1) by (auto simp: with_bridge_eq simp del: bridge_step.simps split: if_splits)
    then show ?thesis
      using Bridge_takes l bridge_takes [OF n(2) l(2,8)] step_bridge_ok [OF n(2) l(1)] step_fast [OF n(2)]
      by (simp add: link_ok_def line_of_def)
  next
    case (Bridge_brings data)
    then obtain b where n: "bridge_step (Serial_bytes data) (ln_bridge l) = Some b"
      "l' = l\<lparr>ln_bridge := b, ln_in := ln_in l @ data\<rparr>"
      using assms(1) by (auto simp: with_bridge_eq simp del: bridge_step.simps)
    then show ?thesis
      using Bridge_brings l bridge_brings [OF n(1) l(2,9)] step_bridge_ok [OF n(1) l(1)] step_fast [OF n(1)]
      by (simp add: link_ok_def line_of_def)
  next
    case (Elsewhere h)
    then obtain b where n: "foreign i h" "bridge_step h (ln_bridge l) = Some b" "l' = l\<lparr>ln_bridge := b\<rparr>"
      using assms(1) by (auto simp: with_bridge_eq simp del: bridge_step.simps split: if_splits)
    then show ?thesis
      using Elsewhere l foreign_step [OF n(2) l(1-3) n(1)] step_bridge_ok [OF n(2) l(1)] step_fast [OF n(2)]
      by (simp add: link_ok_def line_of_def)
  qed
qed

lemma link_run_refines:
  assumes "link_run i es l = Some l'" "link_ok i k m l"
  shows "link_ok i k m l' \<and> line_of k m l' = fold (line_step (br_high_speed (ln_bridge l))) es (line_of k m l)"
proof -
  let ?fast = "br_high_speed (ln_bridge l)"
  have "(link_ok i k m l' \<and> br_high_speed (ln_bridge l') = ?fast) \<and>
      line_of k m l' = fold (line_step ?fast) es (line_of k m l)"
    by (rule link.run_refines [where I = "\<lambda>x. link_ok i k m x \<and> br_high_speed (ln_bridge x) = ?fast", OF _ assms(1)])
      (use link_step_refines assms(2) in force)+
  then show ?thesis by blast
qed

section \<open>Opening and closing\<close>

lemma run_remembers:
  assumes "bridge_run hs b = Some b'"
  shows "br_token b' = br_token b \<and> br_control b' = br_control b \<and> br_high_speed b' = br_high_speed b"
  by (rule br.run_keeps [where E = UNIV, OF _ assms]) (simp_all add: step_remembers)

lemma tcp_opens:
  assumes "tc_control_port t \<noteq> None" "\<not> tc_data t"
  shows "tcp_open t [Went, Went, Line (Some \<lparr>rp_ok = True, rp_data_port = Some port, rp_baud = Some rate\<rparr>), Went] =
      Some (Inr (), t\<lparr>tc_control := True, tc_lines := tc_lines t @ [Ask_lease (tc_token t)], tc_baud := rate,
        tc_data := True, tc_reached := Some port\<rparr>, [])"
    "\<exists>t' ss. tcp_open t [Went, Went, Line (Some refused), Went] = Some (Inl (OSError ''Bridge rejected control request (check token, lease, and baud)''), t', ss)"
proof -
  show "tcp_open t [Went, Went, Line (Some \<lparr>rp_ok = True, rp_data_port = Some port, rp_baud = Some rate\<rparr>), Went] =
      Some (Inr (), t\<lparr>tc_control := True, tc_lines := tc_lines t @ [Ask_lease (tc_token t)], tc_baud := rate,
        tc_data := True, tc_reached := Some port\<rparr>, [])"
    using assms by (simp add: tcp_open_def tcp_lease_def tcp_request_def key_def c_key_def c_steps)
  show "\<exists>t' ss. tcp_open t [Went, Went, Line (Some refused), Went] = Some (Inl (OSError ''Bridge rejected control request (check token, lease, and baud)''), t', ss)"
    using assms
    by (simp add: tcp_open_def tcp_lease_def tcp_request_def refused_def tcp_close_def close_writer_def c_steps)
qed

text \<open>Who may open: with the token, and while nobody has the lease.\<close>

lemma link_open_refused:
  assumes "br_control b" "tc_control_port t \<noteq> None" "\<not> tc_data t" "br_lease b \<or> tc_token t \<noteq> br_token b"
  shows "\<exists>l. link_open me port t b =
    Some (Inl (OSError ''Bridge rejected control request (check token, lease, and baud)''), l)"
proof -
  obtain t' ss where "tcp_open t [Went, Went, Line (Some refused), Went] =
      Some (Inl (OSError ''Bridge rejected control request (check token, lease, and baud)''), t', ss)"
    using tcp_opens(2) [OF assms(2,3)] by blast
  moreover have "rp_ok refused = False" by (simp add: refused_def)
  ultimately show ?thesis
    using assms(1,4)
    by (auto simp: link_open_def lease_reply_def in_phase_def control_connect_def control_hello_def set_phase_def Let_def
        nth_append)
qed

lemma link_open_granted:
  assumes "bridge_ok b" "tc_control_port t \<noteq> None" "\<not> tc_data t" "\<not> br_lease b" "tc_token t = br_token b"
  shows "\<exists>l. link_open me port t b = Some (Inr (), l) \<and>
    ln_tcp l = t\<lparr>tc_control := True, tc_lines := tc_lines t @ [Ask_lease (tc_token t)], tc_baud := br_baud b,
        tc_data := True, tc_reached := Some port\<rparr> \<and>
    in_phase (length (br_clients b)) {Leased} (ln_bridge l) \<and> br_live (ln_bridge l) \<and>
    br_baud (ln_bridge l) = br_baud b \<and> br_serial (ln_bridge l) = br_serial b \<and>
    br_sent_back (ln_bridge l) = br_sent_back b \<and> ln_out l = [] \<and> ln_in l = [] \<and> ln_got l = []"
proof -
  have "br_control b" "br_data_task b = None" using assms(1,4) by (simp_all add: bridge_ok_def lease_ok_def)
  then show ?thesis
    using assms(4,5) tcp_opens(1) [OF assms(2,3), of port "br_baud b"]
    by (simp add: link_open_def lease_reply_def in_phase_def control_connect_def control_hello_def control_opened_def
        data_connect_def set_phase_def Let_def nth_append)
qed

lemma link_open_bridge:
  assumes "link_open me port t b = Some (r, l)"
  shows "\<exists>hs. bridge_run hs b = Some (ln_bridge l)"
  using assms
  by (auto simp: link_open_def Let_def simp del: bridge_run.simps bridge_step.simps split: option.splits if_splits prod.splits)
    (metis br.run_append option.simps(5))

lemma link_opened:
  assumes "bridge_ok b" "link_open me port (new_tcp host p baud (Some cp) token) b = Some (Inr (), l)"
  shows "link_ok (length (br_clients b)) (length (br_serial b)) (length (br_sent_back b)) l \<and>
    line_of (length (br_serial b)) (length (br_sent_back b)) l =
      \<lparr>sl_rate = br_baud b, sl_sent = [], sl_wire = [], sl_come = [], sl_got = []\<rparr> \<and>
    br_high_speed (ln_bridge l) = br_high_speed b"
proof -
  let ?t = "new_tcp host p baud (Some cp) token"
  have t: "tc_control_port ?t \<noteq> None" "\<not> tc_data ?t" "tc_sent ?t = []" "tc_can_set_baud ?t" by (simp_all add: new_tcp_def)
  have "br_control b" using assms(1) by (simp add: bridge_ok_def)
  then have free: "\<not> br_lease b" "tc_token ?t = br_token b"
    using link_open_refused [of b ?t me port] t(1,2) assms(2) by auto
  obtain hs where hs: "bridge_run hs b = Some (ln_bridge l)" using link_open_bridge [OF assms(2)] by blast
  show ?thesis
    using link_open_granted [OF assms(1) t(1,2) free, of me port] assms(2) t run_bridge_ok [OF hs assms(1)] run_remembers [OF hs]
    by (auto simp: link_ok_def line_of_def)
qed

lemma link_closes:
  assumes "link_ok i k m l"
  shows "\<exists>l'. link_close i l = Some (Inr (), l') \<and> \<not> br_lease (ln_bridge l') \<and> bridge_ok (ln_bridge l') \<and>
    br_token (ln_bridge l') = br_token (ln_bridge l) \<and> \<not> tc_data (ln_tcp l')"
proof -
  note l = link_okD [OF assms]
  have ok: "lease_ok (ln_bridge l)" using l(1) by (simp add: bridge_ok_def)
  have i: "cl_phase (br_clients (ln_bridge l) ! i) = Leased" "i < length (br_clients (ln_bridge l))"
    using l(2) by (auto simp: in_phase_def)
  have server: "br_data_server (ln_bridge l) \<noteq> None" using the_owner(5) [OF ok l(2)] i(1) by simp
  have task: "br_data_task (ln_bridge l) \<noteq> None" using ok l(3) by (simp add: lease_ok_def)
  have "\<exists>b. bridge_run [Data_end, Data_finish, Control_lost i, Server_closed i] (ln_bridge l) = Some b \<and> \<not> br_lease b"
    using l(3) i server task
    by (simp add: in_phase_def control_lost_def end_lease_def server_closed_def end_lease_data_def release_def set_phase_def)
  then obtain b where b: "bridge_run [Data_end, Data_finish, Control_lost i, Server_closed i] (ln_bridge l) = Some b"
    "\<not> br_lease b" by blast
  have "\<exists>t. tcp_close (ln_tcp l) [Went, Went] = Some (Inr (), t, []) \<and> \<not> tc_data t"
    using l(4,5) by (simp add: tcp_close_def close_writer_def c_steps)
  then show ?thesis
    using b run_bridge_ok [OF b(1) l(1)] run_remembers [OF b(1)]
    by (auto simp: link_close_def simp del: bridge_run.simps)
qed

text \<open>The token stays, and a request for a rate is always answered.\<close>

lemma link_step_bridge:
  assumes "link_step i e l = Some l'"
  shows "\<exists>hs. bridge_run hs (ln_bridge l) = Some (ln_bridge l')"
proof -
  have tcp: "ln_bridge l' = ln_bridge x" if "with_tcp m f x = Some l'" "\<And>y z. ln_bridge (f y z) = ln_bridge z" for m :: "('a result \<times> Tcp \<times> sock list) option" and f x
    using that by (auto simp: with_tcp_def split: option.splits sum.splits prod.splits)
  have none: "bridge_run [] b = Some b" for b by simp
  have one: "bridge_run [h] b = Some b'" if "bridge_step h b = Some b'" for h b b' using that by simp
  show ?thesis
  proof (cases e)
    case (Client_sets_baud rate)
    then have i: "in_phase i {Leased} (ln_bridge l)" using assms by (simp split: if_splits)
    obtain b reply where b: "bridge_answer (Rate_request (Some rate)) (ln_bridge l) = (b, reply)" by fastforce
    then have "b = fst (control_baud rate (ln_bridge l))" by (simp split: prod.splits)
    then have "bridge_run [Control_baud i rate] (ln_bridge l) = Some b" using i by simp
    moreover have "ln_bridge l' = b"
      using Client_sets_baud assms i b by (auto simp del: bridge_answer.simps dest!: tcp)
    ultimately show ?thesis by blast
  next
    case (Client_writes data)
    then have "ln_bridge l' = ln_bridge l" using assms by (auto dest!: tcp)
    then show ?thesis using none by metis
  next
    case (Client_reads n)
    then have "ln_bridge l' = ln_bridge l" using assms by (auto dest!: tcp split: if_splits)
    then show ?thesis using none by metis
  next
    case Client_idles
    then have "ln_bridge l' = ln_bridge l" using assms by (auto dest!: tcp)
    then show ?thesis using none by metis
  qed (use assms in \<open>auto simp: with_bridge_eq simp del: bridge_step.simps split: if_splits intro!: one exI\<close>)
qed

lemma token_kept:
  assumes "link_run i es l = Some l'"
  shows "br_token (ln_bridge l') = br_token (ln_bridge l)"
proof (rule link.run_keeps [where E = UNIV, OF _ assms])
  fix e x x'
  assume "link_step i e x = Some x'" "br_token (ln_bridge x) = br_token (ln_bridge l)"
  then show "br_token (ln_bridge x') = br_token (ln_bridge l)" using link_step_bridge run_remembers by metis
qed simp_all

lemma rate_request_returns:
  assumes "in_phase i {Leased} (ln_bridge l)" "tc_control (ln_tcp l)" "tc_can_set_baud (ln_tcp l)"
  shows "link_step i (Client_sets_baud r) l \<noteq> None"
proof -
  have "\<exists>q t ss. tcp_set_baud r (ln_tcp l) [Went, Line (Some reply)] = Some (q, t, ss)" for reply
    using assms(2,3) by (cases "rp_baud reply") (simp_all add: tcp_set_baud_def tcp_request_def key_def c_key_def c_steps)
  moreover obtain b reply where "bridge_answer (Rate_request (Some r)) (ln_bridge l) = (b, reply)" by fastforce
  ultimately obtain q t ss where "bridge_answer (Rate_request (Some r)) (ln_bridge l) = (b, reply)"
    "tcp_set_baud r (ln_tcp l) [Went, Line (Some reply)] = Some (q, t, ss)" by blast
  then show ?thesis
    using assms(1) by (cases q) (simp_all del: bridge_answer.simps)
qed

section \<open>Properties\<close>

text \<open>
  C22: a port behind a bridge is a serial line.  After a client has opened its transport, and
  however its calls, the bytes under way and the other connections of the bridge interleave: the
  bytes on the wire are those it wrote, and its reads return those that came, complete, in order
  and once, up to what is under way; the rate is the last one asked for that the bridge grants,
  at both ends; and the other connections have no effect on any of it.
\<close>

theorem bridge_is_a_serial_line:
  assumes "run_bridge loopback True secret fast rate = Inr b0" "bridge_run hs b0 = Some b"
    and "link_open me port (new_tcp host p baud (Some cp) token) b = Some (Inr (), l)"
    and "link_run (length (br_clients b)) es l = Some l'"
  shows "let line = line_of (length (br_serial b)) (length (br_sent_back b)) l' in
    line = fold (line_step fast) es \<lparr>sl_rate = br_baud b, sl_sent = [], sl_wire = [], sl_come = [], sl_got = []\<rparr> \<and>
    br_baud (ln_bridge l') = sl_rate line \<and>
    sl_sent line = sl_wire line @ ln_out l' \<and> sl_come line = sl_got line @ ln_in l'"
proof -
  have ok: "bridge_ok b" using run_bridge_ok [OF assms(2) started_ok [OF assms(1)]] .
  have "br_high_speed b0 = fast"
    using assms(1) by (auto simp: run_bridge_def new_bridge_def bridge_start_def try_bind_eq_Inr split: if_splits)
  then have fast: "br_high_speed b = fast" using run_remembers [OF assms(2)] by simp
  let ?line = "line_of (length (br_serial b)) (length (br_sent_back b)) l'"
  note opened = link_opened [OF ok assms(3)]
  then have "link_ok (length (br_clients b)) (length (br_serial b)) (length (br_sent_back b)) l" by blast
  note run = link_run_refines [OF assms(4) this]
  then have "?line = fold (line_step fast) es \<lparr>sl_rate = br_baud b, sl_sent = [], sl_wire = [], sl_come = [], sl_got = []\<rparr>"
    using opened fast run [THEN conjunct2] by simp
  moreover have "br_baud (ln_bridge l') = sl_rate ?line" "sl_sent ?line = sl_wire ?line @ ln_out l'"
    "sl_come ?line = sl_got ?line @ ln_in l'"
    using link_okD [OF run [THEN conjunct1]] by (simp_all add: line_of_def)
  ultimately show ?thesis by (simp add: Let_def)
qed

definition example_link_events :: "link_event list" where
  "example_link_events = [Client_writes [2, 0, 1, 0], Bridge_takes 3, Client_idles, Elsewhere (Control_connect ''10.0.0.9''),
     Bridge_takes 1, Bridge_brings [6, 2], Client_reads 1, Elsewhere (Control_hello 1 (Some (''lease'', ''secret''))),
     Client_sets_baud 38400, Client_sets_baud 500000]"

definition example_client :: Tcp where
  "example_client = new_tcp ''bridge'' 7000 9600 (Some 7001) ''secret''"

lemmas link_eval = link_open_def lease_reply_def refused_def accepted_def Let_def bridge_eval new_tcp_def
  tcp_open_def tcp_lease_def tcp_request_def tcp_write_def tcp_read_def tcp_set_baud_def tcp_close_def close_writer_def
  key_def c_key_def c_steps passes_def with_tcp_def with_bridge_def

lemma example_link:
  "\<exists>l l'. link_open ''10.0.0.2'' 7000 example_client example_bridge = Some (Inr (), l) \<and>
     link_run (length (br_clients example_bridge)) example_link_events l = Some l' \<and>
     tc_baud (ln_tcp l') = 38400 \<and> ln_in l' = [2]"
  unfolding example_link_events_def example_client_def by (simp add: link_eval)

theorem bridge_is_a_serial_line_witness:
  "\<exists>l l'. link_open ''10.0.0.2'' 7000 example_client example_bridge = Some (Inr (), l) \<and>
     link_run (length (br_clients example_bridge)) example_link_events l = Some l' \<and>
     br_baud (ln_bridge l') = 38400 \<and> ln_got l' = [6]"
proof -
  obtain l l' where l: "link_open ''10.0.0.2'' 7000 example_client example_bridge = Some (Inr (), l)"
    "link_run (length (br_clients example_bridge)) example_link_events l = Some l'" "tc_baud (ln_tcp l') = 38400" "ln_in l' = [2]"
    using example_link by blast
  have "bridge_run [] example_bridge = Some example_bridge" by simp
  from bridge_is_a_serial_line [OF example_start this l(1) [unfolded example_client_def] l(2)] l
  have "br_baud (ln_bridge l') = 38400" "ln_got l' = [6]"
    by (simp_all add: Let_def line_of_def example_link_events_def example_bridge_def)
  then show ?thesis using l by blast
qed



end
