(* ===== verification/Bridge_Shutdown.thy ===== *)
theory Bridge_Shutdown
  imports Bridge
begin

text \<open>
  \<^verbatim>\<open>SerialBridge.close\<close>: the control listener is closed and waited for, the control tasks that
  still run are cancelled, the lease is ended, and the port is closed.  Its steps interleave with
  those of \<open>Bridge\<close>.  Of asyncio the model uses, beside \<^verbatim>\<open>wait_closed\<close>, that a control task
  notices the end of its connection before the listener's \<^verbatim>\<open>wait_closed\<close> does.
\<close>

datatype shutdown_stage = Serving | Closing_control | Closing_listener | Closing_data | Down

record Shutdown =
  sd_bridge :: Bridge
  sd_stage :: shutdown_stage

definition serving :: "Bridge \<Rightarrow> Shutdown" where
  "serving b = \<lparr>sd_bridge = b, sd_stage = Serving\<rparr>"

text \<open>\<^verbatim>\<open>_end_lease\<close>, called by \<^verbatim>\<open>close\<close> itself, from its end to its beginning; then the port is closed.\<close>

definition close_down :: "Bridge \<Rightarrow> Shutdown" where
  "close_down b = \<lparr>sd_bridge = b\<lparr>br_lease := False, br_peer := None\<rparr>, sd_stage = Down\<rparr>"

definition close_data :: "Bridge \<Rightarrow> Shutdown" where
  "close_data b =
     (if br_data_task b \<noteq> None then \<lparr>sd_bridge = b, sd_stage = Closing_data\<rparr> else close_down b)"

definition close_listener :: "Bridge \<Rightarrow> Shutdown" where
  "close_listener b =
     (if br_data_server b \<noteq> None then \<lparr>sd_bridge = b\<lparr>br_data_server := Some False\<rparr>, sd_stage = Closing_listener\<rparr>
      else close_data b)"

text \<open>
  A control task that is cancelled while it ends its lease stops there, with the lease as it is.
\<close>

definition cancel_clients :: "Bridge \<Rightarrow> Bridge" where
  "cancel_clients b = b\<lparr>br_clients := map (\<lambda>c. c\<lparr>cl_phase := Gone\<rparr>) (br_clients b)\<rparr>"

definition some_connected :: "Bridge \<Rightarrow> bool" where
  "some_connected b \<longleftrightarrow> (\<exists>c \<in> set (br_clients b). cl_phase c \<in> {Greeting, Opening, Leased})"

datatype shutdown_step =
    Request_close
  | Control_down
  | Listener_down
  | Data_down
  | During happening

fun is_connect :: "happening \<Rightarrow> bool" where
  "is_connect (Control_connect peer) = True"
| "is_connect _ = False"

fun shut_step :: "shutdown_step \<Rightarrow> Shutdown \<Rightarrow> Shutdown option" where
  "shut_step Request_close s =
     (if sd_stage s \<noteq> Serving then None
      else if br_control (sd_bridge s) then Some (s\<lparr>sd_stage := Closing_control\<rparr>)
      else Some (close_listener (sd_bridge s)))"
| "shut_step Control_down s =
     (if sd_stage s = Closing_control \<and> \<not> some_connected (sd_bridge s)
      then Some (close_listener (cancel_clients (sd_bridge s))) else None)"
| "shut_step Listener_down s =
     (if sd_stage s = Closing_listener \<and> \<not> br_live (sd_bridge s)
      then Some (close_data ((sd_bridge s)\<lparr>br_data_server := None\<rparr>)) else None)"
| "shut_step Data_down s =
     (if sd_stage s = Closing_data \<and> br_data_task (sd_bridge s) = None then Some (close_down (sd_bridge s)) else None)"
| "shut_step (During h) s =
     (if sd_stage s = Down \<or> sd_stage s \<noteq> Serving \<and> is_connect h then None
      else case bridge_step h (sd_bridge s) of None \<Rightarrow> None | Some b \<Rightarrow> Some (s\<lparr>sd_bridge := b\<rparr>))"

fun shut_run :: "shutdown_step list \<Rightarrow> Shutdown \<Rightarrow> Shutdown option" where
  "shut_run [] s = Some s"
| "shut_run (e # es) s = (case shut_step e s of None \<Rightarrow> None | Some s' \<Rightarrow> shut_run es s')"

interpretation shut: stepping shut_step shut_run
  by unfold_locales simp_all

section \<open>What a shutdown waits for\<close>

text \<open>A data connection has a listener, and past the listener there is no data connection.\<close>

definition shutdown_ok :: "Shutdown \<Rightarrow> bool" where
  "shutdown_ok s \<longleftrightarrow>
     (br_live (sd_bridge s) \<longrightarrow> br_data_server (sd_bridge s) \<noteq> None \<and> br_data_task (sd_bridge s) \<noteq> None) \<and>
     (sd_stage s = Closing_listener \<longrightarrow> br_data_server (sd_bridge s) \<noteq> Some True) \<and>
     (sd_stage s \<in> {Closing_data, Down} \<longrightarrow> br_data_server (sd_bridge s) = None) \<and>
     (sd_stage s \<notin> {Serving, Closing_control} \<longrightarrow> \<not> some_connected (sd_bridge s)) \<and>
     (sd_stage s = Down \<longrightarrow> \<not> br_lease (sd_bridge s)) \<and>
     (\<not> br_control (sd_bridge s) \<longrightarrow> br_clients (sd_bridge s) = [])"

lemma in_phase_connected: "in_phase i phs b \<Longrightarrow> phs \<subseteq> {Greeting, Opening, Leased} \<Longrightarrow> some_connected b"
  unfolding in_phase_def some_connected_def by (meson nth_mem subsetD)

lemma connected_irrelevant [simp]:
  "some_connected (b\<lparr>br_data_server := x\<rparr>) = some_connected b" "some_connected (b\<lparr>br_lease := e, br_peer := p\<rparr>) = some_connected b"
  "some_connected (b\<lparr>br_live := v\<rparr>) = some_connected b" "some_connected (b\<lparr>br_data_task := k\<rparr>) = some_connected b"
  "some_connected (data_bytes d b) = some_connected b" "some_connected (serial_bytes d b) = some_connected b"
  "some_connected (data_connect peer b) = some_connected b" "some_connected (b\<lparr>br_baud := n\<rparr>) = some_connected b"
  "\<not> some_connected (cancel_clients b)"
  by (simp_all add: some_connected_def data_connect_def Let_def data_bytes_def serial_bytes_def cancel_clients_def)

lemma set_phase_connected:
  assumes "some_connected (set_phase i ph b)" "ph \<notin> {Greeting, Opening, Leased}"
  shows "some_connected b"
proof -
  obtain k where k: "k < length (br_clients b)" "cl_phase (br_clients (set_phase i ph b) ! k) \<in> {Greeting, Opening, Leased}"
    using assms(1) by (auto simp: some_connected_def in_set_conv_nth)
  then have "cl_phase (br_clients b ! k) \<in> {Greeting, Opening, Leased}"
    using assms(2) by (cases "k = i") (auto simp: set_phase_def)
  then show ?thesis using k(1) unfolding some_connected_def by (meson nth_mem)
qed

text \<open>Once no control connection is left, a happening brings none and does not open the listener.\<close>

lemma unconnected_step:
  assumes "bridge_step h b = Some b'" "\<not> some_connected b" "\<not> is_connect h"
  shows "\<not> some_connected b'" "br_data_server b' \<in> {br_data_server b, Some False, None}"
    "br_data_server b = None \<Longrightarrow> br_data_server b' = None"
proof -
  have none: "\<not> in_phase i {Greeting} b" "\<not> in_phase i {Opening} b" "\<not> in_phase i {Leased} b"
    "\<not> in_phase i {Greeting, Opening, Leased} b" for i
    using assms(2) in_phase_connected [of i _ b] by blast+
  have kept: "\<not> some_connected (set_phase i ph c)" if "ph \<notin> {Greeting, Opening, Leased}" "\<not> some_connected c" for i ph c
    using set_phase_connected that by blast
  show "\<not> some_connected b'"
    using assms none kept
    by (cases h) (auto simp: release_def server_closed_def end_lease_data_def split: if_splits)
  show "br_data_server b' \<in> {br_data_server b, Some False, None}" "br_data_server b = None \<Longrightarrow> br_data_server b' = None"
    using assms none
    by (cases h; auto simp: data_connect_def release_def server_closed_def end_lease_data_def data_bytes_def serial_bytes_def Let_def
        split: if_splits)+
qed

lemma step_live:
  assumes "bridge_step h b = Some b'" "br_live b \<longrightarrow> br_data_server b \<noteq> None \<and> br_data_task b \<noteq> None"
  shows "br_live b' \<longrightarrow> br_data_server b' \<noteq> None \<and> br_data_task b' \<noteq> None" "br_live b \<Longrightarrow> h \<noteq> Data_end \<Longrightarrow> br_live b'"
  using assms
  by (cases h; auto simp: ops data_connect_def server_closed_def end_lease_def end_lease_data_def release_def serial_bytes_def Let_def
      split: if_splits option.splits)+

lemma step_transparent:
  assumes "bridge_step h b = Some b'" "\<not> br_control b \<longrightarrow> br_clients b = []"
  shows "\<not> br_control b' \<longrightarrow> br_clients b' = []"
proof (cases "br_control b")
  case True
  then show ?thesis using step_remembers(3) [OF assms(1)] by simp
next
  case False
  then have "\<not> in_phase i phs b" for i phs using assms(2) by (simp add: in_phase_def)
  then show ?thesis
    using assms False by (cases h) (auto simp: data_connect_def data_bytes_def serial_bytes_def Let_def split: if_splits)
qed

lemma bridge_step_shutdown_ok:
  assumes "bridge_step h (sd_bridge s) = Some b" "shutdown_ok s" "sd_stage s \<noteq> Down" "sd_stage s \<noteq> Serving \<Longrightarrow> \<not> is_connect h"
  shows "shutdown_ok (s\<lparr>sd_bridge := b\<rparr>)"
proof -
  have "\<not> some_connected b \<and> (br_data_server (sd_bridge s) = None \<longrightarrow> br_data_server b = None) \<and>
      br_data_server b \<in> {br_data_server (sd_bridge s), Some False, None}"
    if "sd_stage s \<notin> {Serving, Closing_control}"
    using unconnected_step [OF assms(1)] that assms(2,4) unfolding shutdown_ok_def by blast
  then show ?thesis
    using step_live(1) [OF assms(1)] step_transparent [OF assms(1)] assms(2,3)
    by (cases "sd_stage s") (auto simp: shutdown_ok_def)
qed

lemmas shutdown_defs = close_listener_def close_data_def close_down_def

lemma shutdown_step_ok:
  assumes "shut_step e s = Some s'" "shutdown_ok s"
  shows "shutdown_ok s'"
proof (cases e)
  case (During h)
  then obtain b where "bridge_step h (sd_bridge s) = Some b" "s' = s\<lparr>sd_bridge := b\<rparr>" "sd_stage s \<noteq> Down"
    "sd_stage s \<noteq> Serving \<Longrightarrow> \<not> is_connect h"
    using assms(1) by (auto simp del: bridge_step.simps split: if_splits option.splits)
  then show ?thesis using bridge_step_shutdown_ok assms(2) by metis
next
  case Request_close
  have "\<not> some_connected (sd_bridge s)" if "\<not> br_control (sd_bridge s)"
    using assms(2) that by (auto simp: shutdown_ok_def some_connected_def)
  then show ?thesis
    using Request_close assms by (auto simp: shutdown_ok_def shutdown_defs split: if_splits)
next
  case Control_down
  have "\<not> some_connected (cancel_clients (sd_bridge s))" by simp
  then show ?thesis
    using Control_down assms by (auto simp: shutdown_ok_def shutdown_defs cancel_clients_def split: if_splits)
qed (use assms in \<open>auto simp: shutdown_ok_def shutdown_defs split: if_splits\<close>)

lemma shutdown_run_ok: "shut_run es s = Some s' \<Longrightarrow> shutdown_ok s \<Longrightarrow> shutdown_ok s'"
  using shut.run_keeps [where I = shutdown_ok and E = UNIV] shutdown_step_ok by blast

lemma serving_ok: "run_bridge loopback control secret fast rate = Inr b \<Longrightarrow> shutdown_ok (serving b)"
  by (auto simp: run_bridge_def new_bridge_def bridge_start_def try_bind_eq_Inr serving_def shutdown_ok_def split: if_splits)

lemma live_step:
  assumes "shut_step e s = Some s'" "shutdown_ok s" "br_live (sd_bridge s)" "e \<noteq> During Data_end"
  shows "br_live (sd_bridge s')"
proof (cases e)
  case (During h)
  have live: "br_live (sd_bridge s) \<longrightarrow> br_data_server (sd_bridge s) \<noteq> None \<and> br_data_task (sd_bridge s) \<noteq> None"
    using assms(2) by (simp add: shutdown_ok_def)
  obtain b where "bridge_step h (sd_bridge s) = Some b" "s' = s\<lparr>sd_bridge := b\<rparr>" "h \<noteq> Data_end"
    using During assms(1,4) by (auto simp del: bridge_step.simps split: if_splits option.splits)
  then show ?thesis using step_live(2) [OF _ live assms(3)] by simp
qed (use assms(1,3) in \<open>auto simp: shutdown_defs cancel_clients_def split: if_splits\<close>)

lemma live_goes_on:
  assumes "shut_run es s = Some s'" "shutdown_ok s" "br_live (sd_bridge s)" "During Data_end \<notin> set es"
  shows "br_live (sd_bridge s')"
proof -
  have "shutdown_ok s' \<and> br_live (sd_bridge s')"
    by (rule shut.run_keeps [where E = "- {During Data_end}", OF _ assms(1)])
      (use assms shutdown_step_ok live_step in auto)
  then show ?thesis ..
qed

lemma leased_step:
  assumes "bridge_step h b = Some b'" "in_phase i {Leased} b" "h \<noteq> Control_lost i"
  shows "in_phase i {Leased} b'"
  using assms
  by (cases h) (auto simp: ops in_phase_def set_phase_def nth_append nth_list_update data_connect_def server_closed_def
      end_lease_def end_lease_data_def release_def serial_bytes_def Let_def split: if_splits option.splits)

lemma leased_shut_step:
  assumes "shut_step e s = Some s'" "sd_stage s = Closing_control" "in_phase i {Leased} (sd_bridge s)"
    "e \<noteq> During (Control_lost i)"
  shows "sd_stage s' = Closing_control \<and> in_phase i {Leased} (sd_bridge s')"
proof -
  have "some_connected (sd_bridge s)" using in_phase_connected [OF assms(3)] by simp
  then obtain h where h: "e = During h" using assms(1,2) by (cases e) auto
  then obtain b where "bridge_step h (sd_bridge s) = Some b" "s' = s\<lparr>sd_bridge := b\<rparr>" "h \<noteq> Control_lost i"
    using assms(1,4) by (auto simp del: bridge_step.simps split: if_splits option.splits)
  then show ?thesis using leased_step [OF _ assms(3)] assms(2) by simp
qed

lemma leased_goes_on:
  assumes "shut_run es s = Some s'" "sd_stage s = Closing_control" "in_phase i {Leased} (sd_bridge s)"
    "During (Control_lost i) \<notin> set es"
  shows "sd_stage s' = Closing_control \<and> in_phase i {Leased} (sd_bridge s')"
  by (rule shut.run_keeps [where E = "- {During (Control_lost i)}", OF _ assms(1)])
    (use assms leased_shut_step in auto)

text \<open>With nobody connected the shutdown ends by its own steps, whatever its stage.\<close>

definition own_steps :: "shutdown_step set" where
  "own_steps = {Control_down, Listener_down, Data_down, During Data_finish}"

lemma listener_ends:
  assumes "\<not> br_live b" "br_data_task b = None"
  shows "\<exists>es b'. set es \<subseteq> own_steps \<and> length es \<le> 1 \<and> shut_run es (close_listener b) = Some \<lparr>sd_bridge = b', sd_stage = Down\<rparr> \<and>
    \<not> br_lease b'"
proof (cases "br_data_server b = None")
  case True
  then have "shut_run [] (close_listener b) = Some (close_down b)" using assms by (simp add: shutdown_defs)
  then show ?thesis by (intro exI [of _ "[]"]) (simp add: close_down_def)
next
  case False
  then have "shut_run [Listener_down] (close_listener b) =
      Some (close_down (b\<lparr>br_data_server := None\<rparr>))" using assms by (simp add: shutdown_defs)
  then show ?thesis by (intro exI [of _ "[Listener_down]"]) (simp add: close_down_def own_steps_def)
qed

definition ends_down :: "Shutdown \<Rightarrow> bool" where
  "ends_down s \<longleftrightarrow>
     (\<exists>es s'. set es \<subseteq> own_steps \<and> shut_run es s = Some s' \<and> sd_stage s' = Down \<and> \<not> br_lease (sd_bridge s'))"

lemma ends_down_step: "shut_step e s = Some s' \<Longrightarrow> e \<in> own_steps \<Longrightarrow> ends_down s' \<Longrightarrow> ends_down s"
proof -
  assume step: "shut_step e s = Some s'" "e \<in> own_steps" and "ends_down s'"
  then obtain es t where t: "set es \<subseteq> own_steps" "shut_run es s' = Some t" "sd_stage t = Down" "\<not> br_lease (sd_bridge t)"
    unfolding ends_down_def by blast
  then have "set (e # es) \<subseteq> own_steps" "shut_run (e # es) s = Some t" using step by simp_all
  then show ?thesis using t(3,4) unfolding ends_down_def by blast
qed

lemma idle_ends_down:
  assumes "shutdown_ok s" "sd_stage s \<noteq> Serving" "\<not> some_connected (sd_bridge s)" "\<not> br_live (sd_bridge s)"
    "br_data_task (sd_bridge s) = None"
  shows "ends_down s"
proof (cases "sd_stage s")
  case Closing_control
  let ?b = "cancel_clients (sd_bridge s)"
  have "ends_down (close_listener ?b)"
    using listener_ends [of ?b] assms(4,5) unfolding ends_down_def by (fastforce simp: cancel_clients_def)
  then show ?thesis
    using ends_down_step [of Control_down s] Closing_control assms(3) by (simp add: own_steps_def)
next
  case Closing_listener
  have "shut_run [Listener_down] s = Some (close_down ((sd_bridge s)\<lparr>br_data_server := None\<rparr>))"
    using Closing_listener assms(4,5) by (simp add: close_data_def)
  then show ?thesis unfolding ends_down_def own_steps_def close_down_def by (intro exI [of _ "[Listener_down]"]) simp
next
  case Closing_data
  have "shut_run [Data_down] s = Some (close_down (sd_bridge s))" using Closing_data assms(5) by simp
  then show ?thesis unfolding ends_down_def own_steps_def close_down_def by (intro exI [of _ "[Data_down]"]) simp
next
  case Down
  then show ?thesis
    using assms(1) unfolding ends_down_def shutdown_ok_def by (intro exI [of _ "[]"]) simp
qed (use assms(2) in simp)

lemma unconnected_ends_down:
  assumes "shutdown_ok s" "sd_stage s \<noteq> Serving" "\<not> some_connected (sd_bridge s)" "\<not> br_live (sd_bridge s)"
  shows "ends_down s"
proof (cases "br_data_task (sd_bridge s) = None \<or> sd_stage s = Down")
  case True
  then show ?thesis
  proof
    assume "sd_stage s = Down"
    then show ?thesis using assms(1) unfolding ends_down_def shutdown_ok_def by (intro exI [of _ "[]"]) simp
  qed (use idle_ends_down assms in blast)
next
  case False
  let ?s = "s\<lparr>sd_bridge := (sd_bridge s)\<lparr>br_data_task := None\<rparr>\<rparr>"
  have step: "shut_step (During Data_finish) s = Some ?s" using False assms(4) by simp
  have "ends_down ?s" using idle_ends_down [OF shutdown_step_ok [OF step assms(1)]] assms by simp
  then show ?thesis using ends_down_step [OF step] by (simp add: own_steps_def)
qed

section \<open>Property\<close>

text \<open>
  C24: a shutdown waits for the clients.  Once \<^verbatim>\<open>close\<close> has been called it does not return while a
  data connection is up or while the holder of the lease stays connected, whatever else happens:
  the clients that it was about to cancel decide when it ends.  When no connection is left it
  ends by its own steps, with the lease free.
\<close>

theorem shutdown_waits_for_clients:
  assumes "run_bridge loopback control secret fast rate = Inr b" "shut_run es (serving b) = Some s"
    and "sd_stage s \<noteq> Serving" "shut_run es' s = Some s'"
  shows "(br_live (sd_bridge s) \<and> During Data_end \<notin> set es' \<longrightarrow> sd_stage s' \<noteq> Down \<and> br_live (sd_bridge s')) \<and>
    (in_phase i {Leased} (sd_bridge s) \<and> During (Control_lost i) \<notin> set es' \<longrightarrow> sd_stage s' = Closing_control) \<and>
    (\<not> br_live (sd_bridge s) \<and> \<not> some_connected (sd_bridge s) \<longrightarrow>
      (\<exists>own d. set own \<subseteq> own_steps \<and> shut_run own s = Some d \<and> sd_stage d = Down \<and> \<not> br_lease (sd_bridge d)))"
proof -
  have ok: "shutdown_ok s" using shutdown_run_ok [OF assms(2) serving_ok [OF assms(1)]] .
  have "sd_stage s' \<noteq> Down \<and> br_live (sd_bridge s')" if "br_live (sd_bridge s)" "During Data_end \<notin> set es'"
    using live_goes_on [OF assms(4) ok that] shutdown_run_ok [OF assms(4) ok] by (auto simp: shutdown_ok_def)
  moreover have "sd_stage s' = Closing_control" if i: "in_phase i {Leased} (sd_bridge s)" "During (Control_lost i) \<notin> set es'"
  proof -
    have "some_connected (sd_bridge s)" using in_phase_connected [OF i(1)] by simp
    then have "sd_stage s = Closing_control" using ok assms(3) by (auto simp: shutdown_ok_def)
    then show ?thesis using leased_goes_on [OF assms(4) _ i] by simp
  qed
  moreover have "ends_down s" if "\<not> br_live (sd_bridge s)" "\<not> some_connected (sd_bridge s)"
    using unconnected_ends_down ok assms(3) that by blast
  ultimately show ?thesis unfolding ends_down_def by blast
qed

definition example_shutdown :: "shutdown_step list" where
  "example_shutdown = map During example_greeting @ [Request_close]"

lemma example_closing:
  "\<exists>s s'. shut_run example_shutdown (serving example_bridge) = Some s \<and> sd_stage s \<noteq> Serving \<and> br_live (sd_bridge s) \<and>
     in_phase 0 {Leased} (sd_bridge s) \<and> shut_run [During (Data_bytes [7])] s = Some s'"
  by (simp add: example_shutdown_def example_greeting_def serving_def bridge_eval)

theorem shutdown_waits_for_clients_witness:
  "\<exists>s s'. shut_run example_shutdown (serving example_bridge) = Some s \<and>
     shut_run [During (Data_bytes [7])] s = Some s' \<and> sd_stage s' = Closing_control \<and> br_live (sd_bridge s')"
proof -
  obtain s s' where s: "shut_run example_shutdown (serving example_bridge) = Some s" "sd_stage s \<noteq> Serving"
    "br_live (sd_bridge s)" "in_phase 0 {Leased} (sd_bridge s)" "shut_run [During (Data_bytes [7])] s = Some s'"
    using example_closing by blast
  from shutdown_waits_for_clients [OF example_start s(1,2,5), of 0] s show ?thesis by auto
qed

end
