(* ===== verification/Http_Api.thy ===== *)
theory Http_Api
  imports Service_Properties "HOL-Library.List_Lexorder" "HOL-Library.Char_ord"
begin

text \<open>
  \<^verbatim>\<open>api/app.py\<close> and \<^verbatim>\<open>exports.py\<close>: the handlers of the local HTTP interface over the service,
  behind the check of the origin.  Routing, parsing of bodies and the check of the host name
  are the framework's; a refusal is its status code.
\<close>

section \<open>Origins\<close>

text \<open>
  \<^verbatim>\<open>urlparse(origin).netloc\<close>.  The argument tells which addresses in brackets the library takes.
\<close>

definition is_letter :: "char \<Rightarrow> bool" where
  "is_letter c \<longleftrightarrow> (let n = (of_char c :: nat) in 65 \<le> n \<and> n \<le> 90 \<or> 97 \<le> n \<and> n \<le> 122)"

definition is_scheme_char :: "char \<Rightarrow> bool" where
  "is_scheme_char c \<longleftrightarrow>
     is_letter c \<or> (let n = (of_char c :: nat) in 48 \<le> n \<and> n \<le> 57) \<or> c \<in> {CHR ''+'', CHR ''-'', CHR ''.''}"

definition clean_url :: "string \<Rightarrow> string" where
  "clean_url url =
     filter (\<lambda>c. (of_char c :: nat) \<notin> {9, 10, 13}) (dropWhile (\<lambda>c. (of_char c :: nat) \<le> 32) url)"

definition after_scheme :: "string \<Rightarrow> string" where
  "after_scheme url =
     (let scheme = takeWhile (\<lambda>c. c \<noteq> CHR '':'') url; rest = dropWhile (\<lambda>c. c \<noteq> CHR '':'') url in
      if rest \<noteq> [] \<and> scheme \<noteq> [] \<and> is_letter (hd scheme) \<and> list_all is_scheme_char scheme
      then tl rest else url)"

definition netloc :: "(string \<Rightarrow> bool) \<Rightarrow> string \<Rightarrow> string result" where
  "netloc bracket_ok origin =
     (let url = after_scheme (clean_url origin) in
      if take 2 url \<noteq> ''//'' then Inr []
      else
        let loc = takeWhile (\<lambda>c. c \<notin> {CHR ''/'', CHR ''?'', CHR ''#''}) (drop 2 url) in
        if (CHR ''['' \<in> set loc) \<noteq> (CHR '']'' \<in> set loc) \<or> CHR ''['' \<in> set loc \<and> \<not> bracket_ok loc
        then Inl (ValueError ''Invalid IPv6 URL'') else Inr loc)"

text \<open>The requests that change something; all four are made with \<^verbatim>\<open>POST\<close>.\<close>

datatype route = Consent HardwareConsent bool | Action string | Record_start string | Record_stop

record http_request =
  rq_method :: string
  rq_origin :: "string option"
  rq_host :: "string option"
  rq_route :: route

text \<open>\<^verbatim>\<open>local_origin\<close>: whether the request is passed on.\<close>

definition local_origin :: "(string \<Rightarrow> bool) \<Rightarrow> http_request \<Rightarrow> bool result" where
  "local_origin bracket_ok r =
     (case rq_origin r of
        None \<Rightarrow> Inr True
      | Some origin \<Rightarrow>
          if rq_method r \<notin> {''GET'', ''HEAD'', ''OPTIONS''} \<and> origin \<noteq> []
          then try_bind (netloc bracket_ok origin) (\<lambda>loc. Inr (Some loc = rq_host r))
          else Inr True)"

section \<open>Handlers\<close>

definition health :: "Service \<Rightarrow> nat" where
  "health s = (if dev_state (sv_device s) \<noteq> FAULTED then 200 else 503)"

definition post_consent :: "HardwareConsent \<Rightarrow> bool \<Rightarrow> Service \<Rightarrow> Service \<times> nat" where
  "post_consent consent enable_writes s =
     (let d = sv_device s in
      if busy s \<or> dev_state d \<notin> {DISCONNECTED, CONNECTED, FAULTED} then (s, 409)
      else if enable_writes \<and> consent_require consent (cfg_serial_standard (settings d)) \<noteq> Inr () then (s, 422)
      else
        (s\<lparr>sv_device := d\<lparr>settings := (settings d)\<lparr>cfg_consent := consent, cfg_read_only := \<not> enable_writes\<rparr>\<rparr>\<rparr>, 200))"

definition post_action :: "string \<Rightarrow> Service \<Rightarrow> Service \<times> nat" where
  "post_action name s =
     (if name \<notin> {''start'', ''stop'', ''reconnect'', ''probe''} then (s, 422)
      else case action name s of Inr s' \<Rightarrow> (s', 202) | Inl e \<Rightarrow> (s, if is_ValueError e then 409 else 500))"

definition post_record_start :: "string \<Rightarrow> Service \<Rightarrow> Service \<times> nat" where
  "post_record_start stamp s =
     (case start_recording stamp s of
        (s', Inr _) \<Rightarrow> (s', 200)
      | (s', Inl e) \<Rightarrow> (s', if is_ValueError e \<or> is_OSError e then 409 else 500))"

definition handler :: "route \<Rightarrow> Service \<Rightarrow> Service \<times> nat" where
  "handler r s =
     (case r of
        Consent consent enable \<Rightarrow> post_consent consent enable s
      | Action name \<Rightarrow> post_action name s
      | Record_start stamp \<Rightarrow> post_record_start stamp s
      | Record_stop \<Rightarrow> (stop_recording s, 200))"

definition serve :: "(string \<Rightarrow> bool) \<Rightarrow> http_request \<Rightarrow> Service \<Rightarrow> Service \<times> nat" where
  "serve bracket_ok r s =
     (case local_origin bracket_ok r of
        Inl e \<Rightarrow> (s, 500)
      | Inr False \<Rightarrow> (s, 403)
      | Inr True \<Rightarrow> if rq_method r = ''POST'' then handler (rq_route r) s else (s, 405))"

text \<open>
  \<^verbatim>\<open>/api/recordings/{name}\<close>: \<open>resolve\<close> joins a name to the directory and follows links, and gives
  the directory it ends up in and the name there; the value is what is sent.
\<close>

definition suffix_of :: "string \<Rightarrow> string" where
  "suffix_of name =
     (let ext = rev (takeWhile (\<lambda>c. c \<noteq> CHR ''.'') (rev name)) in
      if ext \<noteq> [] \<and> length ext + 1 < length name then CHR ''.'' # ext else [])"

definition recording_file ::
  "(string \<Rightarrow> string \<times> string) \<Rightarrow> (string \<times> string \<Rightarrow> bool) \<Rightarrow> string \<Rightarrow> string \<Rightarrow> nat + string \<times> string"
where
  "recording_file resolve is_file directory name =
     (let path = resolve name in
      if fst path \<noteq> directory \<or> \<not> is_file path \<or> suffix_of (snd path) \<notin> {''.bin'', ''.jsonl'', ''.json''}
      then Inl 404 else Inr path)"

text \<open>\<^verbatim>\<open>/ws/scans\<close>: a foreign origin is refused; otherwise the socket has a queue of its own until it ends.\<close>

definition socket_open :: "(string \<Rightarrow> bool) \<Rightarrow> string option \<Rightarrow> string option \<Rightarrow> Service \<Rightarrow> (nat option \<times> Service) result" where
  "socket_open bracket_ok origin host s =
     (case origin of
        Some o' \<Rightarrow>
          if o' \<noteq> [] then try_bind (netloc bracket_ok o') (\<lambda>loc.
            Inr (if Some loc = host then map_prod Some id (subscribe s) else (None, s)))
          else Inr (map_prod Some id (subscribe s))
      | None \<Rightarrow> Inr (map_prod Some id (subscribe s)))"

definition socket_end :: "nat \<Rightarrow> Service \<Rightarrow> Service" where
  "socket_end queue s = unsubscribe queue s"

text \<open>
  What an open socket sends.  A round takes a scan from its queue, or none within half a second;
  a scan that is not sent in time is followed by a status, and a broken connection ends the loop.
\<close>

datatype socket_message = Status_message | Scan_message Scan

datatype sending = Sent | Late | Broken

definition socket_round :: "Scan option \<Rightarrow> sending \<Rightarrow> sending \<Rightarrow> socket_message list \<times> bool" where
  "socket_round queued sent_scan sent_status =
     (case (queued, sent_scan) of
        (None, _) \<Rightarrow> ([Status_message], sent_status = Sent)
      | (Some scan, Sent) \<Rightarrow> ([Scan_message scan], True)
      | (Some scan, Late) \<Rightarrow> ([Scan_message scan, Status_message], sent_status = Sent)
      | (Some scan, Broken) \<Rightarrow> ([Scan_message scan], False))"

fun socket_loop :: "(Scan option \<times> sending \<times> sending) list \<Rightarrow> socket_message list" where
  "socket_loop [] = []"
| "socket_loop ((queued, sent_scan, sent_status) # rounds) =
     (case socket_round queued sent_scan sent_status of
        (ms, going) \<Rightarrow> if going then ms @ socket_loop rounds else ms)"

definition socket_greeting :: "Service \<Rightarrow> socket_message list" where
  "socket_greeting s =
     Status_message # (case latest (sv_device s) of None \<Rightarrow> [] | Some scan \<Rightarrow> [Scan_message scan])"

text \<open>\<^verbatim>\<open>/api/scans/latest\<close> and \<^verbatim>\<open>/api/recordings\<close>; a directory entry is its name, size, and whether it is a file and a link.\<close>

definition get_latest :: "Service \<Rightarrow> nat + Scan" where
  "get_latest s = (case latest (sv_device s) of None \<Rightarrow> Inl 404 | Some scan \<Rightarrow> Inr scan)"

definition recordings :: "(string \<times> nat \<times> bool \<times> bool) list option \<Rightarrow> (string \<times> nat) list" where
  "recordings directory =
     (case directory of
        None \<Rightarrow> []
      | Some entries \<Rightarrow>
          map (\<lambda>(name, size, is_file, link). (name, size))
            (filter (\<lambda>(name, size, is_file, link). is_file \<and> \<not> link \<and> suffix_of name \<in> {''.bin'', ''.jsonl'', ''.json''})
              (sort_key fst entries)))"

section \<open>Exports\<close>

text \<open>The values of the rows of a CSV file, and of the lines of a point cloud.\<close>

record csv_row =
  csv_sequence :: nat
  csv_timestamp :: string
  csv_angle :: rat
  csv_raw :: int
  csv_distance_raw :: int
  csv_distance :: "real option"
  csv_x :: "real option"
  csv_y :: "real option"
  csv_flags :: "string list"

definition csv_rows :: "Scan \<Rightarrow> csv_row list" where
  "csv_rows scan = map (\<lambda>p. \<lparr>csv_sequence = sequence scan, csv_timestamp = timestamp scan, csv_angle = angle_deg p,
     csv_raw = point_raw p, csv_distance_raw = distance_raw p, csv_distance = distance_m p, csv_x = point_x p,
     csv_y = point_y p, csv_flags = point_flags p\<rparr>) (points scan)"

datatype pcd_line = Pcd_nan int | Pcd_point real real int

definition pcd_line_of :: "Point \<Rightarrow> pcd_line" where
  "pcd_line_of p =
     (case (point_x p, point_y p) of (Some x, Some y) \<Rightarrow> Pcd_point x y (point_raw p) | _ \<Rightarrow> Pcd_nan (point_raw p))"

datatype export = Json Scan | Csv "csv_row list" | Pcd int "pcd_line list"

definition export_scan :: "Scan \<Rightarrow> string \<Rightarrow> export result" where
  "export_scan scan kind =
     (if kind = ''json'' then Inr (Json scan)
      else if kind = ''csv'' then Inr (Csv (csv_rows scan))
      else if kind = ''pcd'' then Inr (Pcd (scan_count scan) (map pcd_line_of (points scan)))
      else Inl (ValueError ''Export format must be json, csv, or pcd''))"

definition get_export :: "string \<Rightarrow> Service \<Rightarrow> nat + export" where
  "get_export kind s =
     (if kind \<notin> {''json'', ''csv'', ''pcd''} then Inl 422
      else case latest (sv_device s) of
        None \<Rightarrow> Inl 404
      | Some scan \<Rightarrow> (case export_scan scan kind of Inl e \<Rightarrow> Inl 500 | Inr x \<Rightarrow> Inr x))"

section \<open>Requests and the consent\<close>

text \<open>A request that the origin check lets through and that enables writing with a complete checklist.\<close>

definition enabling :: "(string \<Rightarrow> bool) \<Rightarrow> serial_standard \<Rightarrow> http_request \<Rightarrow> bool" where
  "enabling bracket_ok standard r \<longleftrightarrow>
     rq_method r = ''POST'' \<and> local_origin bracket_ok r = Inr True \<and>
     (\<exists>consent. rq_route r = Consent consent True \<and> consent_require consent standard = Inr ())"

text \<open>
  The life of the service between requests: nothing but a request changes the settings, and
  everything else that happens is left open.
\<close>

inductive api_reach :: "(string \<Rightarrow> bool) \<Rightarrow> Service \<Rightarrow> http_request list \<Rightarrow> Service \<Rightarrow> bool"
  for bracket_ok s0 where
  Start: "api_reach bracket_ok s0 [] s0"
| Request: "api_reach bracket_ok s0 rs s \<Longrightarrow> api_reach bracket_ok s0 (rs @ [r]) (fst (serve bracket_ok r s))"
| Other: "api_reach bracket_ok s0 rs s \<Longrightarrow> settings (sv_device s') = settings (sv_device s) \<Longrightarrow>
    api_reach bracket_ok s0 rs s'"

lemma run_action_settings: "run_action name d ts = (out, d', ts') \<Longrightarrow> settings d' = settings d"
  using endsD [OF wired.run_action_ok [of "settings d" "tr_kind (transport d)"]] by blast

lemma other_action:
  "api_reach bracket_ok s0 rs s \<Longrightarrow> run_action name (sv_device s) ts = (out, d', ts') \<Longrightarrow>
   api_reach bracket_ok s0 rs (s\<lparr>sv_device := d'\<rparr>)"
  by (rule api_reach.Other) (simp_all add: run_action_settings)

lemma other_read: "api_reach bracket_ok s0 rs s \<Longrightarrow> api_reach bracket_ok s0 rs (service_read r s)"
  by (rule api_reach.Other) (simp_all add: service_read_def Let_def)

lemma handler_settings:
  assumes "settings (sv_device (fst (handler r s))) \<noteq> settings (sv_device s)"
  shows "\<exists>consent enable. r = Consent consent enable \<and>
    (enable \<longrightarrow> consent_require consent (cfg_serial_standard (settings (sv_device s))) = Inr ()) \<and>
    settings (sv_device (fst (handler r s))) =
      (settings (sv_device s))\<lparr>cfg_consent := consent, cfg_read_only := \<not> enable\<rparr>"
proof (cases r)
  case (Consent consent enable)
  let ?d = "sv_device s"
  have "fst (post_consent consent enable s) = s \<or>
      (enable \<longrightarrow> consent_require consent (cfg_serial_standard (settings ?d)) = Inr ()) \<and>
      settings (sv_device (fst (post_consent consent enable s))) =
        (settings ?d)\<lparr>cfg_consent := consent, cfg_read_only := \<not> enable\<rparr>"
    unfolding post_consent_def Let_def by simp
  moreover have "handler r s = post_consent consent enable s" by (simp add: handler_def Consent)
  ultimately show ?thesis using assms Consent by metis
next
  case (Action name)
  then show ?thesis
    using assms
    by (auto simp: handler_def post_action_def action_def try_bind_eq_Inr split: if_splits sum.splits)
next
  case (Record_start stamp)
  then show ?thesis
    using assms
    by (auto simp: handler_def post_record_start_def start_recording_def service_note_def device_note_def
        split: if_splits sum.splits option.splits prod.splits)
next
  case Record_stop
  then show ?thesis
    using assms
    by (auto simp: handler_def stop_recording_def Let_def service_note_def device_note_def split: option.splits if_splits)
qed

text \<open>Only a request that enables writing makes writing possible.\<close>

lemma serve_enables:
  assumes "require_write (settings (sv_device (fst (serve bracket_ok r s)))) = Inr ()"
    "require_write (settings (sv_device s)) \<noteq> Inr ()"
  shows "enabling bracket_ok (cfg_serial_standard (settings (sv_device s))) r"
proof -
  have changed: "settings (sv_device (fst (serve bracket_ok r s))) \<noteq> settings (sv_device s)" using assms by metis
  then have passed: "local_origin bracket_ok r = Inr True" "rq_method r = ''POST''"
    "fst (serve bracket_ok r s) = fst (handler (rq_route r) s)"
    by (auto simp: serve_def split: sum.splits bool.splits if_splits)
  obtain consent enable where c: "rq_route r = Consent consent enable"
    "enable \<longrightarrow> consent_require consent (cfg_serial_standard (settings (sv_device s))) = Inr ()"
    "settings (sv_device (fst (serve bracket_ok r s))) =
      (settings (sv_device s))\<lparr>cfg_consent := consent, cfg_read_only := \<not> enable\<rparr>"
    using handler_settings [of "rq_route r" s] changed passed(3) by metis
  have enable using assms unfolding c(3) by (auto simp: require_write_def physical_def split: if_splits)
  then show ?thesis using c(1,2) passed by (auto simp: enabling_def)
qed

lemma serve_standard:
  "cfg_serial_standard (settings (sv_device (fst (serve bracket_ok r s)))) = cfg_serial_standard (settings (sv_device s))"
proof -
  have "fst (serve bracket_ok r s) = s \<or> fst (serve bracket_ok r s) = fst (handler (rq_route r) s)"
    by (auto simp: serve_def split: sum.splits bool.splits)
  moreover have "cfg_serial_standard (settings (sv_device (fst (handler (rq_route r) s)))) = cfg_serial_standard (settings (sv_device s))"
    using handler_settings [of "rq_route r" s] by fastforce
  ultimately show ?thesis by metis
qed


definition full_consent :: HardwareConsent where
  "full_consent = \<lparr>power_connector_identified = True, data_connector_identified = True,
     serial_standard_selected = True, adapter_voltage_verified = True, rs422_pins_7_8_bridged = False\<rparr>"

definition consent_request :: http_request where
  "consent_request = \<lparr>rq_method = ''POST'', rq_origin = Some ''http://localhost:8000/'', rq_host = Some ''localhost:8000'',
     rq_route = Consent full_consent True\<rparr>"


end
