(* ===== verification/Command_Line.thy ===== *)
theory Command_Line
  imports Service_Properties
begin

text \<open>
  \<^verbatim>\<open>cli.py\<close>: how arguments and environment become settings, and what a command does with the
  device.  Argument parsing and printing are the library's; the settings that the environment
  alone would give are a parameter.
\<close>

section \<open>Arguments\<close>

record Args =
  a_command :: string
  a_transport :: "transport_kind option"
  a_port :: "string option"
  a_host :: "string option"
  a_control_port :: "int option"
  a_baud :: "int option"
  a_target_baud :: "int option"
  a_fixed_baud :: bool
  a_serial_standard :: "serial_standard option"
  a_high_speed :: bool
  a_angle :: "int option"
  a_resolution :: "rat option"
  a_unit :: "string option"
  a_read_only :: bool
  a_allow_writes :: bool
  a_confirm_hardware :: bool
  a_confirm_rs422_jumper :: bool
  a_startup_wait :: "seconds option"
  a_replay_path :: "string option"
  a_replay_speed :: "rat option"
  a_recording_dir :: "string option"
  a_web_host :: "string option"
  a_web_port :: "int option"
  a_autostart :: bool

text \<open>\<^verbatim>\<open>int(text)\<close>: digits, single underscores between them, a sign and white space around.\<close>

definition digit_of :: "char \<Rightarrow> int option" where
  "digit_of c = (let n = (of_char c :: nat) in if 48 \<le> n \<and> n \<le> 57 then Some (int n - 48) else None)"

fun digits_value :: "bool \<Rightarrow> int \<Rightarrow> string \<Rightarrow> int option" where
  "digits_value after_digit acc [] = (if after_digit then Some acc else None)"
| "digits_value after_digit acc (c # cs) =
     (if c = CHR ''_'' then (if after_digit then digits_value False acc cs else None)
      else case digit_of c of None \<Rightarrow> None | Some v \<Rightarrow> digits_value True (10 * acc + v) cs)"

definition py_int :: "string \<Rightarrow> int result" where
  "py_int text =
     (let s = strip text;
          value = (case s of
             c # cs \<Rightarrow> if c = CHR ''-'' then map_option uminus (digits_value False 0 cs)
                       else if c = CHR ''+'' then digits_value False 0 cs else digits_value False 0 s
           | [] \<Rightarrow> None)
      in case value of None \<Rightarrow> Inl (ValueError ''invalid literal for int()'') | Some n \<Rightarrow> Inr n)"

section \<open>Settings\<close>

definition given :: "'a option \<Rightarrow> ('a \<Rightarrow> Settings \<Rightarrow> Settings) \<Rightarrow> Settings \<Rightarrow> Settings" where
  "given x f s = (case x of None \<Rightarrow> s | Some v \<Rightarrow> f v s)"

definition named_values :: "Args \<Rightarrow> Settings \<Rightarrow> Settings" where
  "named_values a s0 =
     (let s = given (a_transport a) (\<lambda>v s. s\<lparr>cfg_transport := v\<rparr>) s0;
          s = given (a_host a) (\<lambda>v s. s\<lparr>cfg_host := v\<rparr>) s;
          s = given (a_control_port a) (\<lambda>v s. s\<lparr>cfg_control_port := Some v\<rparr>) s;
          s = given (a_baud a) (\<lambda>v s. s\<lparr>cfg_baud := v\<rparr>) s;
          s = given (a_target_baud a) (\<lambda>v s. s\<lparr>cfg_target_baud := Some v\<rparr>) s;
          s = given (a_serial_standard a) (\<lambda>v s. s\<lparr>cfg_serial_standard := v\<rparr>) s;
          s = given (a_angle a) (\<lambda>v s. s\<lparr>cfg_angle := v\<rparr>) s;
          s = given (a_resolution a) (\<lambda>v s. s\<lparr>cfg_resolution := v\<rparr>) s;
          s = given (a_unit a) (\<lambda>v s. s\<lparr>cfg_unit := v\<rparr>) s;
          s = given (a_startup_wait a) (\<lambda>v s. s\<lparr>cfg_startup_wait := v\<rparr>) s;
          s = given (a_replay_path a) (\<lambda>v s. s\<lparr>cfg_replay_path := Some v\<rparr>) s;
          s = given (a_replay_speed a) (\<lambda>v s. s\<lparr>cfg_replay_speed := v\<rparr>) s;
          s = given (a_recording_dir a) (\<lambda>v s. s\<lparr>cfg_recording_dir := v\<rparr>) s;
          s = given (a_web_host a) (\<lambda>v s. s\<lparr>cfg_web_host := v\<rparr>) s;
          s = given (a_web_port a) (\<lambda>v s. s\<lparr>cfg_web_port := v\<rparr>) s;
          s = (if a_command a = ''replay'' then s\<lparr>cfg_transport := Replay\<rparr> else s)
      in if a_high_speed a then s\<lparr>cfg_high_speed := True\<rparr> else s)"

definition port_value :: "Args \<Rightarrow> Settings \<Rightarrow> Settings result" where
  "port_value a s =
     (case a_port a of
        None \<Rightarrow> Inr s
      | Some port \<Rightarrow>
          if port = [] then Inr s
          else if cfg_transport s = TCP then try_bind (py_int port) (\<lambda>n. Inr (s\<lparr>cfg_tcp_port := n\<rparr>))
          else Inr (s\<lparr>cfg_serial_port := Some port\<rparr>))"

definition DIAGNOSTIC_COMMANDS :: "string list" where
  "DIAGNOSTIC_COMMANDS = [''probe'', ''status'', ''diagnose'']"

definition consent_of :: "Args \<Rightarrow> HardwareConsent" where
  "consent_of a = \<lparr>power_connector_identified = True, data_connector_identified = True,
     serial_standard_selected = True, adapter_voltage_verified = True,
     rs422_pins_7_8_bridged = a_confirm_rs422_jumper a\<rparr>"

definition flag_values :: "Args \<Rightarrow> Settings \<Rightarrow> Settings" where
  "flag_values a s0 =
     (let s = (if a_fixed_baud a then s0\<lparr>cfg_detect_baud := False\<rparr> else s0);
          s = (if a_allow_writes a then s\<lparr>cfg_read_only := False\<rparr> else s);
          s = (if a_read_only a \<or> a_command a \<in> set DIAGNOSTIC_COMMANDS then s\<lparr>cfg_read_only := True\<rparr> else s);
          s = (if a_confirm_hardware a then s\<lparr>cfg_consent := consent_of a\<rparr> else s)
      in if a_autostart a then s\<lparr>cfg_autostart := True\<rparr> else s)"

text \<open>\<^verbatim>\<open>settings_from\<close>; the transport that tells the meaning of \<^verbatim>\<open>--port\<close> is that of the first, validated settings.\<close>

definition settings_from :: "Settings \<Rightarrow> Args \<Rightarrow> Settings result" where
  "settings_from env a =
     try_bind (make_settings (named_values a env)) (\<lambda>preliminary.
     try_bind (port_value a preliminary) (\<lambda>s. make_settings (flag_values a s)))"

section \<open>Running a command\<close>

text \<open>
  The loop that passes scans on.  A round finds the client's queue empty or not, then waits; the
  rounds end with the stop signal or the deadline.
\<close>

fun cli_stream :: "bool list \<Rightarrow> unit op" where
  "cli_stream [] = ret ()"
| "cli_stream (drained # rounds) =
     bind (read_state (\<lambda>d. (dev_state d, last_error d))) (\<lambda>(st, err).
     if st = FAULTED
     then raise (OSError (case err of None \<Rightarrow> ''Scanner faulted'' | Some m \<Rightarrow> if m = [] then ''Scanner faulted'' else m))
     else if st \<noteq> STREAMING \<and> drained then ret ()
     else bind sleep (\<lambda>_. cli_stream rounds))"

text \<open>\<open>output\<close>: what starting the recording and opening the output file give.\<close>

definition cli_body :: "Args \<Rightarrow> unit result \<Rightarrow> bool list \<Rightarrow> unit op" where
  "cli_body a output rounds =
     (if a_command a \<in> set DIAGNOSTIC_COMMANDS \<or> a_read_only a then connect
      else bind (initialize (a_command a \<noteq> ''configure'')) (\<lambda>_.
        if a_command a = ''configure'' then ret ()
        else bind (from_result output) (\<lambda>_. cli_stream rounds)))"

text \<open>\<^verbatim>\<open>try: ... finally: await service.close()\<close>\<close>

definition cli_run :: "Args \<Rightarrow> unit result \<Rightarrow> bool list \<Rightarrow> unit op" where
  "cli_run a output rounds =
     bind (catch (cli_body a output rounds) (\<lambda>_. True) (\<lambda>e. bind close_service (\<lambda>_. raise e))) (\<lambda>_. close_service)"

text \<open>\<^verbatim>\<open>main\<close>: the exit code after the run, or the error that it lets through.\<close>

definition cli_exit :: "unit result \<Rightarrow> error + nat" where
  "cli_exit r =
     (case r of
        Inr _ \<Rightarrow> Inr 0
      | Inl e \<Rightarrow>
          if e = KeyboardInterrupt then Inr 0
          else if is_ValueError e \<or> is_OSError e then Inr 1 else Inl e)"

section \<open>Property\<close>

lemma given_kept:
  "(\<And>v s. cfg_read_only (f v s) = cfg_read_only s) \<Longrightarrow> cfg_read_only (given x f s) = cfg_read_only s"
  "(\<And>v s. cfg_consent (f v s) = cfg_consent s) \<Longrightarrow> cfg_consent (given x f s) = cfg_consent s"
  by (simp_all add: given_def split: option.split)

lemma named_values_kept:
  "cfg_read_only (named_values a s) = cfg_read_only s" "cfg_consent (named_values a s) = cfg_consent s"
  by (simp_all add: named_values_def given_kept Let_def)

lemma port_value_kept:
  "port_value a s = Inr t \<Longrightarrow> cfg_read_only t = cfg_read_only s \<and> cfg_consent t = cfg_consent s"
  by (auto simp: port_value_def try_bind_eq_Inr split: option.splits if_splits)

lemma settings_from_Inr:
  assumes "settings_from env a = Inr s"
  shows "valid_settings s" "a_read_only a \<or> a_command a \<in> set DIAGNOSTIC_COMMANDS \<Longrightarrow> cfg_read_only s"
    "cfg_read_only env \<Longrightarrow> \<not> cfg_read_only s \<Longrightarrow> a_allow_writes a"
    "cfg_consent s = (if a_confirm_hardware a then consent_of a else cfg_consent env)"
proof -
  from assms obtain t where t: "port_value a (named_values a env) = Inr t" "make_settings (flag_values a t) = Inr s"
    by (auto simp: settings_from_def try_bind_eq_Inr make_settings_Inr)
  then have s: "s = flag_values a t" "valid_settings s" by (auto simp: make_settings_Inr)
  have kept: "cfg_read_only t = cfg_read_only env" "cfg_consent t = cfg_consent env"
    using port_value_kept [OF t(1)] by (simp_all add: named_values_kept)
  show "valid_settings s" by fact
  show "a_read_only a \<or> a_command a \<in> set DIAGNOSTIC_COMMANDS \<Longrightarrow> cfg_read_only s"
    unfolding s(1) flag_values_def by (simp add: Let_def)
  show "cfg_read_only env \<Longrightarrow> \<not> cfg_read_only s \<Longrightarrow> a_allow_writes a"
    using kept unfolding s(1) flag_values_def by (auto simp: Let_def split: if_splits)
  show "cfg_consent s = (if a_confirm_hardware a then consent_of a else cfg_consent env)"
    using kept unfolding s(1) flag_values_def by (simp add: Let_def)
qed

lemma cli_stream_ok: "keeps (only_reads s) (cli_stream rounds)"
proof (induction rounds)
  case Nil
  show ?case unfolding cli_stream.simps by (rule ends_ret)
next
  case (Cons drained rounds)
  then show ?case
    unfolding cli_stream.simps
    by (intro keeps_bind ends_read_state) (auto split: prod.splits intro!: ends_if ends_raise ends_ret keeps_bind reading.keeps_sleep)
qed

lemma cli_run_ok: "keeps (only_reads s) (cli_run a output rounds)"
proof -
  have shut: "keeps (only_reads s) close_service"
    unfolding close_service_def close_def by (intro keeps_bind reading.close_keeps reading.keeps_sleep)
  have "keeps (only_reads s) (cli_body a output rounds)"
    unfolding cli_body_def
    by (intro ends_if keeps_bind reading.connect_ok reading.initialize_ok cli_stream_ok ends_ret keeps_from_result)
  then show ?thesis
    unfolding cli_run_def by (intro keeps_bind keeps_catch shut ends_raise)
qed

text \<open>
  On a physical scanner, the commands probe, status and diagnose and every command with
  read-only send nothing but status, type and configuration requests, at every point of their
  run, whatever the other arguments and the environment are.  Any other command can write only
  if writing is allowed and the checklist confirmed, by arguments or by the environment.
\<close>

theorem cli_writes_need_consent:
  assumes "settings_from env a = Inr s" "physical s"
    and "cli_run a output rounds (new_device s tr now) ts = (out, d, ts')"
  shows "(a_read_only a \<or> a_command a \<in> set DIAGNOSTIC_COMMANDS \<longrightarrow>
      set (sent d) \<subseteq> read_telegrams s \<and> \<not> changed d) \<and>
    (cfg_read_only env \<and> cfg_consent env = no_consent \<and> \<not> set (sent d) \<subseteq> read_telegrams s \<longrightarrow>
      a_allow_writes a \<and> a_confirm_hardware a \<and> (cfg_serial_standard s = RS422 \<longrightarrow> a_confirm_rs422_jumper a))"
proof -
  note from' = settings_from_Inr [OF assms(1)]
  have "only_reads s (new_device s tr now)" by (simp add: only_reads_def new_device_def)
  from endsD [OF cli_run_ok this assms(3)]
  have reads: "require_write s \<noteq> Inr () \<Longrightarrow> set (sent d) \<subseteq> read_telegrams s \<and> \<not> changed d"
    by (simp add: only_reads_def)
  have "require_write s \<noteq> Inr ()" if "a_read_only a \<or> a_command a \<in> set DIAGNOSTIC_COMMANDS"
    using from'(2) [OF that] assms(2) by (simp add: require_write_def)
  moreover have "a_allow_writes a \<and> a_confirm_hardware a \<and> (cfg_serial_standard s = RS422 \<longrightarrow> a_confirm_rs422_jumper a)"
    if "cfg_read_only env" "cfg_consent env = no_consent" "require_write s = Inr ()"
    using that from'(3,4) assms(2)
    by (auto simp: require_write_def consent_require_def consent_of_def no_consent_def split: if_splits)
  ultimately show ?thesis using reads by blast
qed

definition probe_args :: Args where
  "probe_args = \<lparr>a_command = ''probe'', a_transport = Some SerialPort, a_port = Some ''COM7'', a_host = None,
     a_control_port = None, a_baud = None, a_target_baud = None, a_fixed_baud = False, a_serial_standard = None,
     a_high_speed = False, a_angle = None, a_resolution = None, a_unit = None, a_read_only = False,
     a_allow_writes = True, a_confirm_hardware = True, a_confirm_rs422_jumper = False, a_startup_wait = None,
     a_replay_path = None, a_replay_speed = None, a_recording_dir = None, a_web_host = None, a_web_port = None,
     a_autostart = False\<rparr>"

theorem cli_writes_need_consent_witness:
  "\<exists>s d. settings_from default_settings probe_args = Inr s \<and> physical s \<and>
     cli_run probe_args (Inr ()) [] (new_device s (new_transport SerialPort ''COM7'' 9600 True) 0) [] = (Pending, d, []) \<and>
     set (sent d) \<subseteq> read_telegrams s"
proof -
  obtain s where s: "settings_from default_settings probe_args = Inr s" "physical s" "cfg_startup_wait s = 0"
    by (simp add: settings_from_def named_values_def given_def Let_def probe_args_def make_settings_def
        field_constraints_def validate_settings_def validate_geometry_def default_settings_def BAUD_LITERALS_def
        port_value_def flag_values_def DIAGNOSTIC_COMMANDS_def physical_def)
  obtain d where d: "cli_run probe_args (Inr ()) [] (new_device s (new_transport SerialPort ''COM7'' 9600 True) 0) [] = (Pending, d, [])"
    using s(3)
    by (simp add: cli_run_def cli_body_def probe_args_def DIAGNOSTIC_COMMANDS_def catch_def connect_def startup_delay_def
        op_when_def open_transport_def new_device_def prepare_connect_def bind_def read_state_def modify_def ret_def
        transition_def device_note_def reset_framer_def)
  from cli_writes_need_consent [OF s(1,2) d] s(1,2) d show ?thesis
    by (auto simp: probe_args_def DIAGNOSTIC_COMMANDS_def)
qed

end
