(* ===== verification/Command_Main.thy ===== *)
theory Command_Main
  imports Command_Line Status_Probe
begin

text \<open>
  \<^verbatim>\<open>main\<close> of \<^verbatim>\<open>cli.py\<close>: the listing of the ports, the status probe, the web server and the
  commands that run on a service of their own.
\<close>

section \<open>The program\<close>

text \<open>How the program ends: with an exit code, an error let through, not yet, or in the web server.\<close>

datatype cli_end = Cli_exit nat | Cli_error error | Cli_running | Cli_serves Settings

definition ended :: "unit result \<Rightarrow> cli_end" where
  "ended r = (case cli_exit r of Inl e \<Rightarrow> Cli_error e | Inr code \<Rightarrow> Cli_exit code)"

definition probe_end :: "unit ending \<Rightarrow> bool \<Rightarrow> cli_end" where
  "probe_end e success =
     (case e of
        Value _ \<Rightarrow> if success then Cli_exit 0 else Cli_exit 1
      | Exn e \<Rightarrow> ended (Inl e)
      | Unfinished \<Rightarrow> Cli_running)"

definition run_end :: "unit outcome \<Rightarrow> cli_end" where
  "run_end r = (case r of Done _ \<Rightarrow> ended (Inr ()) | Raise e \<Rightarrow> ended (Inl e) | Pending \<Rightarrow> Cli_running)"

text \<open>
  \<open>env\<close>: the settings of the environment; \<open>devices\<close>: the ports of the host; \<open>log_exists\<close> and \<open>ws\<close>:
  the probe's log file and port; \<open>output\<close>, \<open>rounds\<close>, \<open>ts\<close>: the answers for a run.  The result is
  what was sent to the scanner and how the program ends.
\<close>

definition cli_main ::
  "Settings \<Rightarrow> string list \<Rightarrow> Args \<Rightarrow> bool \<Rightarrow> wire list \<Rightarrow> unit result \<Rightarrow> bool list \<Rightarrow> seconds \<Rightarrow> tick list \<Rightarrow>
   bytes list \<times> cli_end"
where
  "cli_main env devices a log_exists ws output rounds now ts =
     (if a_command a = ''ports'' then ([], Cli_exit 0)
      else if a_command a = ''probe-status''
      then (case probe_status log_exists (new_probe now) ws of
              (e, p, _) \<Rightarrow> (b_written p, probe_end e (pr_success p)))
      else case settings_from env a of
        Inl e \<Rightarrow> ([], ended (Inl e))
      | Inr s \<Rightarrow>
          if a_command a = ''serve'' then ([], Cli_serves s)
          else case create_transport s devices of
            Inl e \<Rightarrow> ([], ended (Inl e))
          | Inr tr \<Rightarrow>
              (case cli_run a output rounds (new_device s tr now) ts of (r, d, _) \<Rightarrow> (sent d, run_end r)))"

section \<open>Property\<close>


lemma probe_run:
  "\<exists>p. probe_status False (new_probe 0)
       [fine_wire 1, fine_wire 2, (fine_wire 3)\<lparr>w_error := Some (OSError ''unplugged'')\<rparr>, fine_wire 4] = (Value (), p, []) \<and>
     b_written p \<noteq> [] \<and> \<not> pr_success p"
  by (simp add: probe_status_def status_request_golden probe_defs fine_wire_def new_probe_def)


end
