(* ===== verification/Lmsapi_Tools.thy ===== *)
theory Lmsapi_Tools
  imports Capture_Properties Commands
begin

text \<open>
  \<^verbatim>\<open>lmsapi_check.py\<close> and \<^verbatim>\<open>lmsapi_experiment.py\<close>: the offline comparison with another
  implementation's checksum, and the guarded run of that implementation with its summary.
  The other checksum, the digests, the case folding of names and the file system are
  parameters; log lines are given by the values they hold.
\<close>

section \<open>The archive\<close>

record entry =
  en_filename :: string
  en_size :: nat
  en_link :: bool

text \<open>\<^verbatim>\<open>PurePosixPath\<close>: its parts, without empty and dot components, and its text.\<close>

fun split_on :: "char \<Rightarrow> string \<Rightarrow> string list" where
  "split_on sep [] = [[]]"
| "split_on sep (c # cs) =
     (case split_on sep cs of
        p # ps \<Rightarrow> if c = sep then [] # p # ps else (c # p) # ps
      | [] \<Rightarrow> [])"

definition posix_root :: "string \<Rightarrow> string" where
  "posix_root name =
     (if take 1 name \<noteq> ''/'' then []
      else if take 2 name = ''//'' \<and> take 3 name \<noteq> ''///'' then ''//'' else ''/'')"

definition posix_names :: "string \<Rightarrow> string list" where
  "posix_names name = filter (\<lambda>p. p \<noteq> [] \<and> p \<noteq> ''.'') (split_on (CHR ''/'') name)"

definition posix_text :: "string \<Rightarrow> string" where
  "posix_text name =
     (let body = concat (map (\<lambda>p. CHR ''/'' # p) (posix_names name)) in
      if posix_root name = [] \<and> posix_names name = [] then ''.'' else posix_root name @ drop 1 body)"

definition archive_path :: "entry \<Rightarrow> string" where
  "archive_path e = map (\<lambda>c. if c = CHR 0x5C then CHR ''/'' else c) (en_filename e)"

definition entry_unsafe :: "(string \<Rightarrow> string) \<Rightarrow> string list \<Rightarrow> entry \<Rightarrow> bool" where
  "entry_unsafe casefold seen e \<longleftrightarrow>
     (let path = archive_path e in
      posix_root path \<noteq> [] \<or> ''..'' \<in> set (posix_names path) \<or> CHR '':'' \<in> set (posix_text path) \<or>
      posix_names path = [] \<or> hd (posix_names path) \<noteq> ''lmsapi'' \<or>
      casefold (posix_text path) \<in> set seen \<or> en_link e)"

fun inspect_from :: "(string \<Rightarrow> string) \<Rightarrow> string list \<Rightarrow> entry list \<Rightarrow> (string \<times> nat) list result" where
  "inspect_from casefold seen [] = Inr []"
| "inspect_from casefold seen (e # es) =
     (if entry_unsafe casefold seen e then Inl (ValueError ''Unsafe/duplicate archive entry'')
      else try_bind (inspect_from casefold (casefold (posix_text (archive_path e)) # seen) es)
             (\<lambda>rest. Inr ((en_filename e, en_size e) # rest)))"

definition inspect_archive :: "(string \<Rightarrow> string) \<Rightarrow> entry list \<Rightarrow> (string \<times> nat) list result" where
  "inspect_archive casefold es = inspect_from casefold [] es"

section \<open>The comparison\<close>

definition GOLDEN :: "bytes list" where
  "GOLDEN =
     [[0x02, 0x00, 0x01, 0x00, 0x31, 0x15, 0x12],
      [0x02, 0x81, 0x17, 0x00, 0x90, 0x4C, 0x4D, 0x53, 0x32, 0x30, 0x30, 0x3B, 0x33, 0x30, 0x31, 0x30,
       0x36, 0x33, 0x3B, 0x56, 0x30, 0x32, 0x2E, 0x30, 0x36, 0x20, 0x13, 0x64, 0x5A]]"

definition body_of :: "bytes \<Rightarrow> bytes" where
  "body_of frame = take (length frame - 2) frame"

definition wire_crc :: "bytes \<Rightarrow> int" where
  "wire_crc frame = from_bytes (drop (length frame - 2) frame)"

text \<open>\<open>random_vectors\<close>: what the seeded generator gives.\<close>

definition test_vectors :: "bytes list \<Rightarrow> bytes list" where
  "test_vectors random_vectors = [] # map (\<lambda>n. [of_nat n]) [0..<256] @ random_vectors"

definition compare_published :: "(bytes \<Rightarrow> int) \<Rightarrow> bool list" where
  "compare_published crc =
     map (\<lambda>frame. crc (body_of frame) = crc16 (body_of frame) \<and> crc16 (body_of frame) = wire_crc frame) GOLDEN"

definition compare_failures :: "(bytes \<Rightarrow> int) \<Rightarrow> bytes list \<Rightarrow> nat list" where
  "compare_failures crc vectors =
     filter (\<lambda>i. crc (vectors ! i) \<noteq> crc16 (vectors ! i)) [0..<length vectors]"

definition compare_passed :: "(bytes \<Rightarrow> int) \<Rightarrow> bytes list \<Rightarrow> bool" where
  "compare_passed crc random_vectors \<longleftrightarrow>
     compare_failures crc (test_vectors random_vectors) = [] \<and> list_all id (compare_published crc)"

section \<open>Saved captures\<close>

text \<open>A line of a log; the fields of a received chunk may be missing.\<close>

datatype log_line = Not_json | Other_line | Rx_line "string option" "string option" "string option"

type_synonym streams = "((string \<times> string) \<times> bytes) list"

fun add_chunk :: "string \<times> string \<Rightarrow> bytes \<Rightarrow> streams \<Rightarrow> streams" where
  "add_chunk key data [] = [(key, data)]"
| "add_chunk key data ((k, raw) # rest) =
     (if k = key then (k, raw @ data) # rest else (k, raw) # add_chunk key data rest)"

fun gather :: "log_line list \<Rightarrow> streams \<Rightarrow> streams result" where
  "gather [] st = Inr st"
| "gather (Not_json # ls) st = Inl (ValueError ''Expecting value'')"
| "gather (Other_line # ls) st = gather ls st"
| "gather (Rx_line run ph digits # ls) st =
     (case (run, digits) of
        (Some r, Some h) \<Rightarrow>
          try_bind (fromhex h) (\<lambda>data.
            gather ls (add_chunk (r, case ph of None \<Rightarrow> ''unspecified'' | Some p \<Rightarrow> p) data st))
      | _ \<Rightarrow> Inl KeyError)"

text \<open>\<^verbatim>\<open>while framer.buffer: framer.expire()\<close>: the candidates found on the way.\<close>

function rescan :: "Framer \<Rightarrow> Framer \<times> FrameCandidate list" where
  "rescan f =
     (if buffer f = [] then (f, [])
      else case expire f of (g, es, cs) \<Rightarrow> (case rescan g of (h, cs') \<Rightarrow> (h, cs @ cs')))"
  by pat_completeness auto
termination
  by (relation "measure (\<lambda>f. length (buffer f))") (auto dest: expire_shrinks [rotated, OF sym])

declare rescan.simps [simp del]

definition scan_stream :: "bytes \<Rightarrow> Framer \<times> FrameCandidate list" where
  "scan_stream raw =
     (case feed new_framer raw of (f, es, cs) \<Rightarrow> (case rescan f of (g, cs') \<Rightarrow> (g, cs @ cs')))"

record checked_frame =
  cf_offset :: nat
  cf_raw :: bytes
  cf_upstream :: int
  cf_wire :: int
  cf_valid :: bool
  cf_matches :: bool

definition check_candidate :: "(bytes \<Rightarrow> int) \<Rightarrow> FrameCandidate \<Rightarrow> checked_frame" where
  "check_candidate crc c =
     (let upstream = crc (body_of (cand_raw c)) in
      \<lparr>cf_offset = cand_offset c, cf_raw = cand_raw c, cf_upstream = upstream, cf_wire = crc_received c,
       cf_valid = (upstream = crc_received c), cf_matches = (upstream = crc_expected c)\<rparr>)"

definition check_capture :: "(bytes \<Rightarrow> int) \<Rightarrow> log_line list \<Rightarrow> ((string \<times> string) \<times> bytes \<times> checked_frame list) list result" where
  "check_capture crc ls =
     try_bind (gather ls []) (\<lambda>st.
       Inr (map (\<lambda>(key, raw). (key, raw, map (check_candidate crc) (snd (scan_stream raw)))) st))"

section \<open>Building from the archive\<close>

text \<open>
  The archive: its bytes, its entries and its members.  The host: the platform, whether the
  compiler is found, whether the target directory is there, the compiler's exit code (\<open>None\<close>
  when it takes too long), and the bytes of the local files the build reads.
\<close>

record Archive =
  ar_package :: bytes
  ar_entries :: "entry list"
  ar_member :: "string \<Rightarrow> bytes option"

record Host =
  ho_windows :: bool
  ho_compiler :: bool
  ho_target_exists :: bool
  ho_build :: "int option"
  ho_runner_source :: bytes
  ho_executable :: bytes

text \<open>What a build does outside the process, in order.\<close>

datatype effect = Make_dir | Put_bytes string bytes | Put_text string | Run_tool string | Load_library

definition REVIEWED_SHA256 :: string where
  "REVIEWED_SHA256 = ''c8d2b5c38cc497f0ea7032e2c73a689c9bb52846497afdb4809ebf81d4898434''"

definition DLL_SHA256 :: string where
  "DLL_SHA256 = ''534f7b6fe9212f7592f409ccfafc94d7cd618cb3bb49175823e911186dad437c''"

text \<open>A compiler run with its captured output, and what follows when it succeeds.\<close>

definition run_compiler :: "Host \<Rightarrow> string \<Rightarrow> effect list \<Rightarrow> (effect list \<Rightarrow> effect list \<times> 'a result) \<Rightarrow> effect list \<times> 'a result" where
  "run_compiler h output before continue =
     (case ho_build h of
        None \<Rightarrow> (before @ [Run_tool ''compiler''], Inl (SubprocessError ''TimeoutExpired''))
      | Some code \<Rightarrow>
          let after = before @ [Run_tool ''compiler'', Put_text output] in
          if code \<noteq> 0 then (after, Inl (SubprocessError ''CalledProcessError'')) else continue after)"

definition CRC_SOURCE :: string where
  "CRC_SOURCE = ''lmsapi/src/lmsapi_crc.c''"

record CheckReport =
  re_entries :: nat
  re_passed :: bool
  re_captures :: "((string \<times> string) \<times> bytes \<times> checked_frame list) list list"

fun check_captures ::
  "(bytes \<Rightarrow> int) \<Rightarrow> log_line list list \<Rightarrow> ((string \<times> string) \<times> bytes \<times> checked_frame list) list list result"
where
  "check_captures crc [] = Inr []"
| "check_captures crc (c # cs) =
     try_bind (check_capture crc c) (\<lambda>r. try_bind (check_captures crc cs) (\<lambda>rs. Inr (r # rs)))"

text \<open>\<open>crc\<close>: the function of the library that was built.\<close>

definition check_run ::
  "(bytes \<Rightarrow> string) \<Rightarrow> (string \<Rightarrow> string) \<Rightarrow> (bytes \<Rightarrow> int) \<Rightarrow> bytes list \<Rightarrow> Archive \<Rightarrow> Host \<Rightarrow>
   log_line list list \<Rightarrow> effect list \<times> CheckReport result"
where
  "check_run digest casefold crc random_vectors a h captures =
     (if digest (ar_package a) \<noteq> REVIEWED_SHA256
      then ([], Inl (ValueError ''ZIP differs from the reviewed LMSAPI 1.1c; inspect it before execution''))
      else if \<not> ho_windows h
      then ([], Inl (ValueError ''This optional check builds a native Windows DLL; do not use Docker''))
      else case inspect_archive casefold (ar_entries a) of Inl e \<Rightarrow> ([], Inl e) | Inr inventory \<Rightarrow>
      (case ar_member a CRC_SOURCE of None \<Rightarrow> ([], Inl KeyError) | Some source \<Rightarrow>
      if \<not> ho_compiler h then ([], Inl (ValueError ''Native GCC was not found; no dependency was installed''))
      else if ho_target_exists h then ([], Inl (OSError ''File exists''))
      else run_compiler h ''build.json''
        [Make_dir, Put_bytes ''lmsapi_1.1c.zip'' (ar_package a), Put_text ''archive-listing.json'',
         Put_bytes ''lmsapi_crc.c'' source, Put_text ''lmsapi_crc.h'']
        (\<lambda>made. (made @ [Load_library],
           try_bind (check_captures crc captures) (\<lambda>checked.
             Inr \<lparr>re_entries = length inventory, re_passed = compare_passed crc random_vectors,
                  re_captures = checked\<rparr>)))))"

datatype exit = Exit int | Raised error

text \<open>\<^verbatim>\<open>main\<close>: a report that is there already ends the run before it starts.\<close>

definition check_passes :: "CheckReport \<Rightarrow> bool" where
  "check_passes r \<longleftrightarrow>
     re_passed r \<and> list_all (list_all (\<lambda>(key, raw, frames). list_all cf_matches frames)) (re_captures r)"

definition check_main ::
  "(bytes \<Rightarrow> string) \<Rightarrow> (string \<Rightarrow> string) \<Rightarrow> (bytes \<Rightarrow> int) \<Rightarrow> bytes list \<Rightarrow> Archive \<Rightarrow> Host \<Rightarrow>
   log_line list list \<Rightarrow> bool \<Rightarrow> effect list \<times> exit"
where
  "check_main digest casefold crc random_vectors a h captures report_exists =
     (if report_exists then ([], Exit 2)
      else case check_run digest casefold crc random_vectors a h captures of
        (done_before, Inl e) \<Rightarrow> (done_before, Raised e)
      | (done_before, Inr report) \<Rightarrow>
          (done_before @ [Put_text ''report''], Exit (if check_passes report then 0 else 1)))"

section \<open>The bundle\<close>

text \<open>The digests a manifest names; a manifest read back may lack them.\<close>

record Manifest =
  mf_runner :: "string option"
  mf_runner_source :: "string option"

definition prepare :: "(bytes \<Rightarrow> string) \<Rightarrow> (string \<Rightarrow> string) \<Rightarrow> Archive \<Rightarrow> Host \<Rightarrow> effect list \<times> Manifest result" where
  "prepare digest casefold a h =
     (if digest (ar_package a) \<noteq> REVIEWED_SHA256
      then ([], Inl (ValueError ''Unreviewed LMSAPI archive; refusing to extract or execute''))
      else case inspect_archive casefold (ar_entries a) of Inl e \<Rightarrow> ([], Inl e) | Inr listing \<Rightarrow>
      (case (ar_member a ''lmsapi/libDLL/lmsapi.dll'', ar_member a ''lmsapi/docs/html/license.html'') of
        (Some library, Some licence) \<Rightarrow>
          if digest library \<noteq> DLL_SHA256 then ([], Inl (ValueError ''Unexpected native DLL''))
          else if \<not> ho_windows h \<or> \<not> ho_compiler h
          then ([], Inl (ValueError ''Native Windows .NET Framework compiler required; nothing installed''))
          else if ho_target_exists h then ([], Inl (OSError ''File exists''))
          else run_compiler h ''build-output.txt''
            [Make_dir, Put_bytes ''lmsapi.dll'' library, Put_bytes ''license.html'' licence,
             Put_bytes ''LmsapiRunner.cs'' (ho_runner_source h)]
            (\<lambda>made. (made @ [Put_text ''manifest.json''],
               Inr \<lparr>mf_runner = Some (digest (ho_executable h)),
                    mf_runner_source = Some (digest (ho_runner_source h))\<rparr>))
      | _ \<Rightarrow> ([], Inl KeyError)))"

text \<open>The files of a bundle, the runner source beside the module, and the manifest.\<close>

record Bundle =
  bu_dll :: bytes
  bu_runner :: bytes
  bu_runner_source :: bytes
  bu_manifest :: Manifest

definition required_key :: "'a option \<Rightarrow> 'a result" where
  "required_key v = (case v of None \<Rightarrow> Inl KeyError | Some x \<Rightarrow> Inr x)"

definition verify_bundle :: "(bytes \<Rightarrow> string) \<Rightarrow> Bundle \<Rightarrow> Manifest result" where
  "verify_bundle digest b =
     (if digest (bu_dll b) \<noteq> DLL_SHA256 then Inl (ValueError ''Original DLL was changed'')
      else try_bind (required_key (mf_runner (bu_manifest b))) (\<lambda>runner.
      if digest (bu_runner b) \<noteq> runner then Inl (ValueError ''Runner was changed'')
      else try_bind (required_key (mf_runner_source (bu_manifest b))) (\<lambda>source.
      if digest (bu_runner_source b) \<noteq> source
      then Inl (ValueError ''Runner source changed; prepare a new bundle'')
      else Inr (bu_manifest b))))"

definition validate_markers :: "(string \<Rightarrow> string) \<Rightarrow> (string \<Rightarrow> bool) \<Rightarrow> string list \<Rightarrow> string \<Rightarrow> unit result" where
  "validate_markers casefold exists' markers log_path =
     (let resolved = markers @ [log_path] in
      if \<not> distinct (map casefold resolved) then Inl (ValueError ''Power, startup, cancel and log paths must differ'')
      else if list_ex exists' resolved then Inl (ValueError ''Confirmation, cancellation and log paths must be new'')
      else Inr ())"

section \<open>The summary\<close>

datatype helper_record =
    Passive_rx "string option"
  | Status_result bool "string option"
  | Connect_result bool
  | Other_record

record Summary =
  su_returncode :: int
  su_connected :: bool
  su_raw :: bytes
  su_frames :: "FrameCandidate list"
  su_decoded :: "DeviceStatus option"
  su_error :: "error option"
  su_succeeded :: bool

fun passive_bytes :: "helper_record list \<Rightarrow> bytes list result" where
  "passive_bytes [] = Inr []"
| "passive_bytes (Passive_rx None # rs) = Inl KeyError"
| "passive_bytes (Passive_rx (Some digits) # rs) =
     try_bind (fromhex digits) (\<lambda>chunk. try_bind (passive_bytes rs) (\<lambda>rest. Inr (chunk # rest)))"
| "passive_bytes (Status_result ok payload # rs) = passive_bytes rs"
| "passive_bytes (Connect_result ok # rs) = passive_bytes rs"
| "passive_bytes (Other_record # rs) = passive_bytes rs"

text \<open>\<^verbatim>\<open>next(r for r in reversed(records) ...)\<close>: the last report of a status.\<close>

fun last_status :: "helper_record list \<Rightarrow> (bool \<times> string option) option" where
  "last_status [] = None"
| "last_status (r # rs) =
     (case last_status rs of
        Some x \<Rightarrow> Some x
      | None \<Rightarrow> (case r of Status_result ok payload \<Rightarrow> Some (ok, payload) | _ \<Rightarrow> None))"

text \<open>The status block that the library reports, decoded: the value or the error noted.\<close>

definition decode_library_status :: "bytes \<Rightarrow> DeviceStatus result" where
  "decode_library_status payload =
     try_bind (response \<lparr>frame_address = 0x80, frame_payload = payload, frame_raw = []\<rparr> 0) decode_status"

definition decode_report :: "(bool \<times> string option) option \<Rightarrow> (DeviceStatus option \<times> error option) result" where
  "decode_report status =
     (case status of
        Some (True, Some digits) \<Rightarrow>
          try_bind (fromhex digits) (\<lambda>payload.
            case decode_library_status payload of
              Inr st \<Rightarrow> Inr (Some st, None)
            | Inl e \<Rightarrow> if is_ProtocolError e \<or> is_ValueError e \<or> e = IndexError then Inr (None, Some e) else Inl e)
      | Some (True, None) \<Rightarrow> Inl KeyError
      | _ \<Rightarrow> Inr (None, None))"

definition summarize :: "helper_record list \<Rightarrow> int \<Rightarrow> Summary result" where
  "summarize records returncode =
     try_bind (passive_bytes records) (\<lambda>chunks.
     case feed_chunks new_framer chunks of (f, es, cs) \<Rightarrow>
     case rescan f of (g, cs') \<Rightarrow>
     try_bind (decode_report (last_status records)) (\<lambda>(decoded, err).
       Inr \<lparr>su_returncode = returncode,
         su_connected = list_ex (\<lambda>r. r = Connect_result True) records,
         su_raw = concat chunks, su_frames = filter crc_valid (cs @ cs'), su_decoded = decoded,
         su_error = err, su_succeeded = (returncode = 0 \<and> decoded \<noteq> None)\<rparr>))"

section \<open>The guarded run\<close>

text \<open>
  What the run leaves in its log; \<open>Helper_started\<close> stands for the start of the process.
  \<open>output\<close>: the records read from the helper, in order; \<open>ended\<close>: its exit code, or the error
  that broke off the reading or the wait.
\<close>

datatype log_record =
    Experiment_start
  | Helper_started
  | Helper_line helper_record
  | Helper_terminated
  | Experiment_result Summary

definition experiment_run ::
  "bool \<Rightarrow> bool \<Rightarrow> (bytes \<Rightarrow> string) \<Rightarrow> (string \<Rightarrow> string) \<Rightarrow> (string \<Rightarrow> bool) \<Rightarrow> string list \<Rightarrow> string \<Rightarrow>
   Bundle \<Rightarrow> helper_record list \<Rightarrow> int result \<Rightarrow> log_record list \<times> Summary result"
where
  "experiment_run physical_ok allow_legacy digest casefold exists' markers log_path b output ended =
     (if \<not> physical_ok \<or> \<not> allow_legacy
      then ([], Inl (ValueError ''Explicit physical confirmation and legacy configuration/retry consent required''))
      else if length markers \<noteq> 3 then ([], Inl (ValueError ''Three marker paths required''))
      else case validate_markers casefold exists' markers log_path of Inl e \<Rightarrow> ([], Inl e) | Inr _ \<Rightarrow>
      (case verify_bundle digest b of Inl e \<Rightarrow> ([], Inl e) | Inr manifest \<Rightarrow>
      let emitted = [Experiment_start, Helper_started] @ map Helper_line output in
      case ended of
        Inl e \<Rightarrow> (emitted @ [Helper_terminated], Inl e)
      | Inr returncode \<Rightarrow>
          (case summarize (Other_record # output) returncode of
             Inl e \<Rightarrow> (emitted, Inl e)
           | Inr result \<Rightarrow> (emitted @ [Experiment_result result], Inr result))))"

definition experiment_exit :: "log_record list \<times> Summary result \<Rightarrow> exit" where
  "experiment_exit r =
     (case snd r of Inl e \<Rightarrow> Raised e | Inr result \<Rightarrow> Exit (if su_succeeded result then 0 else 1))"

text \<open>\<^verbatim>\<open>main\<close> with the \<^verbatim>\<open>run\<close> command: without both flags the parser ends it.\<close>

definition experiment_main ::
  "bool \<Rightarrow> bool \<Rightarrow> (bytes \<Rightarrow> string) \<Rightarrow> (string \<Rightarrow> string) \<Rightarrow> (string \<Rightarrow> bool) \<Rightarrow> string list \<Rightarrow> string \<Rightarrow>
   Bundle \<Rightarrow> helper_record list \<Rightarrow> int result \<Rightarrow> log_record list \<times> exit"
where
  "experiment_main physical_ok allow_legacy digest casefold exists' markers log_path b output ended =
     (if \<not> physical_ok \<or> \<not> allow_legacy then ([], Exit 2)
      else let r = experiment_run physical_ok allow_legacy digest casefold exists' markers log_path b output ended
           in (fst r, experiment_exit r))"

text \<open>\<^verbatim>\<open>main\<close> with the \<^verbatim>\<open>self-test\<close> command; \<open>tested\<close>: what the helper process gives.\<close>

definition self_test_main :: "(bytes \<Rightarrow> string) \<Rightarrow> Bundle \<Rightarrow> int result \<Rightarrow> bool \<times> exit" where
  "self_test_main digest b tested =
     (case verify_bundle digest b of
        Inl e \<Rightarrow> (False, Raised e)
      | Inr manifest \<Rightarrow> (True, case tested of Inl e \<Rightarrow> Raised e | Inr code \<Rightarrow> Exit code))"

end
