(* ===== verification/Lmsapi_Properties.thy ===== *)
theory Lmsapi_Properties
  imports Lmsapi_Tools Simulator
begin

text \<open>
  What the tools around the third-party library guarantee: which archives are let through, what
  a check of a saved log reports, what a summary rests on, and when anything is built or run.
\<close>

section \<open>Archives\<close>

text \<open>What \<open>inspect_archive\<close> promises of the entries it lets through.\<close>

definition folded_name :: "(string \<Rightarrow> string) \<Rightarrow> entry \<Rightarrow> string" where
  "folded_name casefold e = casefold (posix_text (archive_path e))"

definition entry_safe :: "entry \<Rightarrow> bool" where
  "entry_safe e \<longleftrightarrow>
     posix_root (archive_path e) = [] \<and> ''..'' \<notin> set (posix_names (archive_path e)) \<and>
     CHR '':'' \<notin> set (posix_text (archive_path e)) \<and>
     take 1 (posix_names (archive_path e)) = [''lmsapi''] \<and> \<not> en_link e"

definition archive_safe :: "(string \<Rightarrow> string) \<Rightarrow> entry list \<Rightarrow> bool" where
  "archive_safe casefold es \<longleftrightarrow> distinct (map (folded_name casefold) es) \<and> list_all entry_safe es"

lemma entry_unsafe_iff:
  "entry_unsafe casefold seen e \<longleftrightarrow> \<not> entry_safe e \<or> folded_name casefold e \<in> set seen"
  by (cases "posix_names (archive_path e)") (auto simp: entry_unsafe_def entry_safe_def folded_name_def Let_def)

lemma inspect_from_Inr:
  "inspect_from casefold seen es = Inr inventory \<longleftrightarrow>
     archive_safe casefold es \<and> set (map (folded_name casefold) es) \<inter> set seen = {} \<and>
     inventory = map (\<lambda>e. (en_filename e, en_size e)) es"
proof (induction es arbitrary: seen inventory)
  case Nil
  show ?case by (auto simp: archive_safe_def)
next
  case (Cons e es)
  have seen: "casefold (posix_text (archive_path e)) = folded_name casefold e" by (simp add: folded_name_def)
  show ?case
    by (auto simp: try_bind_eq_Inr Cons.IH entry_unsafe_iff archive_safe_def seen)
qed

lemma inspect_archive_Inr:
  "inspect_archive casefold es = Inr inventory \<longleftrightarrow>
     archive_safe casefold es \<and> inventory = map (\<lambda>e. (en_filename e, en_size e)) es"
  by (simp add: inspect_archive_def inspect_from_Inr)

section \<open>Streams\<close>

lemma on_stream_truncated [simp]: "on_stream (count_truncated f) bs = on_stream f bs"
  by (simp add: on_stream_def)

lemma expire_stream:
  assumes "expire f = (g, es, cs)" "on_stream f bs" "buffer f \<noteq> []"
  shows "on_stream g bs" "list_all (candidate_ok bs) cs"
proof -
  have "feed (discard 1 (count_truncated f)) [] = (g, es, cs)" using assms by (simp add: expire_def)
  moreover have "on_stream (discard 1 (count_truncated f)) bs"
    using assms by (intro on_stream_discard) (simp_all add: Suc_le_eq)
  ultimately show "on_stream g bs" "list_all (candidate_ok bs) cs" using feed_stream by fastforce+
qed

lemma rescan_stream:
  "rescan f = (g, cs) \<Longrightarrow> on_stream f bs \<Longrightarrow> buffer g = [] \<and> list_all (candidate_ok bs) cs"
proof (induction f arbitrary: g cs rule: rescan.induct)
  case (1 f)
  show ?case
  proof (cases "buffer f = []")
    case True
    then show ?thesis using "1.prems" rescan.simps [of f] by simp
  next
    case False
    obtain h es cs1 where e: "expire f = (h, es, cs1)" by (cases "expire f") auto
    obtain k cs2 where r: "rescan h = (k, cs2)" by (cases "rescan h") auto
    have "g = k" "cs = cs1 @ cs2" using "1.prems"(1) False e r rescan.simps [of f] by simp_all
    moreover have "on_stream h bs" "list_all (candidate_ok bs) cs1"
      using expire_stream [OF e "1.prems"(2) False] by simp_all
    ultimately show ?thesis using "1.IH" [OF False e [symmetric] refl r] by simp
  qed
qed

lemma new_framer_on_stream: "on_stream new_framer []"
  by (simp add: on_stream_def new_framer_def)

lemma scan_stream_ok:
  assumes "scan_stream raw = (g, cs)"
  shows "buffer g = []" "list_all (candidate_ok raw) cs"
proof -
  obtain f es cs1 where f: "feed new_framer raw = (f, es, cs1)" by (cases "feed new_framer raw") auto
  obtain h cs2 where r: "rescan f = (h, cs2)" by (cases "rescan f") auto
  have "on_stream f raw" "list_all (candidate_ok raw) cs1" using feed_stream [OF f new_framer_on_stream] by simp_all
  then show "buffer g = []" "list_all (candidate_ok raw) cs"
    using rescan_stream [OF r] assms f r by (auto simp: scan_stream_def)
qed

text \<open>Feeding chunk by chunk finds what feeding the whole finds.\<close>

lemma feed_chunks_scan:
  assumes "feed_chunks new_framer chunks = (f, es, cs)" "rescan f = (g, cs')"
  shows "scan_stream (concat chunks) = (g, cs @ cs')"
proof -
  have "feed new_framer [] = (new_framer, [], [])" by code_simp
  from feed_chunks_concat [OF this assms(1)] show ?thesis using assms(2) by (simp add: scan_stream_def)
qed

definition stream_at :: "streams \<Rightarrow> string \<times> string \<Rightarrow> bytes" where
  "stream_at st key = (case map_of st key of None \<Rightarrow> [] | Some raw \<Rightarrow> raw)"

text \<open>The bytes that a line of a log adds to a stream.\<close>

fun rx_of :: "string \<times> string \<Rightarrow> log_line \<Rightarrow> bytes" where
  "rx_of key (Rx_line (Some run) ph (Some digits)) =
     (if key = (run, case ph of None \<Rightarrow> ''unspecified'' | Some p \<Rightarrow> p)
      then (case fromhex digits of Inl e \<Rightarrow> [] | Inr data \<Rightarrow> data) else [])"
| "rx_of key _ = []"

lemma add_chunk_keys: "set (map fst (add_chunk key data st)) = insert key (set (map fst st))"
  by (induction key data st rule: add_chunk.induct) (simp_all add: insert_commute)

lemma add_chunk_at:
  "stream_at (add_chunk key data st) k = stream_at st k @ (if k = key then data else [])"
  by (induction key data st rule: add_chunk.induct) (auto simp: stream_at_def)

lemma add_chunk_distinct: "distinct (map fst st) \<Longrightarrow> distinct (map fst (add_chunk key data st))"
  by (induction key data st rule: add_chunk.induct) (auto simp: add_chunk_keys [unfolded set_map])

lemma gather_streams:
  "gather ls st = Inr st' \<Longrightarrow> distinct (map fst st) \<Longrightarrow>
     distinct (map fst st') \<and> (\<forall>k. stream_at st' k = stream_at st k @ concat (map (rx_of k) ls))"
proof (induction ls st rule: gather.induct)
  case (4 run ph digits ls st)
  obtain r h data where line: "run = Some r" "digits = Some h" "fromhex h = Inr data"
    using "4.prems"(1) by (auto simp: try_bind_eq_Inr split: option.splits)
  let ?st = "add_chunk (r, case ph of None \<Rightarrow> ''unspecified'' | Some p \<Rightarrow> p) data st"
  have "gather ls ?st = Inr st'" using "4.prems"(1) by (simp add: line)
  then have "distinct (map fst st') \<and> (\<forall>k. stream_at st' k = stream_at ?st k @ concat (map (rx_of k) ls))"
    using "4.IH" line add_chunk_distinct [OF "4.prems"(2)] by blast
  then show ?case by (simp add: line add_chunk_at)
qed auto

lemma stream_at_mem: "distinct (map fst st) \<Longrightarrow> (key, raw) \<in> set st \<Longrightarrow> stream_at st key = raw"
  by (simp add: stream_at_def)

text \<open>A checked frame against the stream it was found in.\<close>

definition frame_checked :: "(bytes \<Rightarrow> int) \<Rightarrow> bytes \<Rightarrow> checked_frame \<Rightarrow> bool" where
  "frame_checked crc raw fr \<longleftrightarrow>
     cf_offset fr + length (cf_raw fr) \<le> length raw \<and>
     cf_raw fr = take (length (cf_raw fr)) (drop (cf_offset fr) raw) \<and>
     cf_upstream fr = crc (body_of (cf_raw fr)) \<and> cf_wire fr = wire_crc (cf_raw fr) \<and>
     (cf_matches fr \<longleftrightarrow> crc (body_of (cf_raw fr)) = crc16 (body_of (cf_raw fr))) \<and>
     (cf_valid fr \<longleftrightarrow> crc (body_of (cf_raw fr)) = wire_crc (cf_raw fr))"

lemma check_candidate_ok: "candidate_ok raw c \<Longrightarrow> frame_checked crc raw (check_candidate crc c)"
  by (simp add: frame_checked_def check_candidate_def candidate_ok_def wire_crc_def body_of_def Let_def)

section \<open>The report of the library\<close>

lemma decode_report_Some:
  assumes "decode_report status = Inr (decoded, err)"
  shows "decoded = Some st \<longleftrightarrow> (\<exists>digits payload. status = Some (True, Some digits) \<and>
     fromhex digits = Inr payload \<and> decode_library_status payload = Inr st)"
proof (cases "\<exists>digits. status = Some (True, Some digits)")
  case True
  then obtain digits where status: "status = Some (True, Some digits)" by blast
  then obtain payload where "fromhex digits = Inr payload"
    using assms by (auto simp: decode_report_def try_bind_eq_Inr)
  then show ?thesis
    using assms by (cases "decode_library_status payload") (auto simp: decode_report_def status split: if_splits)
next
  case False
  then show ?thesis
    using assms by (auto simp: decode_report_def split: option.splits bool.splits)
qed

section \<open>Properties\<close>



text \<open>
  The summary of a run of the original library reports as passive telegrams exactly the
  valid candidates of the bytes received, however these were cut into records; and it calls
  the run a success exactly when the process ended with code 0 and its last status report was
  a success whose payload decodes.
\<close>

theorem summary_rests_on_evidence:
  assumes "summarize records returncode = Inr s"
  shows "su_frames s = filter crc_valid (snd (scan_stream (su_raw s))) \<and>
    list_all (candidate_ok (su_raw s)) (su_frames s) \<and>
    (su_succeeded s \<longleftrightarrow> returncode = 0 \<and> (\<exists>digits payload st. last_status records = Some (True, Some digits) \<and>
       fromhex digits = Inr payload \<and> decode_library_status payload = Inr st \<and> su_decoded s = Some st))"
proof -
  obtain chunks where chunks: "passive_bytes records = Inr chunks"
    using assms by (auto simp: summarize_def try_bind_eq_Inr)
  obtain f es cs where f: "feed_chunks new_framer chunks = (f, es, cs)"
    by (cases "feed_chunks new_framer chunks") auto
  obtain g cs' where g: "rescan f = (g, cs')" by (cases "rescan f") auto
  obtain decoded err where d: "decode_report (last_status records) = Inr (decoded, err)"
    using assms by (auto simp: summarize_def chunks f g try_bind_eq_Inr)
  have s: "su_raw s = concat chunks" "su_frames s = filter crc_valid (cs @ cs')" "su_decoded s = decoded"
    "su_succeeded s \<longleftrightarrow> returncode = 0 \<and> decoded \<noteq> None"
    using assms by (auto simp: summarize_def chunks f g d)
  have scan: "scan_stream (concat chunks) = (g, cs @ cs')" using f g by (rule feed_chunks_scan)
  show ?thesis
    using s scan scan_stream_ok(2) [OF scan] decode_report_Some [OF d] by (auto simp: list_all_iff)
qed

definition sample_records :: "bytes \<Rightarrow> helper_record list" where
  "sample_records payload = [Passive_rx (Some ''FF0200''), Connect_result True, Passive_rx (Some ''0100311512''),
     Status_result True (Some (hex payload))]"

lemma sample_summary:
  assumes "decode_library_status payload = Inr st"
  shows "\<exists>s. summarize (sample_records payload) 0 = Inr s \<and> su_succeeded s \<and> map cand_offset (su_frames s) = [1]"
proof -
  have chunks: "passive_bytes (sample_records payload) = Inr [[0xFF, 0x02, 0x00], [0x01, 0x00, 0x31, 0x15, 0x12]]"
    by (simp add: sample_records_def hex_value_def hex_space_def)
  have fed: "(case feed_chunks new_framer [[0xFF, 0x02, 0x00], [0x01, 0x00, 0x31, 0x15, 0x12]] of (f, es, cs) \<Rightarrow>
      map cand_offset cs = [1] \<and> list_all crc_valid cs \<and> buffer f = [])"
    by code_simp
  obtain f es cs where f: "feed_chunks new_framer [[0xFF, 0x02, 0x00], [0x01, 0x00, 0x31, 0x15, 0x12]] = (f, es, cs)"
    by (cases "feed_chunks new_framer [[0xFF, 0x02, 0x00], [0x01, 0x00, 0x31, 0x15, 0x12]]") auto
  have cs: "map cand_offset cs = [1]" "filter crc_valid cs = cs" "rescan f = (f, [])"
    using fed [unfolded f prod.case] rescan.simps [of f] by (simp_all add: list_all_iff)
  have "decode_report (last_status (sample_records payload)) = Inr (Some st, None)"
    by (simp add: sample_records_def decode_report_def fromhex_hex assms)
  then show ?thesis by (simp add: summarize_def chunks f cs del: feed_chunks.simps)
qed

theorem summary_rests_on_evidence_witness:
  "\<exists>payload s. summarize (sample_records payload) 0 = Inr s \<and> su_succeeded s \<and> map cand_offset (su_frames s) = [1] \<and>
     list_all (candidate_ok (su_raw s)) (su_frames s)"
proof -
  have "sim_ok (new_simulator 9600 9600 True)" by (rule sim_ok_new) simp
  from status_decodes [OF this] obtain data st where data:
    "\<And>reply. resp_command reply = 0xB1 \<Longrightarrow> resp_data reply = data \<Longrightarrow> decode_status reply = Inr st"
    by metis
  have "status_decode 0x10 \<noteq> Inl e" for e by (simp add: status_decode_def SEVERITIES_def)
  then obtain status where "status_decode 0x10 = Inr status" by (cases "status_decode 0x10") auto
  then have "decode_library_status (0xB1 # data @ [0x10]) = Inr st"
    by (simp add: decode_library_status_def response_def expected_addresses_def frame_command_def slice_def data)
  from sample_summary [OF this] obtain s where s: "summarize (sample_records (0xB1 # data @ [0x10])) 0 = Inr s"
    "su_succeeded s" "map cand_offset (su_frames s) = [1]" by (elim exE conjE) (rule that)
  from summary_rests_on_evidence [OF s(1)] have "list_all (candidate_ok (su_raw s)) (su_frames s)"
    by (elim conjE)
  with s show ?thesis by (intro exI conjI)
qed

text \<open>A library, archive and host on which every guard passes.\<close>

definition sample_digest :: "bytes \<Rightarrow> string" where
  "sample_digest data = (if data = [1] then REVIEWED_SHA256 else if data = [2] then DLL_SHA256 else ''other'')"

definition sample_archive :: Archive where
  "sample_archive = \<lparr>ar_package = [1],
     ar_entries = [\<lparr>en_filename = ''lmsapi/src/lmsapi_crc.c'', en_size = 3, en_link = False\<rparr>,
                   \<lparr>en_filename = ''lmsapi/libDLL/lmsapi.dll'', en_size = 1, en_link = False\<rparr>],
     ar_member = (\<lambda>name. if name = ''lmsapi/libDLL/lmsapi.dll'' then Some [2] else Some [3])\<rparr>"

definition sample_host :: Host where
  "sample_host = \<lparr>ho_windows = True, ho_compiler = True, ho_target_exists = False, ho_build = Some 0,
     ho_runner_source = [4], ho_executable = [5]\<rparr>"

definition sample_bundle :: Bundle where
  "sample_bundle = \<lparr>bu_dll = [2], bu_runner = [5], bu_runner_source = [4],
     bu_manifest = \<lparr>mf_runner = Some ''other'', mf_runner_source = Some ''other''\<rparr>\<rparr>"

lemma check_run_guard:
  "fst (check_run digest casefold crc vectors a h captures) \<noteq> [] \<Longrightarrow>
     digest (ar_package a) = REVIEWED_SHA256 \<and> archive_safe casefold (ar_entries a)"
  using inspect_archive_Inr [of casefold "ar_entries a"]
  by (auto simp: check_run_def split: if_splits sum.splits)

lemma prepare_guard:
  assumes "fst (prepare digest casefold a h) \<noteq> []"
  shows "digest (ar_package a) = REVIEWED_SHA256 \<and> archive_safe casefold (ar_entries a)"
  using assms inspect_archive_Inr [of casefold "ar_entries a"]
  by (auto simp: prepare_def split: if_splits sum.splits)

lemma prepare_library:
  assumes "Put_bytes ''lmsapi.dll'' data \<in> set (fst (prepare digest casefold a h))"
  shows "digest data = DLL_SHA256"
  using assms
  by (auto simp: prepare_def run_compiler_def Let_def split: if_splits sum.splits option.splits)

text \<open>What has to hold before the helper process is started.\<close>

definition may_start ::
  "bool \<Rightarrow> bool \<Rightarrow> (bytes \<Rightarrow> string) \<Rightarrow> (string \<Rightarrow> string) \<Rightarrow> (string \<Rightarrow> bool) \<Rightarrow> string list \<Rightarrow> string \<Rightarrow> Bundle \<Rightarrow> bool"
where
  "may_start physical_ok allow_legacy digest casefold exists' markers log_path b \<longleftrightarrow>
     physical_ok \<and> allow_legacy \<and> length markers = 3 \<and>
     distinct (map casefold (log_path # markers)) \<and> (\<forall>p \<in> set (log_path # markers). \<not> exists' p) \<and>
     digest (bu_dll b) = DLL_SHA256 \<and> mf_runner (bu_manifest b) = Some (digest (bu_runner b)) \<and>
     mf_runner_source (bu_manifest b) = Some (digest (bu_runner_source b))"

lemma verify_bundle_Inr:
  "verify_bundle digest b = Inr m \<longleftrightarrow> m = bu_manifest b \<and> digest (bu_dll b) = DLL_SHA256 \<and>
     mf_runner (bu_manifest b) = Some (digest (bu_runner b)) \<and>
     mf_runner_source (bu_manifest b) = Some (digest (bu_runner_source b))"
  by (auto simp: verify_bundle_def required_key_def try_bind_eq_Inr split: option.splits)

lemma validate_markers_Inr:
  "validate_markers casefold exists' markers log_path = Inr u \<longleftrightarrow>
     distinct (map casefold (log_path # markers)) \<and> (\<forall>p \<in> set (log_path # markers). \<not> exists' p)"
  by (auto simp: validate_markers_def Let_def list_ex_iff)

lemma experiment_run_started:
  "fst (experiment_run physical_ok allow_legacy digest casefold exists' markers log_path b output ended) =
     (if may_start physical_ok allow_legacy digest casefold exists' markers log_path b
      then [Experiment_start, Helper_started] @ map Helper_line output @
        (case ended of Inl e \<Rightarrow> [Helper_terminated]
         | Inr code \<Rightarrow> (case summarize (Other_record # output) code of Inl e \<Rightarrow> [] | Inr s \<Rightarrow> [Experiment_result s]))
      else [])"
proof (cases "validate_markers casefold exists' markers log_path")
  case (Inl e)
  then have "\<not> may_start physical_ok allow_legacy digest casefold exists' markers log_path b"
    using validate_markers_Inr [of casefold exists' markers log_path "()"] by (auto simp: may_start_def)
  then show ?thesis by (simp add: experiment_run_def Inl)
next
  case (Inr u)
  show ?thesis
  proof (cases "verify_bundle digest b")
    case v: (Inl e)
    then have "\<not> may_start physical_ok allow_legacy digest casefold exists' markers log_path b"
      using verify_bundle_Inr [of digest b "bu_manifest b"] by (auto simp: may_start_def)
    then show ?thesis by (simp add: experiment_run_def Inr v)
  next
    case v: (Inr m)
    then have "may_start physical_ok allow_legacy digest casefold exists' markers log_path b \<longleftrightarrow>
        physical_ok \<and> allow_legacy \<and> length markers = 3"
      using Inr by (auto simp: may_start_def verify_bundle_Inr validate_markers_Inr)
    then show ?thesis by (auto simp: experiment_run_def Inr v Let_def split: sum.split)
  qed
qed

text \<open>
  The checks around the third-party library act only on what was reviewed.  Neither the
  checksum comparison nor the preparation of a bundle touches the disk, compiles or loads
  anything unless the archive has the reviewed digest and every entry of it is a relative path
  below \<^verbatim>\<open>lmsapi\<close> that is no link and repeats no other; the library put into a bundle has the
  pinned digest; and the helper process is started, once, exactly when both consents were
  given, its four paths differ and are new, and the files of the bundle match its manifest.
\<close>

theorem lmsapi_acts_only_when_reviewed:
  assumes "fst (check_run digest casefold crc vectors a h captures) \<noteq> [] \<or>
    fst (prepare digest casefold a h) \<noteq> []"
  shows "digest (ar_package a) = REVIEWED_SHA256 \<and> archive_safe casefold (ar_entries a) \<and>
    (\<forall>data. Put_bytes ''lmsapi.dll'' data \<in> set (fst (prepare digest casefold a h)) \<longrightarrow> digest data = DLL_SHA256) \<and>
    count_list (fst (experiment_run physical_ok allow_legacy digest casefold exists' markers log_path b output ended))
      Helper_started = (if may_start physical_ok allow_legacy digest casefold exists' markers log_path b then 1 else 0)"
proof -
  have "count_list (map Helper_line xs) Helper_started = 0" for xs by (induction xs) simp_all
  then show ?thesis
    using assms check_run_guard prepare_guard prepare_library
    by (auto simp: experiment_run_started split: sum.split)
qed

theorem lmsapi_acts_only_when_reviewed_witness:
  "archive_safe id (ar_entries sample_archive) \<and>
   Put_bytes ''lmsapi.dll'' [2] \<in> set (fst (prepare sample_digest id sample_archive sample_host)) \<and>
   count_list (fst (experiment_run True True sample_digest id (\<lambda>p. False) [''a'', ''b'', ''c''] ''d''
     sample_bundle [] (Inr 0))) Helper_started = 1"
proof -
  have made: "Put_bytes ''lmsapi.dll'' [2] \<in> set (fst (prepare sample_digest id sample_archive sample_host))"
    by code_simp
  then have "fst (prepare sample_digest id sample_archive sample_host) \<noteq> []" by force
  from lmsapi_acts_only_when_reviewed [OF disjI2 [OF this], of True True "\<lambda>p. False"
      "[''a'', ''b'', ''c'']" "''d''" sample_bundle "[]" "Inr 0"]
  have "archive_safe id (ar_entries sample_archive)"
    "count_list (fst (experiment_run True True sample_digest id (\<lambda>p. False) [''a'', ''b'', ''c''] ''d''
       sample_bundle [] (Inr 0))) Helper_started =
     (if may_start True True sample_digest id (\<lambda>p. False) [''a'', ''b'', ''c''] ''d'' sample_bundle then 1 else 0)"
    by blast+
  moreover have "may_start True True sample_digest id (\<lambda>p. False) [''a'', ''b'', ''c''] ''d'' sample_bundle"
    by code_simp
  ultimately show ?thesis using made by simp
qed

text \<open>A bundle that was prepared and left alone passes its own verification.\<close>

theorem prepared_bundle_verifies:
  assumes "prepare digest casefold a h = (made, Inr m)" "Put_bytes ''lmsapi.dll'' library \<in> set made"
  shows "verify_bundle digest \<lparr>bu_dll = library, bu_runner = ho_executable h,
    bu_runner_source = ho_runner_source h, bu_manifest = m\<rparr> = Inr m"
proof -
  have "digest library = DLL_SHA256" using prepare_library [of library digest casefold a h] assms by simp
  then show ?thesis
    using assms(1)
    by (auto simp: verify_bundle_Inr prepare_def run_compiler_def Let_def split: if_splits sum.splits option.splits)
qed

end
