(* ===== verification/Spec2Isabelle.thy ===== *)
theory Spec2Isabelle
  imports Device_Guarantees Service_Properties Recording_Properties Diagnostic_Properties Status_Probe
    Reset_Experiment Status_Experiment Commissioning Relay_Properties Integration_Check Simulator_Types
    Tcp_Transport Serial_Transport Bridge_Link Bridge_Shutdown Http_Api Command_Main Lmsapi_Properties
begin

text \<open>
  A verification of the Python program in \<^verbatim>\<open>src/src/lms200\<close>: acquisition from a SICK LMS200
  laser scanner over a serial line, its recording, replay and distribution, and the guarded
  diagnostic tools around the same port, with the helpers in \<^verbatim>\<open>src/tools/ros2_status\<close>.  Other
  paths below are relative to the first directory.

  \<^bold>\<open>The program and its parts.\<close>  A transport (\<^verbatim>\<open>transports/\<close>: serial port, bridge over TCP,
  simulated scanner, recording) is a stream of bytes.  The framer finds acknowledgements and
  telegrams in it, the decoders turn telegrams into replies and scans, and one \<^verbatim>\<open>Device\<close>
  (\<^verbatim>\<open>state_machine.py\<close>) owns the transport: it sends commands, checks their replies, sets the
  scanner up, and keeps a state between disconnected and streaming.  The \<^verbatim>\<open>Service\<close> hands the
  scans of the device to subscribers and to a recording, and runs one device action at a time
  for its two clients, the HTTP interface and the command line.  \<^verbatim>\<open>bridge.py\<close> is a separate
  program that lends a serial port to one remote device, whose TCP transport is the other end.
  The diagnostic tools are separate programs too: each owns a port, sends at most what its
  operator confirmed and writes a report.  The driver experiment owns the port on behalf of a
  driver node, which it reaches through a relay (\<^verbatim>\<open>pty_relay.py\<close>), and \<^verbatim>\<open>integration_check.py\<close> runs
  relay and driver offline.

  \<^bold>\<open>Where things are.\<close>
    \<^item> \<open>Prelude\<close>: bytes as 8-bit words, Python's exceptions as the values \<open>error\<close>, fallible code as
      \<open>'a result = error + 'a\<close>, the little-endian codecs, \<^verbatim>\<open>bytes.fromhex\<close>.
    \<^item> \<open>Crc\<close>, \<open>Framing\<close>, \<open>Commands\<close>, \<open>Responses\<close>, \<open>Measurements\<close>: \<^verbatim>\<open>protocol/*.py\<close>.  \<open>Stream_Parser\<close> is the
      contract of an incremental parser, a locale that the framer interprets.
    \<^item> \<open>Config\<close>: \<^verbatim>\<open>config.py\<close>.  \<open>Transports\<close>: what a transport is for the device, with one answer from
      outside for each call.  \<open>Tcp_Transport\<close>: \<^verbatim>\<open>transports/tcp.py\<close> await by await, as an
      implementation of it.  \<open>Serial_Transport\<close>: \<^verbatim>\<open>transports/serial.py\<close> with its worker threads.
      \<open>Simulator\<close>, \<open>Simulator_Types\<close>: \<^verbatim>\<open>transports/simulator.py\<close>.  The replay transport is in
      \<open>Recording\<close> with \<^verbatim>\<open>recording.py\<close>, since both meet in the recorded files.
    \<^item> \<open>Device\<close>: \<^verbatim>\<open>state_machine.py\<close>, one definition for each method.  \<open>Device_Logic\<close> and
      \<open>Device_Invariants\<close> are the proof rules, with a hierarchy of locales (an invariant of the
      reader, of a command, of every operation); \<open>Device_Properties\<close>, \<open>Device_Exchange\<close>,
      \<open>Device_Simulation\<close> (the device against the simulated scanner) and \<open>Device_Guarantees\<close> hold
      the properties.
    \<^item> \<open>Bounded_Queue\<close>: the locale of buffers that forget their oldest element, with the program's
      four as instances.  \<open>Service\<close>, \<open>Service_Properties\<close>: \<^verbatim>\<open>service.py\<close>.
    \<^item> \<open>Http_Api\<close>: \<^verbatim>\<open>api/app.py\<close> and \<^verbatim>\<open>exports.py\<close>.  \<open>Command_Line\<close>, \<open>Command_Main\<close>: \<^verbatim>\<open>cli.py\<close>.
    \<^item> \<open>Step_Runs\<close>: the locale of machines whose events are partial functions, with the laws of their
      runs; the bridge, its shutdown, its link and the serial transport are its instances.
    \<^item> \<open>Bridge\<close>, \<open>Bridge_Shutdown\<close>: \<^verbatim>\<open>bridge.py\<close>.  \<open>Bridge_Link\<close>: the TCP transport and the bridge
      composed, with the bytes under way between them, against a plain serial line.
    \<^item> \<open>Serial_Tools\<close>: what the diagnostic tools share, with the evidence they collect
      (\<^verbatim>\<open>Capture\<close>).  \<open>Hardware_Diagnostic\<close>, \<open>Status_Probe\<close>, \<open>Reset_Experiment\<close>,
      \<open>Status_Experiment\<close>: \<^verbatim>\<open>hardware_diagnostic.py\<close>, \<^verbatim>\<open>status_probe.py\<close>,
      \<^verbatim>\<open>reset_experiment.py\<close>, \<^verbatim>\<open>ros2_status_experiment.py\<close>.
      \<open>Capture_Properties\<close> and \<open>Diagnostic_Properties\<close> hold the proof rules and the properties;
      \<open>Commissioning\<close> is the command lines of the diagnostic and of the driver experiment.
    \<^item> \<open>Pty_Relay\<close>, \<open>Relay_Properties\<close>, \<open>Integration_Check\<close>: the two programs in \<^verbatim>\<open>src/tools/ros2_status\<close>,
      the relay alone and in front of the gate of the driver experiment.
    \<^item> \<open>Lmsapi_Tools\<close>, \<open>Lmsapi_Properties\<close>: \<^verbatim>\<open>lmsapi_check.py\<close> and \<^verbatim>\<open>lmsapi_experiment.py\<close>.

  \<^bold>\<open>State and concurrency.\<close>  An object is a record, a method a function on it.  The device has two
  tasks on one event loop, the reader and the operation in progress; they change places only
  where the code awaits.  The schedule and all answers of the outside world are a list of ticks
  that every operation takes as an argument, and an operation that has used up its list is
  \<open>Pending\<close>.  A theorem about every list of ticks is therefore about every schedule and every
  suspension point, and a theorem that an operation returns gives a list on which it does.  The
  tools are synchronous: they take a list of \<open>wire\<close>s, what each call of the port gave and when.
  The tasks of the service and of the bridge are cut at the awaits, and \<open>service_step\<close> and
  \<open>bridge_step\<close>, with \<open>shut_step\<close> and \<open>link_step\<close> above it, say which piece may run next.  Nothing runs on fuel: loops are structural in
  their ticks, wires, rounds or data, or come with a termination proof (the framer's loops, by
  the length of the buffer; the replay, by what is left of its files).

  \<^bold>\<open>What is shown.\<close>
    \<^item> Protocol: the checksum is the linear 16-bit register and tells apart single-byte changes;
      the framer implements a declarative relation between bytes and events, does not depend on
      how the stream is cut, and returns what was encoded; replies and scans are accepted
      exactly under the stated conditions.
    \<^item> Device: nothing that changes the scanner is sent without consent; retry budgets; what a
      successful command, initialization and close have established; streaming only after a
      verified readback; bounded buffers; scans without gaps in their numbers and an exact
      count of the lost ones; initialization succeeds against the simulated scanner.
    \<^item> Recording and service: recordings replay to the byte; order and exact accounting in every
      interleaving; how actions end.  Replay always ends.
    \<^item> Interfaces: writing becomes possible only through the operator's checklist, over HTTP and on
      the command line; the bridge serves one rightful client at a time and hands the port on.
    \<^item> Transports: over the serial port telegrams go whole and at one rate; the TCP transport implements the device's contract, and together with the bridge
      it is a serial line, with one rate, that loses, repeats and reorders nothing; the simulator
      keeps its fields in their types under any use and raises only what is documented here.
    \<^item> Tools: each sends at most the telegrams it was allowed to, and success rests on evidence in
      the bytes received; the third-party library is built and run only when it is the one reviewed.
      The relay is two pipes of bytes; with the gate behind it a driver gets one request through.
    \<^item> Three theorems state faults of the code: \<open>Service_Properties\<close> has a \<^verbatim>\<open>stop_recording\<close> that
      hangs, \<open>Bridge\<close> a lease that outlives its control connection, and \<open>Bridge_Shutdown\<close> a \<^verbatim>\<open>close\<close>
      that waits for the clients it was to cancel.

  \<^bold>\<open>Choices.\<close>  Python integers are \<open>int\<close>, bytes are words.  Floats are exact: resolutions and angles
  are rationals, distances and coordinates reals.  Dictionaries that reach a file or a client are
  records of the values they hold, so the text of JSON, CSV and logs is not modelled.  Clocks
  are values that the environment gives.

  \<^bold>\<open>Not modelled.\<close>  asyncio, pyserial, pydantic, FastAPI, argparse, the operating system and the
  third-party library are outside: their answers are arguments.  The locks of the device are not
  modelled (one operation at a time; \<^verbatim>\<open>connect\<close> takes no lock in the code).  The
  declarations of argument parsers, journal and log lines, the start of the web server, the
  starting and stopping of processes beyond what their callers decide, and the web front end are
  left out.
\<close>

end
